theory Spec2Isabelle
  imports Main "HOL-Library.Word"
begin

unbundle bit_operations_syntax

section \<open>The memory-mapped statistics file of rspamd (src/libstat/backends/mmaped\_file.c)\<close>

text \<open>
  The embedding follows the C source function by function. The platform is the one the
  code is built for: LP64 (\<open>guint\<close>, \<open>guint32\<close>, \<open>gint\<close> of 32 bits; \<open>guint64\<close>,
  \<open>size_t\<close>, \<open>off_t\<close>, \<open>time_t\<close>, \<open>long\<close> and pointers of 64 bits), little-endian,
  IEEE-754 \<open>double\<close>. Unsigned C integers are words, so \<open>+\<close>, \<open>-\<close> and \<open>*\<close> wrap as
  in C; a signed reading is \<open>sint\<close>.

  A mapped file is a function from byte offsets to bytes; the extent of the mapping is
  the \<open>len\<close> the program itself keeps. A \<open>double\<close> is its 64-bit pattern: the code
  only stores, returns and compares doubles, and the comparisons are defined on the
  pattern below.

  What C leaves undefined (a read or write outside the mapping, a division by zero, a
  null pointer dereferenced) is the value \<open>Inl fault\<close>; every return of the source,
  also \<open>NULL\<close>, \<open>-1\<close> and \<open>FALSE\<close>, is a value under \<open>Inr\<close>.
\<close>

subsection \<open>Sizes and constants\<close>

text \<open>
  \<open>struct stat_file_header\<close>: 3 + 2 + 3 bytes of magic, version and padding, five
  \<open>guint64\<close> at offsets 8, 16, 24, 32 and 40, and 239 unused bytes from offset 48:
  287 bytes, rounded up to the alignment of \<open>guint64\<close>.
\<close>

definition round_up :: "nat \<Rightarrow> nat \<Rightarrow> nat" where
  "round_up a n = ((n + a - 1) div a) * a"

definition sizeof_stat_file_header :: nat where
  "sizeof_stat_file_header = round_up 8 (3 + 2 + 3 + 5 * 8 + 239)"

definition sizeof_stat_file_section :: nat where
  "sizeof_stat_file_section = 8 + 8"

definition sizeof_stat_file_block :: nat where
  "sizeof_stat_file_block = 4 + 4 + 8"

text \<open>\<open>struct stat_file\<close>: the header, the first section header and one block.\<close>

definition sizeof_stat_file :: nat where
  "sizeof_stat_file = sizeof_stat_file_header + sizeof_stat_file_section + sizeof_stat_file_block"

text \<open>\<open>sizeof (block)\<close> where \<open>block\<close> is declared \<open>struct stat_file_block *\<close>.\<close>

definition sizeof_pointer :: nat where
  "sizeof_pointer = 8"

definition CHAIN_LENGTH :: nat where
  "CHAIN_LENGTH = 128"

definition STATFILES_MAX :: int where
  "STATFILES_MAX = 255"

definition STATFILE_SECTION_COMMON :: "64 word" where
  "STATFILE_SECTION_COMMON = 1"

definition PATH_MAX :: nat where
  "PATH_MAX = 4096"

datatype fault = OutOfBounds | DivisionByZero | NullDereference | SignedOverflow

subsection \<open>Bytes of a mapping\<close>

type_synonym mem = "nat \<Rightarrow> 8 word"

definition rd32 :: "mem \<Rightarrow> nat \<Rightarrow> 32 word" where
  "rd32 m a = ucast (m a) OR push_bit 8 (ucast (m (a + 1))) OR push_bit 16 (ucast (m (a + 2)))
      OR push_bit 24 (ucast (m (a + 3)))"

definition wr32 :: "mem \<Rightarrow> nat \<Rightarrow> 32 word \<Rightarrow> mem" where
  "wr32 m a w = m(a := ucast w, a + 1 := ucast (drop_bit 8 w), a + 2 := ucast (drop_bit 16 w),
      a + 3 := ucast (drop_bit 24 w))"

definition rd64 :: "mem \<Rightarrow> nat \<Rightarrow> 64 word" where
  "rd64 m a = ucast (rd32 m a) OR push_bit 32 (ucast (rd32 m (a + 4)))"

definition wr64 :: "mem \<Rightarrow> nat \<Rightarrow> 64 word \<Rightarrow> mem" where
  "wr64 m a w = wr32 (wr32 m a (ucast w)) (a + 4) (ucast (drop_bit 32 w))"

text \<open>\<open>bzero\<close> and the zero-filled buffers written by \<open>write\<close>: \<open>n\<close> zero bytes from \<open>a\<close>.\<close>

definition wr_zero :: "mem \<Rightarrow> nat \<Rightarrow> nat \<Rightarrow> mem" where
  "wr_zero m a n = (\<lambda>x. if a \<le> x \<and> x < a + n then 0 else m x)"

subsection \<open>IEEE-754 doubles as bit patterns\<close>

text \<open>
  A pattern is a NaN when its exponent bits are all ones and its fraction is not zero.
  The numbers other than NaN are ordered as their sign and magnitude are, with \<open>-0 = +0\<close>;
  every comparison with a NaN but \<open>!=\<close> is false.
\<close>

definition dbl_magnitude :: "64 word \<Rightarrow> 64 word" where
  "dbl_magnitude w = w AND 0x7FFFFFFFFFFFFFFF"

definition dbl_isnan :: "64 word \<Rightarrow> bool" where
  "dbl_isnan w \<longleftrightarrow> 0x7FF0000000000000 < dbl_magnitude w"

definition dbl_ord :: "64 word \<Rightarrow> int" where
  "dbl_ord w = (if bit w 63 then - uint (dbl_magnitude w) else uint (dbl_magnitude w))"

definition dbl_less :: "64 word \<Rightarrow> 64 word \<Rightarrow> bool" where
  "dbl_less a b \<longleftrightarrow> \<not> dbl_isnan a \<and> \<not> dbl_isnan b \<and> dbl_ord a < dbl_ord b"

definition dbl_neq :: "64 word \<Rightarrow> 64 word \<Rightarrow> bool" where
  "dbl_neq a b \<longleftrightarrow> dbl_isnan a \<or> dbl_isnan b \<or> dbl_ord a \<noteq> dbl_ord b"

definition G_MAXDOUBLE :: "64 word" where
  "G_MAXDOUBLE = 0x7FEFFFFFFFFFFFFF"

subsection \<open>The structures\<close>

record stat_file_header =
  magic :: "8 word list"
  version :: "8 word list"
  create_time :: "64 word"
  revision :: "64 word"
  rev_time :: "64 word"
  used_blocks :: "64 word"
  total_blocks :: "64 word"

record stat_file_section =
  scode :: "64 word"
  slength :: "64 word"

record stat_file_block =
  hash1 :: "32 word"
  hash2 :: "32 word"
  bvalue :: "64 word"

text \<open>Offsets of the header's fields in the mapping.\<close>

definition off_version :: nat where "off_version = 3"
definition off_create_time :: nat where "off_create_time = 8"
definition off_revision :: nat where "off_revision = 16"
definition off_rev_time :: nat where "off_rev_time = 24"
definition off_used_blocks :: nat where "off_used_blocks = 32"
definition off_total_blocks :: nat where "off_total_blocks = 40"

definition rd_section :: "mem \<Rightarrow> nat \<Rightarrow> stat_file_section" where
  "rd_section m a = \<lparr>scode = rd64 m a, slength = rd64 m (a + 8)\<rparr>"

definition wr_section :: "mem \<Rightarrow> nat \<Rightarrow> stat_file_section \<Rightarrow> mem" where
  "wr_section m a s = wr64 (wr64 m a (scode s)) (a + 8) (slength s)"

definition rd_block :: "mem \<Rightarrow> nat \<Rightarrow> stat_file_block" where
  "rd_block m a = \<lparr>hash1 = rd32 m a, hash2 = rd32 m (a + 4), bvalue = rd64 m (a + 8)\<rparr>"

definition wr_block :: "mem \<Rightarrow> nat \<Rightarrow> stat_file_block \<Rightarrow> mem" where
  "wr_block m a b = wr64 (wr32 (wr32 m a (hash1 b)) (a + 4) (hash2 b)) (a + 8) (bvalue b)"

text \<open>
  The header as \<open>write (fd, &header, sizeof (header))\<close> lays it out: the fields at their
  offsets, zero in the padding and in \<open>unused\<close>.
\<close>

definition wr_header :: "mem \<Rightarrow> nat \<Rightarrow> stat_file_header \<Rightarrow> mem" where
  "wr_header m a h =
     (let m0 = wr_zero m a sizeof_stat_file_header;
          m1 = m0(a := magic h ! 0, a + 1 := magic h ! 1, a + 2 := magic h ! 2,
                  a + 3 := version h ! 0, a + 4 := version h ! 1);
          m2 = wr64 m1 (a + off_create_time) (create_time h);
          m3 = wr64 m2 (a + off_revision) (revision h);
          m4 = wr64 m3 (a + off_rev_time) (rev_time h);
          m5 = wr64 m4 (a + off_used_blocks) (used_blocks h)
      in wr64 m5 (a + off_total_blocks) (total_blocks h))"

text \<open>The handle of one open statfile, \<open>rspamd_mmaped_file_t\<close>. \<open>map_ptr\<close> is its field
  \<open>map\<close>, \<open>None\<close> for \<open>NULL\<close>. The mutex is left out.\<close>

record rspamd_mmaped_file_t =
  filename :: string
  fd :: int
  map_ptr :: "mem option"
  seek_pos :: "64 word"
  cur_section :: stat_file_section
  open_time :: "64 word"
  access_time :: "64 word"
  len :: "64 word"

text \<open>The pool, \<open>rspamd_mmaped_file_ctx\<close>: the array \<open>files\<close> with all its slots, those
  from \<open>opened\<close> on being unused.\<close>

record rspamd_mmaped_file_ctx =
  files :: "rspamd_mmaped_file_t list"
  opened :: int
  mlock_ok :: bool

text \<open>A file on disk: its bytes and its size.\<close>

record disk_file =
  contents :: mem
  fsize :: nat

type_synonym filesystem = "string \<rightharpoonup> disk_file"

text \<open>
  What the operating system and the collaborators answer: whether \<open>open\<close>, \<open>write\<close>,
  \<open>rename\<close>, \<open>mmap\<close> and \<open>mlock\<close> succeed (beyond what the file system itself decides),
  the descriptor \<open>open\<close> hands out, the clock, and the legacy migrator
  \<open>convert_statfile_10\<close>, which is not part of this file.
\<close>

record sys_env =
  sys_open_ok :: bool
  sys_write_ok :: bool
  sys_rename_ok :: bool
  sys_mmap_ok :: bool
  sys_mlock_ok :: bool
  sys_fd :: int
  sys_time :: "64 word"
  convert_statfile_10 :: "rspamd_mmaped_file_t \<Rightarrow> rspamd_mmaped_file_t option"

subsection \<open>Validation: \<open>rspamd_mmaped_file_check\<close>\<close>

text \<open>An access of \<open>n\<close> bytes at the signed offset \<open>c\<close> lies inside a mapping of \<open>maplen\<close> bytes.\<close>

definition in_map :: "64 word \<Rightarrow> int \<Rightarrow> nat \<Rightarrow> bool" where
  "in_map maplen c n \<longleftrightarrow> 0 \<le> c \<and> c + int n \<le> uint maplen"

definition rspamd_mmaped_file_check ::
  "sys_env \<Rightarrow> rspamd_mmaped_file_t \<Rightarrow> fault + (int \<times> rspamd_mmaped_file_t)" where
  "rspamd_mmaped_file_check env file =
     (case map_ptr file of
        None \<Rightarrow> Inr (- 1, file)
      | Some m \<Rightarrow>
          if len file < of_nat sizeof_stat_file then Inr (- 1, file)
          else if m 0 \<noteq> 0x72 \<or> m 1 \<noteq> 0x73 \<or> m 2 \<noteq> 0x64 then Inr (- 1, file)
          else
            (case (if m off_version = 1 \<and> m (off_version + 1) = 0
                   then convert_statfile_10 env file
                   else if m off_version \<noteq> 0x31 \<or> m (off_version + 1) \<noteq> 0x32 then None
                   else Some file) of
               None \<Rightarrow> Inr (- 1, file)
             | Some file1 \<Rightarrow>
                 (case map_ptr file1 of
                    None \<Rightarrow> Inl NullDereference
                  | Some f \<Rightarrow>
                      if \<not> in_map (len file1) (int sizeof_stat_file_header) sizeof_stat_file_section
                      then Inl OutOfBounds
                      else
                        let sec = rd_section f sizeof_stat_file_header;
                            file2 = file1\<lparr>cur_section := sec\<rparr>
                        in if slength sec * of_nat sizeof_stat_file_block > len file2
                           then Inr (- 1, file2)
                           else Inr (0, file2\<lparr>seek_pos :=
                                  of_nat (sizeof_stat_file - sizeof_stat_file_block)\<rparr>))))"

subsection \<open>The pool's table: \<open>statfile_pool_is_open\<close>\<close>

text \<open>\<open>lfind\<close> of the C library: the first element of the array the comparison accepts.\<close>

fun lfind :: "('a \<Rightarrow> bool) \<Rightarrow> 'a list \<Rightarrow> nat option" where
  "lfind P [] = None"
| "lfind P (x # xs) = (if P x then Some 0 else map_option Suc (lfind P xs))"

text \<open>\<open>rspamd_strlcpy\<close> into a buffer of \<open>n\<close> bytes keeps at most \<open>n - 1\<close> characters.\<close>

definition rspamd_strlcpy :: "nat \<Rightarrow> string \<Rightarrow> string" where
  "rspamd_strlcpy n src = take (n - 1) src"

text \<open>Modelled from the spec: \<open>cmpstatfile\<close>, the comparison handed to \<open>lfind\<close>, is
  declared outside this file; the spec has \<open>is_open\<close> search the handle array keyed by
  path, so two handles compare equal when their file names are equal.\<close>

definition cmpstatfile :: "string \<Rightarrow> rspamd_mmaped_file_t \<Rightarrow> bool" where
  "cmpstatfile key f \<longleftrightarrow> key = filename f"

definition statfile_pool_is_open :: "rspamd_mmaped_file_ctx \<Rightarrow> string \<Rightarrow> nat option" where
  "statfile_pool_is_open pool fname =
     lfind (cmpstatfile (rspamd_strlcpy PATH_MAX fname)) (take (nat (opened pool)) (files pool))"

subsection \<open>The block table: \<open>statfile_pool_get_block\<close>\<close>

text \<open>
  The loop \<open>for (i = 0; i < CHAIN_LENGTH; i++)\<close> from its \<open>i\<close>-th round on, with \<open>c\<close> the
  offset of \<open>block\<close> in the mapping. \<open>i + blocknum\<close> is a sum of two \<open>guint\<close>, compared
  with the 64-bit section length. The loop ends with \<open>Some v\<close> when it returned
  \<open>block->value\<close> and with \<open>None\<close> when it was left; beside the result it lists the
  offsets of the blocks it has read, in order.
\<close>

function get_block_loop ::
  "mem \<Rightarrow> 64 word \<Rightarrow> 64 word \<Rightarrow> 32 word \<Rightarrow> 32 word \<Rightarrow> 32 word \<Rightarrow> int \<Rightarrow> nat
    \<Rightarrow> fault + (64 word option \<times> int list)" where
  "get_block_loop m maplen seclen blocknum h1 h2 c i =
     (if i < CHAIN_LENGTH then
        if seclen \<le> ucast (of_nat i + blocknum :: 32 word) then Inr (None, [])
        else if \<not> in_map maplen c sizeof_stat_file_block then Inl OutOfBounds
        else
          let block = rd_block m (nat c)
          in if hash1 block = h1 \<and> hash2 block = h2 then Inr (Some (bvalue block), [c])
             else (case get_block_loop m maplen seclen blocknum h1 h2
                          (c + int sizeof_stat_file_block) (Suc i) of
                     Inl e \<Rightarrow> Inl e
                   | Inr (r, ps) \<Rightarrow> Inr (r, c # ps))
      else Inr (None, []))"
  by pat_completeness auto
termination
  by (relation "measure (\<lambda>(m, maplen, seclen, blocknum, h1, h2, c, i). CHAIN_LENGTH - i)") auto

declare get_block_loop.simps [simp del]

text \<open>The offset of the first block of the chain, \<open>seek_pos + blocknum * sizeof (block)\<close>.\<close>

definition chain_start :: "rspamd_mmaped_file_t \<Rightarrow> 32 word \<Rightarrow> int" where
  "chain_start file blocknum =
     sint (seek_pos file) + int (unat blocknum) * int sizeof_stat_file_block"

text \<open>\<open>blocknum = h1 % file->cur_section.length\<close>, stored in a \<open>guint\<close>.\<close>

definition chain_blocknum :: "rspamd_mmaped_file_t \<Rightarrow> 32 word \<Rightarrow> 32 word" where
  "chain_blocknum file h1 = ucast ((ucast h1 :: 64 word) mod slength (cur_section file))"

definition statfile_pool_get_block ::
  "rspamd_mmaped_file_t \<Rightarrow> 32 word \<Rightarrow> 32 word \<Rightarrow> 64 word
    \<Rightarrow> fault + (64 word \<times> rspamd_mmaped_file_t)" where
  "statfile_pool_get_block file0 h1 h2 now =
     (let file = file0\<lparr>access_time := now\<rparr>
      in case map_ptr file of
           None \<Rightarrow> Inr (0, file)
         | Some m \<Rightarrow>
             if slength (cur_section file) = 0 then Inl DivisionByZero
             else
               let blocknum = chain_blocknum file h1
               in (case get_block_loop m (len file) (slength (cur_section file)) blocknum h1 h2
                         (chain_start file blocknum) 0 of
                     Inl e \<Rightarrow> Inl e
                   | Inr (Some v, ps) \<Rightarrow> Inr (v, file)
                   | Inr (None, ps) \<Rightarrow> Inr (0, file)))"

text \<open>The offsets of the blocks a lookup reads.\<close>

definition get_block_probes :: "rspamd_mmaped_file_t \<Rightarrow> 32 word \<Rightarrow> 32 word \<Rightarrow> fault + int list" where
  "get_block_probes file h1 h2 =
     (case map_ptr file of
        None \<Rightarrow> Inr []
      | Some m \<Rightarrow>
          if slength (cur_section file) = 0 then Inl DivisionByZero
          else
            let blocknum = chain_blocknum file h1
            in (case get_block_loop m (len file) (slength (cur_section file)) blocknum h1 h2
                      (chain_start file blocknum) 0 of
                  Inl e \<Rightarrow> Inl e
                | Inr (r, ps) \<Rightarrow> Inr ps))"

subsection \<open>The block table: \<open>statfile_pool_set_block_common\<close>\<close>

text \<open>
  The loop either returns from the function, with the mapping as it has written it, or
  is left with \<open>to_expire\<close>, the offset of the block to give up (\<open>None\<close> for \<open>NULL\<close>).
\<close>

datatype set_exit = Returned mem | ChainEnd "int option"

function set_block_loop ::
  "mem \<Rightarrow> 64 word \<Rightarrow> 64 word \<Rightarrow> 32 word \<Rightarrow> 32 word \<Rightarrow> 32 word \<Rightarrow> 64 word \<Rightarrow> int
    \<Rightarrow> int option \<Rightarrow> 64 word \<Rightarrow> nat \<Rightarrow> fault + (set_exit \<times> int list)" where
  "set_block_loop m maplen seclen blocknum h1 h2 v c to_expire mn i =
     (if i < CHAIN_LENGTH then
        if seclen \<le> ucast (of_nat i + blocknum :: 32 word) then Inr (ChainEnd to_expire, [])
        else if \<not> in_map maplen c sizeof_stat_file_block then Inl OutOfBounds
        else
          let block = rd_block m (nat c)
          in if hash1 block = h1 \<and> hash2 block = h2
             then Inr (Returned (wr64 m (nat c + 8) v), [c])
             else if hash1 block = 0 \<and> hash2 block = 0
             then
               if \<not> in_map maplen (int off_used_blocks) 8 then Inl OutOfBounds
               else
                 let m1 = wr_block m (nat c) \<lparr>hash1 = h1, hash2 = h2, bvalue = v\<rparr>;
                     m2 = wr64 m1 off_used_blocks (rd64 m1 off_used_blocks + 1)
                 in Inr (Returned m2, [c])
             else
               (case set_block_loop m maplen seclen blocknum h1 h2 v
                       (c + int sizeof_stat_file_block)
                       (if dbl_less (bvalue block) mn then Some c else to_expire)
                       (if dbl_less (bvalue block) mn then bvalue block else mn)
                       (Suc i) of
                  Inl e \<Rightarrow> Inl e
                | Inr (r, ps) \<Rightarrow> Inr (r, c # ps))
      else Inr (ChainEnd to_expire, []))"
  by pat_completeness auto
termination
  by (relation "measure (\<lambda>(m, maplen, seclen, blocknum, h1, h2, v, c, to_expire, mn, i).
        CHAIN_LENGTH - i)") auto

declare set_block_loop.simps [simp del]

definition statfile_pool_set_block_common ::
  "rspamd_mmaped_file_t \<Rightarrow> 32 word \<Rightarrow> 32 word \<Rightarrow> 64 word \<Rightarrow> 64 word \<Rightarrow> bool
    \<Rightarrow> fault + rspamd_mmaped_file_t" where
  "statfile_pool_set_block_common file0 h1 h2 t v from_now =
     (let file = (if from_now then file0\<lparr>access_time := t\<rparr> else file0)
      in case map_ptr file of
           None \<Rightarrow> Inr file
         | Some m \<Rightarrow>
             if slength (cur_section file) = 0 then Inl DivisionByZero
             else
               let blocknum = chain_blocknum file h1
               in (case set_block_loop m (len file) (slength (cur_section file)) blocknum h1 h2 v
                         (chain_start file blocknum) None G_MAXDOUBLE 0 of
                     Inl e \<Rightarrow> Inl e
                   | Inr (Returned m', ps) \<Rightarrow> Inr (file\<lparr>map_ptr := Some m'\<rparr>)
                   | Inr (ChainEnd to_expire, ps) \<Rightarrow>
                       let c = (case to_expire of
                                  Some e \<Rightarrow> e
                                | None \<Rightarrow> chain_start file blocknum)
                       in if \<not> in_map (len file) c sizeof_stat_file_block then Inl OutOfBounds
                          else Inr (file\<lparr>map_ptr := Some
                                 (wr_block m (nat c) \<lparr>hash1 = h1, hash2 = h2, bvalue = v\<rparr>)\<rparr>)))"

definition statfile_pool_set_block ::
  "rspamd_mmaped_file_t \<Rightarrow> 32 word \<Rightarrow> 32 word \<Rightarrow> 64 word \<Rightarrow> 64 word
    \<Rightarrow> fault + rspamd_mmaped_file_t" where
  "statfile_pool_set_block file h1 h2 now v = statfile_pool_set_block_common file h1 h2 now v True"


subsection \<open>Revision and block counters of the header\<close>

definition statfile_set_revision ::
  "rspamd_mmaped_file_t option \<Rightarrow> 64 word \<Rightarrow> 64 word
    \<Rightarrow> fault + (bool \<times> rspamd_mmaped_file_t option)" where
  "statfile_set_revision file rev_no time =
     (case file of
        None \<Rightarrow> Inr (False, None)
      | Some f \<Rightarrow>
          (case map_ptr f of
             None \<Rightarrow> Inr (False, file)
           | Some m \<Rightarrow>
               if \<not> in_map (len f) (int off_revision) 16 then Inl OutOfBounds
               else Inr (True,
                      Some (f\<lparr>map_ptr := Some (wr64 (wr64 m off_revision rev_no) off_rev_time time)\<rparr>))))"

definition statfile_get_total_blocks ::
  "rspamd_mmaped_file_t option \<Rightarrow> fault + (64 word \<times> rspamd_mmaped_file_t option)" where
  "statfile_get_total_blocks file =
     (case file of
        None \<Rightarrow> Inr (- 1, None)
      | Some f \<Rightarrow>
          (case map_ptr f of
             None \<Rightarrow> Inr (- 1, file)
           | Some m \<Rightarrow>
               if \<not> in_map (len f) (int off_total_blocks) 8 then Inl OutOfBounds
               else
                 let m' = (if rd64 m off_total_blocks = 0
                           then wr64 m off_total_blocks (slength (cur_section f))
                           else m)
                 in Inr (rd64 m' off_total_blocks, Some (f\<lparr>map_ptr := Some m'\<rparr>))))"

subsection \<open>Sections: \<open>statfile_pool_set_section\<close>\<close>

text \<open>
  The loop \<open>while (cur_offset < (off_t)file->len)\<close>. \<open>cur_offset\<close> is an \<open>off_t\<close>: the
  comparison is signed and \<open>cur_offset += sec->length\<close> wraps. Nothing bounds the number
  of rounds (a section header of length 0 that does not match is read again and again),
  so the loop takes fuel, and \<open>None\<close> says that the fuel did not suffice.
\<close>

fun set_section_loop ::
  "nat \<Rightarrow> mem \<Rightarrow> 64 word \<Rightarrow> 32 word \<Rightarrow> 64 word
    \<Rightarrow> (fault + (64 word \<times> stat_file_section) option) option" where
  "set_section_loop 0 m flen code cur_offset = None"
| "set_section_loop (Suc n) m flen code cur_offset =
     (if sint cur_offset < sint flen then
        if \<not> in_map flen (sint cur_offset) sizeof_stat_file_section then Some (Inl OutOfBounds)
        else
          let sec = rd_section m (nat (sint cur_offset))
          in if scode sec = ucast code then Some (Inr (Some (cur_offset, sec)))
             else set_section_loop n m flen code (cur_offset + slength sec)
      else Some (Inr None))"

definition statfile_pool_set_section ::
  "nat \<Rightarrow> rspamd_mmaped_file_t \<Rightarrow> 32 word \<Rightarrow> bool
    \<Rightarrow> (fault + (bool \<times> rspamd_mmaped_file_t)) option" where
  "statfile_pool_set_section fuel file code from_begin =
     (let cur_offset = (if from_begin then of_nat sizeof_stat_file_header
                        else seek_pos file - of_nat sizeof_stat_file_section)
      in case map_ptr file of
           None \<Rightarrow>
             if sint cur_offset < sint (len file) then Some (Inl NullDereference)
             else Some (Inr (False, file))
         | Some m \<Rightarrow>
             (case set_section_loop fuel m (len file) code cur_offset of
                None \<Rightarrow> None
              | Some (Inl e) \<Rightarrow> Some (Inl e)
              | Some (Inr None) \<Rightarrow> Some (Inr (False, file))
              | Some (Inr (Some (off, sec))) \<Rightarrow>
                  Some (Inr (True,
                    file\<lparr>cur_section := \<lparr>scode = ucast code, slength = slength sec\<rparr>,
                         seek_pos := off + of_nat sizeof_stat_file_section\<rparr>))))"

subsection \<open>Creating a statfile: \<open>statfile_pool_create\<close>\<close>

text \<open>\<open>write\<close> of \<open>n\<close> zero bytes at position \<open>pos\<close> of a file.\<close>

definition file_write_zero :: "disk_file \<Rightarrow> nat \<Rightarrow> nat \<Rightarrow> disk_file" where
  "file_write_zero f pos n =
     f\<lparr>contents := wr_zero (contents f) pos n, fsize := max (fsize f) (pos + n)\<rparr>"

text \<open>Modelled from the spec: \<open>rspamd_fallocate\<close> is defined outside this file; create
  "preallocates with fallocate-equivalent", so the file grows to the given extent, the
  new bytes being zero.\<close>

definition rspamd_fallocate :: "disk_file \<Rightarrow> nat \<Rightarrow> nat \<Rightarrow> disk_file" where
  "rspamd_fallocate f offset n =
     f\<lparr>contents := (\<lambda>x. if x < fsize f then contents f x else 0),
       fsize := max (fsize f) (offset + n)\<rparr>"

text \<open>
  The loop \<open>while (nblocks)\<close> that writes the empty blocks, 256 at once while more than
  256 are left; \<open>nblocks\<close> is a \<open>guint\<close>. The result tells whether every \<open>write\<close> went
  through.
\<close>

function create_blocks_loop :: "sys_env \<Rightarrow> disk_file \<Rightarrow> nat \<Rightarrow> 32 word \<Rightarrow> bool \<times> disk_file" where
  "create_blocks_loop env f pos nblocks =
     (if nblocks \<noteq> 0 then
        if nblocks > 256 then
          if \<not> sys_write_ok env then (False, f)
          else create_blocks_loop env (file_write_zero f pos (sizeof_stat_file_block * 256))
                 (pos + sizeof_stat_file_block * 256) (nblocks - 256)
        else
          if \<not> sys_write_ok env then (False, f)
          else create_blocks_loop env (file_write_zero f pos sizeof_stat_file_block)
                 (pos + sizeof_stat_file_block) (nblocks - 1)
      else (True, f))"
  by pat_completeness auto
termination
proof (relation "measure (\<lambda>(env, f, pos, nblocks). unat nblocks)")
  show "wf (measure (\<lambda>(env, f, pos, nblocks). unat nblocks))" by simp
next
  fix env :: sys_env and f :: disk_file and pos :: nat and nblocks :: "32 word"
  assume "256 < nblocks"
  then have "unat (nblocks - 256) < unat nblocks"
    by unat_arith
  then show "((env, file_write_zero f pos (sizeof_stat_file_block * 256),
               pos + sizeof_stat_file_block * 256, nblocks - 256), env, f, pos, nblocks)
             \<in> measure (\<lambda>(env, f, pos, nblocks). unat nblocks)"
    by simp
next
  fix env :: sys_env and f :: disk_file and pos :: nat and nblocks :: "32 word"
  assume "nblocks \<noteq> 0"
  then have "unat (nblocks - 1) < unat nblocks"
    by unat_arith
  then show "((env, file_write_zero f pos sizeof_stat_file_block,
               pos + sizeof_stat_file_block, nblocks - 1), env, f, pos, nblocks)
             \<in> measure (\<lambda>(env, f, pos, nblocks). unat nblocks)"
    by simp
qed

declare create_blocks_loop.simps [simp del]

definition statfile_pool_create ::
  "sys_env \<Rightarrow> rspamd_mmaped_file_ctx \<Rightarrow> filesystem \<Rightarrow> string \<Rightarrow> 64 word \<Rightarrow> int \<times> filesystem" where
  "statfile_pool_create env pool fs fname sz =
     (if statfile_pool_is_open pool fname \<noteq> None then (0, fs)
      else if sz < of_nat (sizeof_stat_file_header + sizeof_stat_file_section
                               + sizeof_stat_file_block)
      then (- 1, fs)
      else
        let nblocks = (ucast ((sz - of_nat sizeof_stat_file_header
                                 - of_nat sizeof_stat_file_section)
                               div of_nat sizeof_stat_file_block) :: 32 word);
            header = \<lparr>magic = [0x72, 0x73, 0x64], version = [0x31, 0x32], create_time = 0,
                      revision = 0, rev_time = 0, used_blocks = 0,
                      total_blocks = ucast nblocks\<rparr>
        in if \<not> sys_open_ok env then (- 1, fs)
           else
             let f0 = \<lparr>contents = (\<lambda>x. 0), fsize = 0\<rparr>;
                 f1 = rspamd_fallocate f0 0
                        (sizeof_stat_file_header + sizeof_stat_file_section
                          + sizeof_stat_file_block * unat nblocks);
                 header1 = header\<lparr>create_time := sys_time env\<rparr>
             in if \<not> sys_write_ok env then (- 1, fs(fname \<mapsto> f1))
                else
                  let f2 = f1\<lparr>contents := wr_header (contents f1) 0 header1,
                              fsize := max (fsize f1) sizeof_stat_file_header\<rparr>;
                      section = \<lparr>scode = STATFILE_SECTION_COMMON, slength = ucast nblocks\<rparr>
                  in if \<not> sys_write_ok env then (- 1, fs(fname \<mapsto> f2))
                     else
                       let f3 = f2\<lparr>contents :=
                                      wr_section (contents f2) sizeof_stat_file_header section,
                                   fsize := max (fsize f2)
                                      (sizeof_stat_file_header + sizeof_stat_file_section)\<rparr>
                       in (case create_blocks_loop env f3
                                  (sizeof_stat_file_header + sizeof_stat_file_section) nblocks of
                             (ok, f4) \<Rightarrow>
                               if ok then (0, fs(fname \<mapsto> f4)) else (- 1, fs(fname \<mapsto> f4))))"

subsection \<open>Opening and reindexing: \<open>statfile_pool_open\<close>, \<open>rspamd_mmaped_file_reindex\<close>\<close>

text \<open>\<open>bzero (new_file, sizeof (rspamd_mmaped_file_t))\<close>.\<close>

definition zero_file :: rspamd_mmaped_file_t where
  "zero_file = \<lparr>filename = [], fd = 0, map_ptr = None, seek_pos = 0,
     cur_section = \<lparr>scode = 0, slength = 0\<rparr>, open_time = 0, access_time = 0, len = 0\<rparr>"

text \<open>\<open>labs\<close> on a \<open>long\<close>; it is undefined on \<open>LONG_MIN\<close>.\<close>

definition labs :: "64 word \<Rightarrow> fault + 64 word" where
  "labs x = (if x = 0x8000000000000000 then Inl SignedOverflow
             else Inr (if sint x < 0 then - x else x))"

text \<open>
  \<open>statfile_pool_open\<close> from \<open>new_file = &pool->files[pool->opened++]\<close> on: the file
  \<open>df\<close>, which \<open>stat\<close> has found, is opened, mapped at its size on disk and checked.
  A slot given back by \<open>pool->opened--\<close> keeps what was written to it; a handle is
  returned as its index in \<open>files\<close>.
\<close>

definition statfile_pool_open_map ::
  "sys_env \<Rightarrow> rspamd_mmaped_file_ctx \<Rightarrow> filesystem \<Rightarrow> string \<Rightarrow> disk_file
    \<Rightarrow> fault + (nat option \<times> rspamd_mmaped_file_ctx \<times> filesystem)" where
  "statfile_pool_open_map env pool fs fname df =
     (let st_size = (of_nat (fsize df) :: 64 word)
      in if \<not> (0 \<le> opened pool \<and> nat (opened pool) < length (files pool)) then Inl OutOfBounds
         else
           let idx = nat (opened pool);
               pool1 = pool\<lparr>opened := opened pool + 1\<rparr>
           in if \<not> sys_open_ok env
              then Inr (None, pool1\<lparr>files := (files pool1)[idx := zero_file\<lparr>fd := - 1\<rparr>],
                                    opened := opened pool1 - 1\<rparr>, fs)
              else if \<not> sys_mmap_ok env
              then Inr (None, pool1\<lparr>files := (files pool1)[idx := zero_file\<lparr>fd := sys_fd env\<rparr>],
                                    opened := opened pool1 - 1\<rparr>, fs)
              else
                let new_file = zero_file\<lparr>fd := sys_fd env, map_ptr := Some (contents df),
                                 filename := rspamd_strlcpy PATH_MAX fname, len := st_size\<rparr>;
                    pool2 = (if mlock_ok pool1 \<and> \<not> sys_mlock_ok env
                             then pool1\<lparr>mlock_ok := False\<rparr> else pool1)
                in (case rspamd_mmaped_file_check env new_file of
                      Inl e \<Rightarrow> Inl e
                    | Inr (r, new_file1) \<Rightarrow>
                        if r = - 1
                        then Inr (None, pool2\<lparr>files := (files pool2)[idx := new_file1],
                                              opened := opened pool2 - 1\<rparr>, fs)
                        else
                          let new_file2 = new_file1\<lparr>open_time := sys_time env,
                                            access_time := sys_time env\<rparr>;
                              pool3 = pool2\<lparr>files := (files pool2)[idx := new_file2]\<rparr>
                          in Inr (statfile_pool_is_open pool3 fname, pool3, fs)))"

text \<open>
  \<open>statfile_pool_open\<close> and \<open>rspamd_mmaped_file_reindex\<close> call each other. The open
  inside reindex is forced and a forced open never reaches the call of reindex, so the
  body of open takes the reindex function as its first argument: reindex hands it
  \<open>no_reindex\<close>, \<open>statfile_pool_open\<close> hands it \<open>rspamd_mmaped_file_reindex\<close>.
\<close>

definition statfile_pool_open_with ::
  "(rspamd_mmaped_file_ctx \<Rightarrow> filesystem \<Rightarrow> string \<Rightarrow> 64 word \<Rightarrow> 64 word
      \<Rightarrow> fault + (nat option \<times> rspamd_mmaped_file_ctx \<times> filesystem))
    \<Rightarrow> sys_env \<Rightarrow> rspamd_mmaped_file_ctx \<Rightarrow> filesystem \<Rightarrow> string \<Rightarrow> 64 word \<Rightarrow> bool
    \<Rightarrow> fault + (nat option \<times> rspamd_mmaped_file_ctx \<times> filesystem)" where
  "statfile_pool_open_with reindex env pool fs fname sz forced =
     (case statfile_pool_is_open pool fname of
        Some i \<Rightarrow> Inr (Some i, pool, fs)
      | None \<Rightarrow>
          if opened pool \<ge> STATFILES_MAX - 1 then Inr (None, pool, fs)
          else
            (case fs fname of
               None \<Rightarrow> Inr (None, pool, fs)
             | Some df \<Rightarrow>
                 let st_size = (of_nat (fsize df) :: 64 word)
                 in (case (if forced then Inr False
                           else (case labs (sz - st_size) of
                                   Inl e \<Rightarrow> Inl e
                                 | Inr d \<Rightarrow> Inr (sint d > int sizeof_stat_file * 2
                                                 \<and> sz > of_nat sizeof_stat_file))) of
                       Inl e \<Rightarrow> Inl e
                     | Inr True \<Rightarrow> reindex pool fs fname st_size sz
                     | Inr False \<Rightarrow> statfile_pool_open_map env pool fs fname df)))"

definition no_reindex ::
  "rspamd_mmaped_file_ctx \<Rightarrow> filesystem \<Rightarrow> string \<Rightarrow> 64 word \<Rightarrow> 64 word
    \<Rightarrow> fault + (nat option \<times> rspamd_mmaped_file_ctx \<times> filesystem)" where
  "no_reindex pool fs fname old_size sz = Inr (None, pool, fs)"

text \<open>
  The copying loop of reindex, \<open>while (old_size - (pos - map) >= sizeof (struct
  stat_file_block))\<close>, with \<open>pos\<close> as an offset into the mapping of the backup. It ends
  with \<open>pos += sizeof (block)\<close>, where \<open>block\<close> is the pointer.
\<close>

function reindex_loop ::
  "mem \<Rightarrow> 64 word \<Rightarrow> nat \<Rightarrow> rspamd_mmaped_file_t \<Rightarrow> fault + rspamd_mmaped_file_t" where
  "reindex_loop bmap old_size pos new =
     (if of_nat sizeof_stat_file_block \<le> old_size - of_nat pos then
        if \<not> in_map old_size (int pos) sizeof_stat_file_block then Inl OutOfBounds
        else
          let block = rd_block bmap pos
          in (case (if hash1 block \<noteq> 0 \<and> dbl_neq (bvalue block) 0
                    then statfile_pool_set_block_common new (hash1 block) (hash2 block) 0
                           (bvalue block) False
                    else Inr new) of
                Inl e \<Rightarrow> Inl e
              | Inr new' \<Rightarrow> reindex_loop bmap old_size (pos + sizeof_pointer) new')
      else Inr new)"
  by pat_completeness auto
termination
proof (relation "measure (\<lambda>(bmap, old_size, pos, new). unat old_size - pos)")
  show "wf (measure (\<lambda>(bmap, old_size, pos, new). unat old_size - pos))" by simp
next
  fix bmap :: mem and old_size :: "64 word" and pos :: nat
    and new x2 :: rspamd_mmaped_file_t and x :: stat_file_block
  assume "\<not> \<not> in_map old_size (int pos) sizeof_stat_file_block"
  then have "int pos + 16 \<le> int (unat old_size)"
    by (simp add: in_map_def sizeof_stat_file_block_def)
  then have "unat old_size - (pos + 8) < unat old_size - pos"
    by linarith
  then show "((bmap, old_size, pos + sizeof_pointer, x2), bmap, old_size, pos, new)
             \<in> measure (\<lambda>(bmap, old_size, pos, new). unat old_size - pos)"
    by (simp add: sizeof_pointer_def)
qed

declare reindex_loop.simps [simp del]

definition rspamd_mmaped_file_reindex ::
  "sys_env \<Rightarrow> rspamd_mmaped_file_ctx \<Rightarrow> filesystem \<Rightarrow> string \<Rightarrow> 64 word \<Rightarrow> 64 word
    \<Rightarrow> fault + (nat option \<times> rspamd_mmaped_file_ctx \<times> filesystem)" where
  "rspamd_mmaped_file_reindex env pool fs fname old_size sz =
     (if sz < of_nat (sizeof_stat_file_header + sizeof_stat_file_section + sizeof_pointer)
      then Inr (None, pool, fs)
      else
        let backup = fname @ ''.old''
        in (case (if sys_rename_ok env then fs fname else None) of
              None \<Rightarrow> Inr (None, pool, fs)
            | Some old \<Rightarrow>
                let fs1 = fs(fname := None, backup \<mapsto> old)
                in (case statfile_pool_create env pool fs1 fname sz of
                      (r, fs2) \<Rightarrow>
                        if r \<noteq> 0 then Inr (None, pool, fs2)
                        else
                          (case statfile_pool_open_with no_reindex env pool fs2 fname sz True of
                             Inl e \<Rightarrow> Inl e
                           | Inr (new, pool1, fs3) \<Rightarrow>
                               (case (if sys_open_ok env then fs3 backup else None, new) of
                                  (Some bf, Some idx) \<Rightarrow>
                                    if \<not> sys_mmap_ok env then Inr (None, pool1, fs3)
                                    else
                                      let bmap = contents bf
                                      in (case reindex_loop bmap old_size
                                                (sizeof_stat_file - sizeof_stat_file_block)
                                                (files pool1 ! idx) of
                                            Inl e \<Rightarrow> Inl e
                                          | Inr new1 \<Rightarrow>
                                              if \<not> in_map old_size (int off_revision) 16
                                              then Inl OutOfBounds
                                              else
                                                (case statfile_set_revision (Some new1)
                                                        (rd64 bmap off_revision)
                                                        (rd64 bmap off_rev_time) of
                                                   Inl e \<Rightarrow> Inl e
                                                 | Inr (ok, new2) \<Rightarrow>
                                                     Inr (new,
                                                       pool1\<lparr>files := (files pool1)
                                                         [idx := (case new2 of Some f \<Rightarrow> f
                                                                  | None \<Rightarrow> new1)]\<rparr>,
                                                       fs3(backup := None))))
                                | _ \<Rightarrow> Inr (None, pool1, fs3))))))"

definition statfile_pool_open ::
  "sys_env \<Rightarrow> rspamd_mmaped_file_ctx \<Rightarrow> filesystem \<Rightarrow> string \<Rightarrow> 64 word \<Rightarrow> bool
    \<Rightarrow> fault + (nat option \<times> rspamd_mmaped_file_ctx \<times> filesystem)" where
  "statfile_pool_open env pool fs fname sz forced =
     statfile_pool_open_with (rspamd_mmaped_file_reindex env) env pool fs fname sz forced"

subsection \<open>Chains as lists\<close>

text \<open>
  For the proofs, the two loops over a chain are restated over the list of the offsets
  they visit. \<open>get_chain\<close> and \<open>set_chain\<close> do on that list what \<open>get_block_loop\<close> and
  \<open>set_block_loop\<close> do with their counters; \<open>get_block_loop_chain\<close> and
  \<open>set_block_loop_chain\<close> below prove them equal.
\<close>

definition block_matches :: "stat_file_block \<Rightarrow> 32 word \<Rightarrow> 32 word \<Rightarrow> bool" where
  "block_matches b h1 h2 \<longleftrightarrow> hash1 b = h1 \<and> hash2 b = h2"

definition block_free :: "stat_file_block \<Rightarrow> bool" where
  "block_free b \<longleftrightarrow> hash1 b = 0 \<and> hash2 b = 0"

definition new_block :: "32 word \<Rightarrow> 32 word \<Rightarrow> 64 word \<Rightarrow> stat_file_block" where
  "new_block h1 h2 v = \<lparr>hash1 = h1, hash2 = h2, bvalue = v\<rparr>"

fun get_chain :: "mem \<Rightarrow> 32 word \<Rightarrow> 32 word \<Rightarrow> int list \<Rightarrow> 64 word option \<times> int list" where
  "get_chain m h1 h2 [] = (None, [])"
| "get_chain m h1 h2 (c # cs) =
     (if block_matches (rd_block m (nat c)) h1 h2 then (Some (bvalue (rd_block m (nat c))), [c])
      else (case get_chain m h1 h2 cs of (r, ps) \<Rightarrow> (r, c # ps)))"

fun set_chain ::
  "mem \<Rightarrow> 32 word \<Rightarrow> 32 word \<Rightarrow> 64 word \<Rightarrow> int list \<Rightarrow> int option \<Rightarrow> 64 word
    \<Rightarrow> set_exit \<times> int list" where
  "set_chain m h1 h2 v [] to_expire mn = (ChainEnd to_expire, [])"
| "set_chain m h1 h2 v (c # cs) to_expire mn =
     (if block_matches (rd_block m (nat c)) h1 h2 then (Returned (wr64 m (nat c + 8) v), [c])
      else if block_free (rd_block m (nat c))
      then (Returned (wr64 (wr_block m (nat c) \<lparr>hash1 = h1, hash2 = h2, bvalue = v\<rparr>) off_used_blocks
              (rd64 (wr_block m (nat c) \<lparr>hash1 = h1, hash2 = h2, bvalue = v\<rparr>) off_used_blocks + 1)),
            [c])
      else (case set_chain m h1 h2 v cs
                  (if dbl_less (bvalue (rd_block m (nat c))) mn then Some c else to_expire)
                  (if dbl_less (bvalue (rd_block m (nat c))) mn then bvalue (rd_block m (nat c)) else mn) of
              (r, ps) \<Rightarrow> (r, c # ps)))"

text \<open>The offset of block \<open>j\<close> of a section whose blocks start at \<open>base\<close>.\<close>

definition chain_off :: "int \<Rightarrow> nat \<Rightarrow> int" where
  "chain_off base j = base + int j * int sizeof_stat_file_block"

text \<open>The offsets of the blocks \<open>slot0 + i, slot0 + i + 1, ...\<close> of a chain that starts at
  block \<open>slot0\<close> of a section of \<open>L\<close> blocks: at most \<open>CHAIN_LENGTH\<close> blocks from \<open>slot0\<close>,
  and none from block \<open>L\<close> on.\<close>

definition chain_offsets :: "int \<Rightarrow> nat \<Rightarrow> nat \<Rightarrow> nat \<Rightarrow> int list" where
  "chain_offsets base slot0 L i =
     map (chain_off base) [slot0 + i..<slot0 + min CHAIN_LENGTH (L - slot0)]"

text \<open>Offsets in ascending order, a block apart at least, all behind the header's
  \<open>used_blocks\<close>.\<close>

fun chain_sep :: "int list \<Rightarrow> bool" where
  "chain_sep [] \<longleftrightarrow> True"
| "chain_sep (c # cs) \<longleftrightarrow>
     int off_used_blocks + 8 \<le> c \<and> (\<forall>c'\<in>set cs. c + int sizeof_stat_file_block \<le> c') \<and> chain_sep cs"

text \<open>
  An open statfile as \<open>statfile_pool_open\<close> leaves it: mapped, its current section not
  empty, the blocks of the section behind the header and inside the mapping (the
  invariant \<open>seek_pos + length * 16 \<le> map_len\<close> of the handle). The number of blocks
  fits a \<open>guint\<close>, as the \<open>nblocks\<close> of \<open>statfile_pool_create\<close> does.
\<close>

definition file_ok :: "rspamd_mmaped_file_t \<Rightarrow> bool" where
  "file_ok file \<longleftrightarrow>
     map_ptr file \<noteq> None \<and>
     0 < unat (slength (cur_section file)) \<and>
     unat (slength (cur_section file)) < 2 ^ 32 \<and>
     int sizeof_stat_file_header \<le> sint (seek_pos file) \<and>
     sint (seek_pos file) + int (unat (slength (cur_section file))) * int sizeof_stat_file_block
       \<le> uint (len file)"

text \<open>The offsets of the chain of the key \<open>h1\<close> in a file.\<close>

definition file_chain :: "rspamd_mmaped_file_t \<Rightarrow> 32 word \<Rightarrow> int list" where
  "file_chain file h1 = chain_offsets (sint (seek_pos file)) (unat (chain_blocknum file h1))
      (unat (slength (cur_section file))) 0"

text \<open>\<open>if (from_now) file->access_time = t\<close>.\<close>

definition touch :: "rspamd_mmaped_file_t \<Rightarrow> 64 word \<Rightarrow> bool \<Rightarrow> rspamd_mmaped_file_t" where
  "touch file t from_now = (if from_now then file\<lparr>access_time := t\<rparr> else file)"

text \<open>The block an insertion gives up when its loop was left with \<open>to_expire\<close>: that
  block, or the first of the chain for \<open>NULL\<close>.\<close>

definition expired :: "int option \<Rightarrow> int list \<Rightarrow> int" where
  "expired to_expire cs = (case to_expire of Some e \<Rightarrow> e | None \<Rightarrow> hd cs)"

text \<open>The mapping after an insertion into the chain \<open>cs\<close>.\<close>

definition set_chain_result :: "mem \<Rightarrow> 32 word \<Rightarrow> 32 word \<Rightarrow> 64 word \<Rightarrow> int list \<Rightarrow> mem" where
  "set_chain_result m h1 h2 v cs =
     (case fst (set_chain m h1 h2 v cs None G_MAXDOUBLE) of
        Returned m' \<Rightarrow> m'
      | ChainEnd to_expire \<Rightarrow> wr_block m (nat (expired to_expire cs)) (new_block h1 h2 v))"


subsection \<open>Sample statfiles\<close>

text \<open>A mapped statfile of four empty blocks: 288 bytes of header, 16 of section
  header, 64 of blocks.\<close>

definition demo_file :: rspamd_mmaped_file_t where
  "demo_file = \<lparr>filename = ''statfile'', fd = 3, map_ptr = Some (\<lambda>x. 0), seek_pos = 304,
     cur_section = \<lparr>scode = 1, slength = 4\<rparr>, open_time = 0, access_time = 0, len = 368\<rparr>"

text \<open>Every block of the chain is taken by a key other than \<open>(h1, h2)\<close>.\<close>

definition chain_full :: "mem \<Rightarrow> 32 word \<Rightarrow> 32 word \<Rightarrow> int list \<Rightarrow> bool" where
  "chain_full m h1 h2 cs \<longleftrightarrow>
     (\<forall>c\<in>set cs. \<not> block_matches (rd_block m (nat c)) h1 h2 \<and> \<not> block_free (rd_block m (nat c)))"

text \<open>The value of the block at an offset.\<close>

definition value_at :: "mem \<Rightarrow> int \<Rightarrow> 64 word" where
  "value_at m c = bvalue (rd_block m (nat c))"

text \<open>What the loop of an insertion keeps in \<open>to_expire\<close> over a chain in which it
  neither finds the key nor a free block.\<close>

fun min_slot :: "mem \<Rightarrow> int list \<Rightarrow> int option \<Rightarrow> 64 word \<Rightarrow> int option" where
  "min_slot m [] to_expire mn = to_expire"
| "min_slot m (c # cs) to_expire mn =
     (if dbl_less (value_at m c) mn then min_slot m cs (Some c) (value_at m c)
      else min_slot m cs to_expire mn)"

text \<open>The block a full chain gives up: the one kept in \<open>to_expire\<close>, or the first of the
  chain.\<close>

definition evicted :: "mem \<Rightarrow> int list \<Rightarrow> int" where
  "evicted m cs = expired (min_slot m cs None G_MAXDOUBLE) cs"

text \<open>Some block of the chain holds the key.\<close>

definition key_in_chain :: "mem \<Rightarrow> int list \<Rightarrow> 32 word \<Rightarrow> 32 word \<Rightarrow> bool" where
  "key_in_chain m cs h1 h2 \<longleftrightarrow> (\<exists>c\<in>set cs. block_matches (rd_block m (nat c)) h1 h2)"

text \<open>No block of the chain but the one at \<open>e\<close> holds the key of the block at \<open>e\<close>.\<close>

definition key_only_at :: "mem \<Rightarrow> int list \<Rightarrow> int \<Rightarrow> bool" where
  "key_only_at m cs e \<longleftrightarrow>
     (\<forall>c\<in>set cs. c \<noteq> e \<longrightarrow>
        \<not> block_matches (rd_block m (nat c)) (hash1 (rd_block m (nat e))) (hash2 (rd_block m (nat e))))"

text \<open>A section of two blocks, both taken: the keys \<open>(4, 1)\<close> with the value 3.0 and
  \<open>(6, 1)\<close> with 2.0.\<close>

definition full_map :: mem where
  "full_map = wr_block (wr_block (\<lambda>x. 0) 304 \<lparr>hash1 = 4, hash2 = 1, bvalue = 0x4008000000000000\<rparr>)
                 320 \<lparr>hash1 = 6, hash2 = 1, bvalue = 0x4000000000000000\<rparr>"

definition full_file :: rspamd_mmaped_file_t where
  "full_file = \<lparr>filename = ''statfile'', fd = 3, map_ptr = Some full_map, seek_pos = 304,
     cur_section = \<lparr>scode = 1, slength = 2\<rparr>, open_time = 0, access_time = 0, len = 336\<rparr>"

text \<open>A mapped statfile of two empty blocks.\<close>

definition empty2_file :: rspamd_mmaped_file_t where
  "empty2_file = \<lparr>filename = ''statfile'', fd = 3, map_ptr = Some (\<lambda>x. 0), seek_pos = 304,
     cur_section = \<lparr>scode = 1, slength = 2\<rparr>, open_time = 0, access_time = 0, len = 336\<rparr>"

definition dbl_infinity :: "64 word" where
  "dbl_infinity = 0x7FF0000000000000"

text \<open>The same file after the keys \<open>(4, 1)\<close> with the value \<open>+infinity\<close> and \<open>(6, 1)\<close>
  with \<open>G_MAXDOUBLE\<close> have been inserted, in this order: both blocks are taken,
  \<open>used_blocks\<close> is 2.\<close>

definition inf_map :: mem where
  "inf_map = wr64 (wr_block (wr64 (wr_block (\<lambda>x. 0) 304 (new_block 4 1 dbl_infinity)) 32 1)
                 320 (new_block 6 1 G_MAXDOUBLE)) 32 2"

definition inf_file :: rspamd_mmaped_file_t where
  "inf_file = empty2_file\<lparr>map_ptr := Some inf_map\<rparr>"

text \<open>A handle that is not mapped.\<close>

definition unmapped_file :: rspamd_mmaped_file_t where
  "unmapped_file = zero_file\<lparr>filename := ''statfile''\<rparr>"

text \<open>The number of blocks \<open>statfile_pool_create\<close> computes for a size.\<close>

definition create_nblocks :: "64 word \<Rightarrow> 32 word" where
  "create_nblocks sz =
     ucast ((sz - of_nat sizeof_stat_file_header - of_nat sizeof_stat_file_section)
              div of_nat sizeof_stat_file_block)"

text \<open>The header and the section header \<open>statfile_pool_create\<close> writes.\<close>

definition created_header :: "sys_env \<Rightarrow> 64 word \<Rightarrow> stat_file_header" where
  "created_header env sz = \<lparr>magic = [0x72, 0x73, 0x64], version = [0x31, 0x32],
     create_time = sys_time env, revision = 0, rev_time = 0, used_blocks = 0,
     total_blocks = ucast (create_nblocks sz)\<rparr>"

definition created_section :: "64 word \<Rightarrow> stat_file_section" where
  "created_section sz = \<lparr>scode = STATFILE_SECTION_COMMON, slength = ucast (create_nblocks sz)\<rparr>"

text \<open>The file \<open>statfile_pool_create\<close> leaves when every call goes through.\<close>

definition created_file :: "sys_env \<Rightarrow> 64 word \<Rightarrow> disk_file" where
  "created_file env sz =
     \<lparr>contents = wr_zero
         (wr_section (wr_header (\<lambda>x. 0) 0 (created_header env sz)) sizeof_stat_file_header
            (created_section sz))
         (sizeof_stat_file_header + sizeof_stat_file_section)
         (sizeof_stat_file_block * unat (create_nblocks sz)),
      fsize = sizeof_stat_file_header + sizeof_stat_file_section
                + sizeof_stat_file_block * unat (create_nblocks sz)\<rparr>"

text \<open>A file on disk that passes \<open>rspamd_mmaped_file_check\<close> without conversion: long
  enough, with the magic \<open>rsd\<close>, the version \<open>12\<close> and a first section that is not
  truncated.\<close>

definition valid_statfile :: "disk_file \<Rightarrow> bool" where
  "valid_statfile df \<longleftrightarrow>
     of_nat sizeof_stat_file \<le> (of_nat (fsize df) :: 64 word) \<and>
     contents df 0 = 0x72 \<and> contents df 1 = 0x73 \<and> contents df 2 = 0x64 \<and>
     contents df 3 = 0x31 \<and> contents df 4 = 0x32 \<and>
     \<not> slength (rd_section (contents df) sizeof_stat_file_header) * of_nat sizeof_stat_file_block
         > (of_nat (fsize df) :: 64 word)"

text \<open>The handle \<open>statfile_pool_open\<close> fills in for such a file.\<close>

definition opened_handle :: "sys_env \<Rightarrow> string \<Rightarrow> disk_file \<Rightarrow> rspamd_mmaped_file_t" where
  "opened_handle env fname df =
     \<lparr>filename = rspamd_strlcpy PATH_MAX fname, fd = sys_fd env, map_ptr = Some (contents df),
      seek_pos = of_nat (sizeof_stat_file - sizeof_stat_file_block),
      cur_section = rd_section (contents df) sizeof_stat_file_header,
      open_time = sys_time env, access_time = sys_time env, len = of_nat (fsize df)\<rparr>"

text \<open>The pool after such a file has been opened into the slot \<open>opened\<close>.\<close>

definition pool_with :: "sys_env \<Rightarrow> rspamd_mmaped_file_ctx \<Rightarrow> rspamd_mmaped_file_t \<Rightarrow> rspamd_mmaped_file_ctx" where
  "pool_with env pool h =
     pool\<lparr>files := (files pool)[nat (opened pool) := h], opened := opened pool + 1,
          mlock_ok := mlock_ok pool \<and> sys_mlock_ok env\<rparr>"

text \<open>An environment in which every call goes through; the legacy migrator refuses.\<close>

definition good_env :: sys_env where
  "good_env = \<lparr>sys_open_ok = True, sys_write_ok = True, sys_rename_ok = True,
     sys_mmap_ok = True, sys_mlock_ok = True, sys_fd = 3, sys_time = 1600000000,
     convert_statfile_10 = (\<lambda>f. None)\<rparr>"

text \<open>A pool with nothing open and an array of two slots.\<close>

definition empty_pool :: rspamd_mmaped_file_ctx where
  "empty_pool = \<lparr>files = [zero_file, zero_file], opened = 0, mlock_ok = False\<rparr>"

text \<open>A file system that holds one statfile, created with the size 992: 43 blocks.\<close>

definition demo_fs :: filesystem where
  "demo_fs = [''statfile'' \<mapsto> created_file good_env 992]"


text \<open>A statfile with two sections: the section \<open>common\<close> (code 1) of two blocks, the first
  of them taken by the key \<open>(256, 1)\<close> with the value 1.0, and behind it, at the offset
  \<open>288 + 16 + 2 * 16 = 336\<close>, the section \<open>headers\<close> (code 2) of one block.\<close>

definition two_section_map :: mem where
  "two_section_map =
     wr_section
       (wr_block
          (wr_section
             (wr_header (\<lambda>x. 0) 0
                \<lparr>magic = [0x72, 0x73, 0x64], version = [0x31, 0x32], create_time = 1600000000,
                 revision = 0, rev_time = 0, used_blocks = 1, total_blocks = 2\<rparr>)
             288 \<lparr>scode = 1, slength = 2\<rparr>)
          304 \<lparr>hash1 = 256, hash2 = 1, bvalue = 0x3FF0000000000000\<rparr>)
       336 \<lparr>scode = 2, slength = 1\<rparr>"

definition two_section_file :: rspamd_mmaped_file_t where
  "two_section_file = \<lparr>filename = ''statfile'', fd = 3, map_ptr = Some two_section_map,
     seek_pos = 304, cur_section = \<lparr>scode = 1, slength = 2\<rparr>, open_time = 0, access_time = 0,
     len = 368\<rparr>"

text \<open>A statfile of 43 empty blocks that is at its revision 7, of the time 1600000100.\<close>

definition revised_file :: disk_file where
  "revised_file = (created_file good_env 992)
     \<lparr>contents := wr64 (wr64 (contents (created_file good_env 992)) off_revision 7)
                     off_rev_time 1600000100\<rparr>"

definition revised_fs :: filesystem where
  "revised_fs = [''statfile'' \<mapsto> revised_file]"

text \<open>
  A statfile of four blocks, 368 bytes, after the keys \<open>(4, 0x3FF00000)\<close> with the value
  2.0, \<open>(5, 7)\<close> with the value \<open>0x3FF0000000000004\<close> (a little above 1.0) and \<open>(6, 1)\<close> with
  the value 1.0 have been inserted, in this order: they sit in the blocks 0, 1 and 2,
  \<open>used_blocks\<close> is 3.
\<close>

definition packed_map :: mem where
  "packed_map =
     wr64 (wr_block
       (wr64 (wr_block
          (wr64 (wr_block (contents (created_file good_env 368))
                   304 \<lparr>hash1 = 4, hash2 = 0x3FF00000, bvalue = 0x4000000000000000\<rparr>) 32 1)
          320 \<lparr>hash1 = 5, hash2 = 7, bvalue = 0x3FF0000000000004\<rparr>) 32 2)
       336 \<lparr>hash1 = 6, hash2 = 1, bvalue = 0x3FF0000000000000\<rparr>) 32 3"

definition packed_file :: disk_file where
  "packed_file = \<lparr>contents = packed_map, fsize = 368\<rparr>"

definition packed_fs :: filesystem where
  "packed_fs = [''statfile'' \<mapsto> packed_file]"

text \<open>The handle of an open statfile of \<open>n\<close> blocks, 304 + 16 * \<open>n\<close> bytes, with the
  mapping \<open>m\<close>, as \<open>statfile_pool_open\<close> fills it in under \<open>good_env\<close>.\<close>

definition sample_handle :: "64 word \<Rightarrow> mem \<Rightarrow> rspamd_mmaped_file_t" where
  "sample_handle n m = \<lparr>filename = ''statfile'', fd = 3, map_ptr = Some m, seek_pos = 304,
     cur_section = \<lparr>scode = 1, slength = n\<rparr>, open_time = 1600000000,
     access_time = 1600000000, len = 304 + 16 * n\<rparr>"

text \<open>The blocks of a statfile of 64 blocks, 1328 bytes, created empty, after
  \<open>rspamd_mmaped_file_reindex\<close> has copied \<open>packed_map\<close> into it.\<close>

definition grown_blocks :: mem where
  "grown_blocks =
     wr64 (wr_block
       (wr64
          (wr64 (wr_block
             (wr64 (wr_block (contents (created_file good_env 1328))
                      368 \<lparr>hash1 = 4, hash2 = 0x3FF00000, bvalue = 0x4000000000000000\<rparr>) 32 1)
             384 \<lparr>hash1 = 5, hash2 = 7, bvalue = 0x3FF0000000000004\<rparr>) 32 2)
          376 0x0000000100000006)
       400 \<lparr>hash1 = 6, hash2 = 1, bvalue = 0x3FF0000000000000\<rparr>) 32 3"

text \<open>The same mapping after \<open>statfile_set_revision\<close>.\<close>

definition grown_map :: mem where
  "grown_map = wr64 (wr64 grown_blocks off_revision 0) off_rev_time 0"

text \<open>
  A mapped statfile whose section has \<open>2^32 + 1\<close> blocks, more than a \<open>guint\<close> counts: the
  blocks start at the offset 304 and end at \<open>304 + 16 * (2^32 + 1) = 68719477056\<close>, where
  the mapping has 16 bytes more. The block \<open>2^32 - 1\<close>, at the offset 68719477024, holds
  the key \<open>(0xFFFFFFFF, 1)\<close> and the block \<open>2^32\<close>, the last one, at 68719477040, holds the
  key \<open>(0xFFFFFFFF, 2)\<close>, both with the value 1.0; \<open>used_blocks\<close> is 2.
\<close>

definition wide_map :: mem where
  "wide_map =
     wr64 (wr_block
       (wr64 (wr_block (\<lambda>x. 0)
          68719477024 \<lparr>hash1 = 0xFFFFFFFF, hash2 = 1, bvalue = 0x3FF0000000000000\<rparr>) 32 1)
       68719477040 \<lparr>hash1 = 0xFFFFFFFF, hash2 = 2, bvalue = 0x3FF0000000000000\<rparr>) 32 2"

definition wide_file :: "mem \<Rightarrow> rspamd_mmaped_file_t" where
  "wide_file m = \<lparr>filename = ''statfile'', fd = 3, map_ptr = Some m, seek_pos = 304,
     cur_section = \<lparr>scode = 1, slength = 4294967297\<rparr>, open_time = 0, access_time = 0,
     len = 68719477072\<rparr>"


section \<open>Properties\<close>

subsection \<open>Sizes, bytes and blocks\<close>

lemma sizeof_stat_file_header_eq: "sizeof_stat_file_header = 288"
  by (simp add: sizeof_stat_file_header_def round_up_def)

lemma sizeof_stat_file_eq: "sizeof_stat_file = 320"
  by (simp add: sizeof_stat_file_def sizeof_stat_file_header_eq sizeof_stat_file_section_def
      sizeof_stat_file_block_def)

lemmas sizeofs = sizeof_stat_file_header_eq sizeof_stat_file_eq sizeof_stat_file_section_def
  sizeof_stat_file_block_def sizeof_pointer_def

lemmas header_offs = off_version_def off_create_time_def off_revision_def off_rev_time_def
  off_used_blocks_def off_total_blocks_def

lemma word32_of_bytes:
  "ucast (ucast w :: 8 word) OR push_bit 8 (ucast (ucast (drop_bit 8 w) :: 8 word))
     OR push_bit 16 (ucast (ucast (drop_bit 16 w) :: 8 word))
     OR push_bit 24 (ucast (ucast (drop_bit 24 w) :: 8 word)) = (w :: 32 word)"
proof (rule bit_word_eqI)
  fix n assume "n < LENGTH(32)"
  then have "n < 8 \<or> (8 \<le> n \<and> n < 16) \<or> (16 \<le> n \<and> n < 24) \<or> (24 \<le> n \<and> n < 32)"
    by auto
  then show "bit (ucast (ucast w :: 8 word) OR push_bit 8 (ucast (ucast (drop_bit 8 w) :: 8 word))
     OR push_bit 16 (ucast (ucast (drop_bit 16 w) :: 8 word))
     OR push_bit 24 (ucast (ucast (drop_bit 24 w) :: 8 word)) :: 32 word) n = bit w n"
    by (auto simp add: bit_simps)
qed

lemma word64_of_halves:
  "ucast (ucast w :: 32 word) OR push_bit 32 (ucast (ucast (drop_bit 32 w) :: 32 word)) = (w :: 64 word)"
proof (rule bit_word_eqI)
  fix n assume "n < LENGTH(64)"
  then have "n < 32 \<or> (32 \<le> n \<and> n < 64)"
    by auto
  then show "bit (ucast (ucast w :: 32 word) OR push_bit 32 (ucast (ucast (drop_bit 32 w) :: 32 word)) :: 64 word) n = bit w n"
    by (auto simp add: bit_simps)
qed

lemma rd32_cong: "(\<And>x. a \<le> x \<Longrightarrow> x < a + 4 \<Longrightarrow> m x = m' x) \<Longrightarrow> rd32 m a = rd32 m' a"
  by (simp add: rd32_def)

lemma rd64_cong: "(\<And>x. a \<le> x \<Longrightarrow> x < a + 8 \<Longrightarrow> m x = m' x) \<Longrightarrow> rd64 m a = rd64 m' a"
  by (simp add: rd64_def rd32_def)

lemma rd_block_cong:
  "(\<And>x. a \<le> x \<Longrightarrow> x < a + 16 \<Longrightarrow> m x = m' x) \<Longrightarrow> rd_block m a = rd_block m' a"
  by (simp add: rd_block_def rd64_def rd32_def)

lemma wr32_outside: "x < a \<or> a + 4 \<le> x \<Longrightarrow> wr32 m a w x = m x"
  by (auto simp add: wr32_def)

lemma wr64_outside: "x < a \<or> a + 8 \<le> x \<Longrightarrow> wr64 m a w x = m x"
  by (auto simp add: wr64_def wr32_outside)

lemma wr_block_outside: "x < a \<or> a + 16 \<le> x \<Longrightarrow> wr_block m a b x = m x"
  by (auto simp add: wr_block_def wr64_outside wr32_outside)

lemma rd32_wr32_same: "rd32 (wr32 m a w) a = w"
  by (simp add: rd32_def wr32_def word32_of_bytes)

lemma rd64_wr64_same: "rd64 (wr64 m a w) a = w"
proof -
  have "rd32 (wr32 (wr32 m a (ucast w)) (a + 4) (ucast (drop_bit 32 w))) a = rd32 (wr32 m a (ucast w)) a"
    by (rule rd32_cong) (simp add: wr32_outside)
  then show ?thesis
    by (simp add: rd64_def wr64_def rd32_wr32_same word64_of_halves)
qed

lemma rd_block_wr_block_same: "rd_block (wr_block m a b) a = b"
proof -
  have 1: "rd32 (wr_block m a b) a = hash1 b"
  proof -
    have "rd32 (wr_block m a b) a = rd32 (wr32 m a (hash1 b)) a"
      unfolding wr_block_def by (rule rd32_cong) (simp add: wr64_outside wr32_outside)
    then show ?thesis by (simp add: rd32_wr32_same)
  qed
  have 2: "rd32 (wr_block m a b) (a + 4) = hash2 b"
  proof -
    have "rd32 (wr_block m a b) (a + 4) = rd32 (wr32 (wr32 m a (hash1 b)) (a + 4) (hash2 b)) (a + 4)"
      unfolding wr_block_def by (rule rd32_cong) (simp add: wr64_outside)
    then show ?thesis by (simp add: rd32_wr32_same)
  qed
  have 3: "rd64 (wr_block m a b) (a + 8) = bvalue b"
    by (simp add: wr_block_def rd64_wr64_same)
  show ?thesis
    by (simp add: rd_block_def 1 2 3)
qed

lemma rd_block_wr_block_other:
  "a' + 16 \<le> a \<or> a + 16 \<le> a' \<Longrightarrow> rd_block (wr_block m a b) a' = rd_block m a'"
  by (rule rd_block_cong) (auto simp add: wr_block_outside)

lemma rd_block_wr64_other:
  "a' + 16 \<le> a \<or> a + 8 \<le> a' \<Longrightarrow> rd_block (wr64 m a w) a' = rd_block m a'"
  by (rule rd_block_cong) (auto simp add: wr64_outside)

lemma rd_block_wr_value:
  "rd_block (wr64 m (a + 8) v) a = (rd_block m a)\<lparr>bvalue := v\<rparr>"
proof -
  have "rd32 (wr64 m (a + 8) v) a = rd32 m a"
    by (rule rd32_cong) (simp add: wr64_outside)
  moreover have "rd32 (wr64 m (a + 8) v) (a + 4) = rd32 m (a + 4)"
    by (rule rd32_cong) (simp add: wr64_outside)
  ultimately show ?thesis
    by (simp add: rd_block_def rd64_wr64_same)
qed

lemma rd64_wr64_other:
  "a' + 8 \<le> a \<or> a + 8 \<le> a' \<Longrightarrow> rd64 (wr64 m a w) a' = rd64 m a'"
  by (rule rd64_cong) (auto simp add: wr64_outside)

lemma rd64_wr_block_other:
  "a' + 8 \<le> a \<or> a + 16 \<le> a' \<Longrightarrow> rd64 (wr_block m a b) a' = rd64 m a'"
  by (rule rd64_cong) (auto simp add: wr_block_outside)

lemma unat_ucast_32_64: "unat (ucast (w :: 32 word) :: 64 word) = unat w"
proof -
  have "unat w < 2 ^ 64"
    using unsigned_less [of w, where ?'a = nat] by (simp add: order_less_trans)
  then show ?thesis
    by (simp add: unsigned_ucast_eq take_bit_nat_eq_self)
qed

lemma chain_break_iff:
  fixes seclen :: "64 word" and blocknum :: "32 word"
  assumes "unat seclen < 2 ^ 32" and "i + unat blocknum \<le> unat seclen"
  shows "seclen \<le> ucast (of_nat i + blocknum :: 32 word) \<longleftrightarrow> unat seclen \<le> i + unat blocknum"
proof -
  have lt: "i + unat blocknum < 2 ^ 32" using assms 
    by (cases "i + unat blocknum = unat seclen") auto
  have "unat (of_nat i + blocknum :: 32 word) = (i + unat blocknum) mod 2 ^ 32"
    by (simp add: unat_word_ariths unat_of_nat mod_add_left_eq)
  with lt have u: "unat (of_nat i + blocknum :: 32 word) = i + unat blocknum"
    by simp
  have "unat (ucast (of_nat i + blocknum :: 32 word) :: 64 word) = unat (of_nat i + blocknum :: 32 word)"
    by (rule unat_ucast_32_64)
  with u show ?thesis
    by (simp add: word_le_nat_alt)
qed

lemma chain_offsets_Nil:
  "min CHAIN_LENGTH (L - slot0) \<le> i \<Longrightarrow> chain_offsets base slot0 L i = []"
  by (simp add: chain_offsets_def)

lemma chain_offsets_Cons:
  "i < min CHAIN_LENGTH (L - slot0) \<Longrightarrow>
     chain_offsets base slot0 L i = chain_off base (slot0 + i) # chain_offsets base slot0 L (Suc i)"
proof -
  assume "i < min CHAIN_LENGTH (L - slot0)"
  then have "[slot0 + i..<slot0 + min CHAIN_LENGTH (L - slot0)]
      = (slot0 + i) # [slot0 + Suc i..<slot0 + min CHAIN_LENGTH (L - slot0)]"
    by (simp add: upt_conv_Cons)
  then show ?thesis by (simp add: chain_offsets_def)
qed

lemma chain_off_next: "chain_off base j + int sizeof_stat_file_block = chain_off base (Suc j)"
  by (simp add: chain_off_def algebra_simps)

lemma chain_off_in_map:
  fixes seclen maplen :: "64 word"
  assumes "0 \<le> base" and "base + int (unat seclen) * 16 \<le> uint maplen" and "j < unat seclen"
  shows "in_map maplen (chain_off base j) sizeof_stat_file_block"
proof -
  have "int j + 1 \<le> int (unat seclen)" using assms(3) by linarith
  then have "base + int j * 16 + 16 \<le> base + int (unat seclen) * 16" by simp
  then have "base + int j * 16 + 16 \<le> uint maplen" using assms(2) by linarith
  moreover have "0 \<le> base + int j * 16" using assms(1) by simp
  ultimately show ?thesis
    by (simp add: in_map_def chain_off_def sizeof_stat_file_block_def)
qed

lemma get_block_loop_chain:
  fixes seclen maplen :: "64 word" and blocknum :: "32 word"
  assumes L: "unat seclen < 2 ^ 32" and slot: "unat blocknum < unat seclen"
    and base: "0 \<le> base" and fits: "base + int (unat seclen) * 16 \<le> uint maplen"
  shows "i \<le> min CHAIN_LENGTH (unat seclen - unat blocknum) \<Longrightarrow>
    get_block_loop m maplen seclen blocknum h1 h2 (chain_off base (unat blocknum + i)) i
      = Inr (get_chain m h1 h2 (chain_offsets base (unat blocknum) (unat seclen) i))"
proof (induction "min CHAIN_LENGTH (unat seclen - unat blocknum) - i" arbitrary: i)
  case 0
  then have i: "i = min CHAIN_LENGTH (unat seclen - unat blocknum)" by simp
  have nil: "chain_offsets base (unat blocknum) (unat seclen) i = []"
    using i by (simp add: chain_offsets_Nil)
  show ?case
  proof (cases "i < CHAIN_LENGTH")
    case True
    with i have "i + unat blocknum = unat seclen" using slot by (simp add: min_def split: if_splits)
    then have "seclen \<le> ucast (of_nat i + blocknum :: 32 word)"
      using chain_break_iff [OF L, of i blocknum] by simp
    then show ?thesis
      by (subst get_block_loop.simps) (simp add: nil True)
  next
    case False
    then show ?thesis
      by (subst get_block_loop.simps) (simp add: nil)
  qed
next
  case (Suc k)
  from Suc.hyps(2) have lt: "i < min CHAIN_LENGTH (unat seclen - unat blocknum)" by linarith
  then have i128: "i < CHAIN_LENGTH" and iL: "i + unat blocknum < unat seclen" by linarith+
  have nobreak: "\<not> seclen \<le> ucast (of_nat i + blocknum :: 32 word)"
    using chain_break_iff [OF L, of i blocknum] iL by simp
  define c where "c = chain_off base (unat blocknum + i)"
  have inb: "in_map maplen c sizeof_stat_file_block"
    unfolding c_def using iL by (intro chain_off_in_map [OF base fits]) simp
  have next_eq: "c + int sizeof_stat_file_block = chain_off base (Suc (unat blocknum + i))"
    unfolding c_def by (simp add: chain_off_next)
  have IH: "get_block_loop m maplen seclen blocknum h1 h2 (chain_off base (Suc (unat blocknum + i))) (Suc i)
      = Inr (get_chain m h1 h2 (chain_offsets base (unat blocknum) (unat seclen) (Suc i)))"
    using Suc.hyps(2) lt Suc.hyps(1) [of "Suc i"] by simp
  have cons: "chain_offsets base (unat blocknum) (unat seclen) i
      = c # chain_offsets base (unat blocknum) (unat seclen) (Suc i)"
    unfolding c_def by (rule chain_offsets_Cons [OF lt])
  have "get_block_loop m maplen seclen blocknum h1 h2 c i
      = Inr (get_chain m h1 h2 (chain_offsets base (unat blocknum) (unat seclen) i))"
    by (subst get_block_loop.simps)
       (simp add: i128 nobreak inb next_eq IH cons Let_def block_matches_def split: prod.splits)
  then show ?case by (simp add: c_def)
qed

lemma set_block_loop_chain:
  fixes seclen maplen :: "64 word" and blocknum :: "32 word"
  assumes L: "unat seclen < 2 ^ 32" and slot: "unat blocknum < unat seclen"
    and base: "int off_used_blocks + 8 \<le> base" and fits: "base + int (unat seclen) * 16 \<le> uint maplen"
  shows "i \<le> min CHAIN_LENGTH (unat seclen - unat blocknum) \<Longrightarrow>
    set_block_loop m maplen seclen blocknum h1 h2 v (chain_off base (unat blocknum + i)) te mn i
      = Inr (set_chain m h1 h2 v (chain_offsets base (unat blocknum) (unat seclen) i) te mn)"
proof (induction "min CHAIN_LENGTH (unat seclen - unat blocknum) - i" arbitrary: i te mn)
  case 0
  then have i: "i = min CHAIN_LENGTH (unat seclen - unat blocknum)" by simp
  have nil: "chain_offsets base (unat blocknum) (unat seclen) i = []"
    using i by (simp add: chain_offsets_Nil)
  show ?case
  proof (cases "i < CHAIN_LENGTH")
    case True
    with i have "i + unat blocknum = unat seclen" using slot by (simp add: min_def split: if_splits)
    then have "seclen \<le> ucast (of_nat i + blocknum :: 32 word)"
      using chain_break_iff [OF L, of i blocknum] by simp
    then show ?thesis
      by (subst set_block_loop.simps) (simp add: nil True)
  next
    case False
    then show ?thesis
      by (subst set_block_loop.simps) (simp add: nil)
  qed
next
  case (Suc k)
  from Suc.hyps(2) have lt: "i < min CHAIN_LENGTH (unat seclen - unat blocknum)" by linarith
  then have i128: "i < CHAIN_LENGTH" and iL: "i + unat blocknum < unat seclen" by linarith+
  have nobreak: "\<not> seclen \<le> ucast (of_nat i + blocknum :: 32 word)"
    using chain_break_iff [OF L, of i blocknum] iL by simp
  have base0: "0 \<le> base" using base by (simp add: off_used_blocks_def)
  define c where "c = chain_off base (unat blocknum + i)"
  have inb: "in_map maplen c sizeof_stat_file_block"
    unfolding c_def using iL by (intro chain_off_in_map [OF base0 fits]) simp
  have "0 \<le> int (unat seclen) * 16" by simp
  then have "int off_used_blocks + 8 \<le> uint maplen"
    using base fits by linarith
  then have inh: "in_map maplen (int off_used_blocks) 8"
    by (simp add: in_map_def off_used_blocks_def)
  have next_eq: "c + int sizeof_stat_file_block = chain_off base (Suc (unat blocknum + i))"
    unfolding c_def by (simp add: chain_off_next)
  have IH: "\<And>te mn. set_block_loop m maplen seclen blocknum h1 h2 v (chain_off base (Suc (unat blocknum + i))) te mn (Suc i)
      = Inr (set_chain m h1 h2 v (chain_offsets base (unat blocknum) (unat seclen) (Suc i)) te mn)"
    using Suc.hyps(2) lt Suc.hyps(1) [of "Suc i"] by simp
  have cons: "chain_offsets base (unat blocknum) (unat seclen) i
      = c # chain_offsets base (unat blocknum) (unat seclen) (Suc i)"
    unfolding c_def by (rule chain_offsets_Cons [OF lt])
  have "set_block_loop m maplen seclen blocknum h1 h2 v c te mn i
      = Inr (set_chain m h1 h2 v (chain_offsets base (unat blocknum) (unat seclen) i) te mn)"
    by (subst set_block_loop.simps)
       (simp add: i128 nobreak inb inh next_eq IH cons Let_def block_matches_def
          block_free_def split: prod.splits)
  then show ?case by (simp add: c_def)
qed

lemma chain_sep_pos: "chain_sep cs \<Longrightarrow> c \<in> set cs \<Longrightarrow> 40 \<le> c"
  by (induction cs) (auto simp add: off_used_blocks_def)

lemma chain_sep_upt:
  "int off_used_blocks + 8 \<le> base \<Longrightarrow> chain_sep (map (chain_off base) [a..<b])"
proof (induction "b - a" arbitrary: a)
  case 0
  then show ?case by simp
next
  case (Suc k)
  from Suc.hyps(2) have ab: "a < b" by linarith
  then have split: "[a..<b] = a # [Suc a..<b]" by (simp add: upt_conv_Cons)
  have tail: "chain_sep (map (chain_off base) [Suc a..<b])"
    using Suc.hyps(2) by (intro Suc.hyps(1) Suc.prems) simp
  have hd: "int off_used_blocks + 8 \<le> chain_off base a"
  proof -
    have "0 \<le> int a * int sizeof_stat_file_block" by simp
    then show ?thesis using Suc.prems unfolding chain_off_def by linarith
  qed
  have gap: "\<forall>c'\<in>set (map (chain_off base) [Suc a..<b]). chain_off base a + int sizeof_stat_file_block \<le> c'"
  proof
    fix c' assume "c' \<in> set (map (chain_off base) [Suc a..<b])"
    then obtain j where j: "Suc a \<le> j" and c': "c' = chain_off base j" by auto
    from j have "int a + 1 \<le> int j" by linarith
    then have "(int a + 1) * int sizeof_stat_file_block \<le> int j * int sizeof_stat_file_block"
      by (intro mult_right_mono) simp_all
    then show "chain_off base a + int sizeof_stat_file_block \<le> c'"
      unfolding c' chain_off_def by (simp add: algebra_simps)
  qed
  show ?case unfolding split using hd gap tail by simp
qed

lemma chain_sep_offsets:
  "int off_used_blocks + 8 \<le> base \<Longrightarrow> chain_sep (chain_offsets base slot0 L i)"
  unfolding chain_offsets_def by (rule chain_sep_upt)

lemma set_chain_Returned_frame:
  "set_chain m h1 h2 v cs te mn = (Returned m', ps) \<Longrightarrow>
   \<forall>c\<in>set cs. x < nat c \<or> nat c + 16 \<le> x \<Longrightarrow> x < off_used_blocks \<or> off_used_blocks + 8 \<le> x \<Longrightarrow>
   m' x = m x"
proof (induction cs arbitrary: te mn ps)
  case Nil
  then show ?case by simp
next
  case (Cons c cs)
  show ?case
  proof (cases "block_matches (rd_block m (nat c)) h1 h2")
    case True
    with Cons.prems(1) have "m' = wr64 m (nat c + 8) v" by simp
    moreover have "x < nat c + 8 \<or> nat c + 8 + 8 \<le> x" using Cons.prems(2) by auto
    ultimately show ?thesis by (simp add: wr64_outside)
  next
    case nm: False
    show ?thesis
    proof (cases "block_free (rd_block m (nat c))")
      case True
      with nm Cons.prems(1) have "m' = wr64 (wr_block m (nat c) \<lparr>hash1 = h1, hash2 = h2, bvalue = v\<rparr>) off_used_blocks
              (rd64 (wr_block m (nat c) \<lparr>hash1 = h1, hash2 = h2, bvalue = v\<rparr>) off_used_blocks + 1)"
        by simp
      then show ?thesis using Cons.prems(2,3) by (simp add: wr64_outside wr_block_outside)
    next
      case False
      with nm Cons.prems(1) obtain te' mn' ps' where
        "set_chain m h1 h2 v cs te' mn' = (Returned m', ps')"
        by (auto split: prod.splits)
      then show ?thesis using Cons.prems(2,3) Cons.IH by auto
    qed
  qed
qed

lemma set_chain_Returned_get:
  "set_chain m h1 h2 v cs te mn = (Returned m', ps) \<Longrightarrow> chain_sep cs \<Longrightarrow>
   fst (get_chain m' h1 h2 cs) = Some v"
proof (induction cs arbitrary: te mn ps)
  case Nil
  then show ?case by simp
next
  case (Cons c cs)
  have c40: "40 \<le> c" and sep: "\<forall>c'\<in>set cs. c + 16 \<le> c'" and seps: "chain_sep cs"
    using Cons.prems(2) by (simp_all add: off_used_blocks_def sizeof_stat_file_block_def)
  show ?case
  proof (cases "block_matches (rd_block m (nat c)) h1 h2")
    case True
    with Cons.prems(1) have "m' = wr64 m (nat c + 8) v" by simp
    then have "rd_block m' (nat c) = (rd_block m (nat c))\<lparr>bvalue := v\<rparr>"
      by (simp add: rd_block_wr_value)
    then show ?thesis using True by (simp add: block_matches_def)
  next
    case nm: False
    show ?thesis
    proof (cases "block_free (rd_block m (nat c))")
      case True
      with nm Cons.prems(1) have m': "m' = wr64 (wr_block m (nat c) (new_block h1 h2 v)) off_used_blocks
              (rd64 (wr_block m (nat c) (new_block h1 h2 v)) off_used_blocks + 1)"
        by (simp add: new_block_def)
      have "rd_block m' (nat c) = rd_block (wr_block m (nat c) (new_block h1 h2 v)) (nat c)"
        unfolding m' using c40 by (intro rd_block_wr64_other) (simp add: off_used_blocks_def, linarith)
      then have "rd_block m' (nat c) = new_block h1 h2 v"
        by (simp add: rd_block_wr_block_same)
      then show ?thesis by (simp add: block_matches_def new_block_def)
    next
      case False
      with nm Cons.prems(1) obtain te' mn' ps' where
        rec: "set_chain m h1 h2 v cs te' mn' = (Returned m', ps')"
        by (auto split: prod.splits)
      have IH: "fst (get_chain m' h1 h2 cs) = Some v"
        using Cons.IH [OF rec seps] .
      have "rd_block m' (nat c) = rd_block m (nat c)"
      proof (rule rd_block_cong)
        fix x assume x: "nat c \<le> x" "x < nat c + 16"
        have "\<forall>c'\<in>set cs. x < nat c' \<or> nat c' + 16 \<le> x"
          using sep x c40 by fastforce
        moreover have "x < off_used_blocks \<or> off_used_blocks + 8 \<le> x"
          using x c40 by (simp add: off_used_blocks_def, linarith)
        ultimately show "m' x = m x"
          by (rule set_chain_Returned_frame [OF rec])
      qed
      with nm IH show ?thesis by (cases "get_chain m' h1 h2 cs") simp
    qed
  qed
qed

lemma set_chain_ChainEnd:
  "set_chain m h1 h2 v cs te mn = (ChainEnd te', ps) \<Longrightarrow>
   (\<forall>c\<in>set cs. \<not> block_matches (rd_block m (nat c)) h1 h2) \<and>
   (te' = te \<or> (\<exists>c\<in>set cs. te' = Some c))"
proof (induction cs arbitrary: te mn ps)
  case Nil
  then show ?case by simp
next
  case (Cons c cs)
  from Cons.prems have nm: "\<not> block_matches (rd_block m (nat c)) h1 h2"
    by (auto split: if_splits)
  from Cons.prems nm have nf: "\<not> block_free (rd_block m (nat c))"
    by (auto split: if_splits)
  from Cons.prems nm nf obtain te1 mn1 ps1 where
    rec: "set_chain m h1 h2 v cs te1 mn1 = (ChainEnd te', ps1)"
    and te1: "te1 = te \<or> te1 = Some c"
    by (auto split: prod.splits if_splits)
  from Cons.IH [OF rec] te1 nm show ?case by auto
qed

lemma get_chain_after_write:
  "e \<in> set cs \<Longrightarrow> chain_sep cs \<Longrightarrow> \<forall>c\<in>set cs. \<not> block_matches (rd_block m (nat c)) h1 h2 \<Longrightarrow>
   fst (get_chain (wr_block m (nat e) (new_block h1 h2 v)) h1 h2 cs) = Some v"
proof (induction cs)
  case Nil
  then show ?case by simp
next
  case (Cons c cs)
  have c40: "40 \<le> c" and sep: "\<forall>c'\<in>set cs. c + 16 \<le> c'" and seps: "chain_sep cs"
    using Cons.prems(2) by (simp_all add: off_used_blocks_def sizeof_stat_file_block_def)
  show ?case
  proof (cases "e = c")
    case True
    then show ?thesis
      by (simp add: rd_block_wr_block_same block_matches_def new_block_def)
  next
    case False
    with Cons.prems(1) have e: "e \<in> set cs" by simp
    with sep have "c + 16 \<le> e" by simp
    then have "rd_block (wr_block m (nat e) (new_block h1 h2 v)) (nat c) = rd_block m (nat c)"
      using c40 by (intro rd_block_wr_block_other) linarith
    moreover have "fst (get_chain (wr_block m (nat e) (new_block h1 h2 v)) h1 h2 cs) = Some v"
      using Cons.IH [OF e seps] Cons.prems(3) by simp
    ultimately show ?thesis using Cons.prems(3) by (cases "get_chain (wr_block m (nat e) (new_block h1 h2 v)) h1 h2 cs") simp
  qed
qed

lemma unat_chain_blocknum:
  assumes "0 < unat (slength (cur_section file))"
  shows "unat (chain_blocknum file h1) = unat h1 mod unat (slength (cur_section file))"
proof -
  let ?L = "slength (cur_section file)"
  have "unat ((ucast h1 :: 64 word) mod ?L) = unat h1 mod unat ?L"
    by (simp add: unat_mod_distrib unat_ucast_32_64)
  moreover have "unat h1 mod unat ?L < 2 ^ 32"
    using unsigned_less [of h1, where ?'a = nat] by (simp add: order_le_less_trans [OF mod_less_eq_dividend])
  ultimately show ?thesis
    by (simp add: chain_blocknum_def unsigned_ucast_eq take_bit_nat_eq_self)
qed

lemma chain_blocknum_less:
  "0 < unat (slength (cur_section file)) \<Longrightarrow>
     unat (chain_blocknum file h1) < unat (slength (cur_section file))"
  by (simp add: unat_chain_blocknum)

lemma chain_start_off:
  "chain_start file blocknum = chain_off (sint (seek_pos file)) (unat blocknum + 0)"
  by (simp add: chain_start_def chain_off_def)

lemma get_block_loop_file:
  assumes "file_ok file" and "map_ptr file = Some m"
  shows "get_block_loop m (len file) (slength (cur_section file)) (chain_blocknum file h1) h1' h2'
           (chain_start file (chain_blocknum file h1)) 0
         = Inr (get_chain m h1' h2' (file_chain file h1))"
proof -
  have L: "unat (slength (cur_section file)) < 2 ^ 32"
    and pos: "0 < unat (slength (cur_section file))"
    and base: "0 \<le> sint (seek_pos file)"
    and fits: "sint (seek_pos file) + int (unat (slength (cur_section file))) * 16 \<le> uint (len file)"
    using assms(1) by (simp_all add: file_ok_def sizeofs)
  show ?thesis
    unfolding chain_start_off file_chain_def
    by (rule get_block_loop_chain [OF L chain_blocknum_less [OF pos] base fits]) simp
qed

lemma set_block_loop_file:
  assumes "file_ok file" and "map_ptr file = Some m"
  shows "set_block_loop m (len file) (slength (cur_section file)) (chain_blocknum file h1) h1' h2' v
           (chain_start file (chain_blocknum file h1)) te mn 0
         = Inr (set_chain m h1' h2' v (file_chain file h1) te mn)"
proof -
  have L: "unat (slength (cur_section file)) < 2 ^ 32"
    and pos: "0 < unat (slength (cur_section file))"
    and base: "int off_used_blocks + 8 \<le> sint (seek_pos file)"
    and fits: "sint (seek_pos file) + int (unat (slength (cur_section file))) * 16 \<le> uint (len file)"
    using assms(1) by (simp_all add: file_ok_def sizeofs off_used_blocks_def)
  show ?thesis
    unfolding chain_start_off file_chain_def
    by (rule set_block_loop_chain [OF L chain_blocknum_less [OF pos] base fits]) simp
qed

lemma file_chain_sep: "file_ok file \<Longrightarrow> chain_sep (file_chain file h1)"
  unfolding file_chain_def
  by (rule chain_sep_offsets) (simp add: file_ok_def sizeofs off_used_blocks_def)

lemma file_chain_hd:
  assumes "file_ok file"
  shows "\<exists>cs. file_chain file h1 = chain_start file (chain_blocknum file h1) # cs"
proof -
  have pos: "0 < unat (slength (cur_section file))" using assms by (simp add: file_ok_def)
  have "0 < min CHAIN_LENGTH (unat (slength (cur_section file)) - unat (chain_blocknum file h1))"
    using chain_blocknum_less [OF pos, of h1] by (simp add: CHAIN_LENGTH_def)
  then show ?thesis
    unfolding file_chain_def chain_start_off by (simp add: chain_offsets_Cons)
qed

lemma file_chain_in_map:
  assumes "file_ok file" and "c \<in> set (file_chain file h1)"
  shows "in_map (len file) c sizeof_stat_file_block"
proof -
  let ?L = "unat (slength (cur_section file))"
  from assms(2) obtain j where j: "j < unat (chain_blocknum file h1) + min CHAIN_LENGTH (?L - unat (chain_blocknum file h1))"
    and c: "c = chain_off (sint (seek_pos file)) j"
    by (auto simp add: file_chain_def chain_offsets_def)
  have pos: "0 < ?L" using assms(1) by (simp add: file_ok_def)
  have "j < ?L" using j chain_blocknum_less [OF pos, of h1] by simp
  moreover have "0 \<le> sint (seek_pos file)"
    and "sint (seek_pos file) + int ?L * 16 \<le> uint (len file)"
    using assms(1) by (simp_all add: file_ok_def sizeofs)
  ultimately show ?thesis unfolding c by (intro chain_off_in_map)
qed

subsection \<open>The operations on the chain of a key\<close>

lemma file_ok_touch [simp]: "file_ok (touch file t b) = file_ok file"
  by (simp add: touch_def file_ok_def)

lemma file_chain_touch [simp]: "file_chain (touch file t b) h1 = file_chain file h1"
  by (simp add: touch_def file_chain_def chain_blocknum_def)

lemma file_ok_access [simp]: "file_ok (file\<lparr>access_time := t\<rparr>) = file_ok file"
  by (simp add: file_ok_def)

lemma file_ok_map [simp]: "file_ok (file\<lparr>map_ptr := Some m\<rparr>) = file_ok (file\<lparr>map_ptr := Some m'\<rparr>)"
  by (simp add: file_ok_def)

lemma file_chain_access [simp]: "file_chain (file\<lparr>access_time := t\<rparr>) h1 = file_chain file h1"
  by (simp add: file_chain_def chain_blocknum_def)

lemma file_chain_map [simp]: "file_chain (file\<lparr>map_ptr := x\<rparr>) h1 = file_chain file h1"
  by (simp add: file_chain_def chain_blocknum_def)

lemma file_chain_nonempty:
  assumes "file_ok file"
  shows "file_chain file h1 \<noteq> []"
proof -
  from file_chain_hd [OF assms] obtain cs where
    "file_chain file h1 = chain_start file (chain_blocknum file h1) # cs" by blast
  then show ?thesis by simp
qed

lemma hd_file_chain:
  assumes "file_ok file"
  shows "hd (file_chain file h1) = chain_start file (chain_blocknum file h1)"
proof -
  from file_chain_hd [OF assms] obtain cs where
    "file_chain file h1 = chain_start file (chain_blocknum file h1) # cs" by blast
  then show ?thesis by simp
qed

lemma set_chain_ChainEnd_expired:
  assumes "set_chain m h1 h2 v cs None mn = (ChainEnd te, ps)" and "cs \<noteq> []"
  shows "expired te cs \<in> set cs"
  using set_chain_ChainEnd [OF assms(1)] assms(2) by (auto simp add: expired_def)

lemma get_block_eq:
  assumes ok: "file_ok file" and m: "map_ptr file = Some m"
  shows "statfile_pool_get_block file h1 h2 now =
     Inr (case fst (get_chain m h1 h2 (file_chain file h1)) of Some v \<Rightarrow> v | None \<Rightarrow> 0,
          file\<lparr>access_time := now\<rparr>)"
proof -
  define file0 where "file0 = file\<lparr>access_time := now\<rparr>"
  have ok0: "file_ok file0" using ok by (simp add: file0_def)
  have m0: "map_ptr file0 = Some m" using m by (simp add: file0_def)
  have nz0: "slength (cur_section file0) \<noteq> 0" using ok0 by (auto simp add: file_ok_def)
  have cs: "file_chain file0 h1 = file_chain file h1" by (simp add: file0_def)
  show ?thesis
    using m0 nz0 get_block_loop_file [OF ok0 m0, of h1 h1 h2] cs
    by (cases "get_chain m h1 h2 (file_chain file h1)")
       (simp add: statfile_pool_get_block_def Let_def file0_def [symmetric] split: option.splits)
qed

lemma set_block_common_eq:
  assumes ok: "file_ok file" and m: "map_ptr file = Some m"
  shows "statfile_pool_set_block_common file h1 h2 t v from_now =
     Inr ((touch file t from_now)\<lparr>map_ptr := Some (set_chain_result m h1 h2 v (file_chain file h1))\<rparr>)"
proof -
  define file0 where "file0 = touch file t from_now"
  have ok0: "file_ok file0" using ok by (simp add: file0_def)
  have m0: "map_ptr file0 = Some m" using m by (simp add: file0_def touch_def)
  have nz: "slength (cur_section file0) \<noteq> 0" using ok0 by (auto simp add: file_ok_def)
  let ?cs = "file_chain file h1"
  have cs0: "file_chain file0 h1 = ?cs" by (simp add: file0_def)
  have loop: "set_block_loop m (len file0) (slength (cur_section file0)) (chain_blocknum file0 h1) h1 h2 v
           (chain_start file0 (chain_blocknum file0 h1)) None G_MAXDOUBLE 0
         = Inr (set_chain m h1 h2 v ?cs None G_MAXDOUBLE)"
    using set_block_loop_file [OF ok0 m0, of h1 h1 h2 v None G_MAXDOUBLE] cs0 by simp
  have f0: "(if from_now then file\<lparr>access_time := t\<rparr> else file) = file0"
    by (simp add: file0_def touch_def)
  show ?thesis
  proof (cases "set_chain m h1 h2 v ?cs None G_MAXDOUBLE")
    case (Pair r ps)
    show ?thesis
    proof (cases r)
      case (Returned m')
      then show ?thesis
        using m0 nz loop Pair
        by (simp add: statfile_pool_set_block_common_def f0 Let_def set_chain_result_def
              file0_def [symmetric])
    next
      case (ChainEnd te)
      have e_in: "expired te ?cs \<in> set ?cs"
        using Pair ChainEnd file_chain_nonempty [OF ok] by (intro set_chain_ChainEnd_expired) auto
      have inb: "in_map (len file0) (expired te ?cs) sizeof_stat_file_block"
        using file_chain_in_map [OF ok0, of "expired te ?cs" h1] e_in cs0 by simp
      have e: "(case te of Some e \<Rightarrow> e | None \<Rightarrow> chain_start file0 (chain_blocknum file0 h1)) = expired te ?cs"
        using hd_file_chain [OF ok0, of h1] cs0 by (simp add: expired_def split: option.splits)
      show ?thesis
        using m0 nz loop Pair ChainEnd inb
        by (simp add: statfile_pool_set_block_common_def f0 Let_def set_chain_result_def e
              new_block_def file0_def [symmetric])
    qed
  qed
qed

lemma get_chain_set_chain_result:
  assumes "chain_sep cs" and "cs \<noteq> []"
  shows "fst (get_chain (set_chain_result m h1 h2 v cs) h1 h2 cs) = Some v"
proof (cases "set_chain m h1 h2 v cs None G_MAXDOUBLE")
  case (Pair r ps)
  show ?thesis
  proof (cases r)
    case (Returned m')
    then show ?thesis
      using Pair set_chain_Returned_get [of m h1 h2 v cs None G_MAXDOUBLE m' ps] assms(1)
      by (simp add: set_chain_result_def)
  next
    case (ChainEnd te)
    have e_in: "expired te cs \<in> set cs"
      using Pair ChainEnd assms(2) by (intro set_chain_ChainEnd_expired) auto
    have nomatch: "\<forall>c\<in>set cs. \<not> block_matches (rd_block m (nat c)) h1 h2"
      using set_chain_ChainEnd [of m h1 h2 v cs None G_MAXDOUBLE te ps] Pair ChainEnd by simp
    show ?thesis
      using Pair ChainEnd get_chain_after_write [OF e_in assms(1) nomatch]
      by (simp add: set_chain_result_def)
  qed
qed

subsection \<open>Round-trip of \<open>put\<close> and \<open>get\<close>\<close>

text \<open>
  Claim C1. On an open statfile, after \<open>statfile_pool_set_block_common\<close> has stored the
  value \<open>v\<close> under the key \<open>(h1, h2)\<close>, \<open>statfile_pool_get_block\<close> of that key returns
  exactly \<open>v\<close>. Both calls return; neither faults. This holds for every key and every
  value, hence for the non-zero keys callers use, and whether the chain of \<open>h1\<close> still
  holds the key or a free block or is full: an insertion into a full chain overwrites a
  block of the chain, where the lookup then finds the key.
\<close>

theorem put_get_roundtrip:
  assumes ok: "file_ok file"
  shows "\<exists>file' file''. statfile_pool_set_block_common file h1 h2 t v from_now = Inr file'
           \<and> statfile_pool_get_block file' h1 h2 now = Inr (v, file'')"
proof -
  obtain m where m: "map_ptr file = Some m" using ok by (auto simp add: file_ok_def)
  let ?cs = "file_chain file h1"
  define m' where "m' = set_chain_result m h1 h2 v ?cs"
  define file' where "file' = (touch file t from_now)\<lparr>map_ptr := Some m'\<rparr>"
  have put: "statfile_pool_set_block_common file h1 h2 t v from_now = Inr file'"
    unfolding file'_def m'_def by (rule set_block_common_eq [OF ok m])
  have ok': "file_ok file'" using ok m by (simp add: file'_def file_ok_def touch_def)
  have m'': "map_ptr file' = Some m'" by (simp add: file'_def)
  have cs': "file_chain file' h1 = ?cs" by (simp add: file'_def)
  have "fst (get_chain m' h1 h2 ?cs) = Some v"
    unfolding m'_def using file_chain_sep [OF ok] file_chain_nonempty [OF ok]
    by (rule get_chain_set_chain_result)
  then have "statfile_pool_get_block file' h1 h2 now = Inr (v, file'\<lparr>access_time := now\<rparr>)"
    using get_block_eq [OF ok' m'', of h1 h2 now] cs' by simp
  with put show ?thesis by blast
qed

theorem put_get_roundtrip_witness:
  "file_ok demo_file \<and>
   (\<exists>file' file''.
      statfile_pool_set_block_common demo_file 0x11111111 0x22222222 0 0x3FF8000000000000 True
        = Inr file'
      \<and> statfile_pool_get_block file' 0x11111111 0x22222222 0 = Inr (0x3FF8000000000000, file''))"
proof -
  have ok: "file_ok demo_file"
    by (simp add: file_ok_def demo_file_def sizeofs)
  show ?thesis
    using ok put_get_roundtrip [OF ok, of "0x11111111" "0x22222222" 0 "0x3FF8000000000000" True 0]
    by simp
qed




subsection \<open>The chain bound\<close>



text \<open>An example: in a section of four blocks the key \<open>h1 = 6\<close> has \<open>slot0 = 2\<close>, and a
  lookup that finds nothing reads the blocks 2 and 3, at the offsets 336 and 352.\<close>

lemma get_block_probes_example: "get_block_probes demo_file 6 7 = Inr [336, 352]"
  by (simp add: get_block_probes_def demo_file_def chain_blocknum_def chain_start_def sizeofs
      get_block_loop.simps CHAIN_LENGTH_def in_map_def rd_block_def rd32_def Let_def)

subsection \<open>Eviction from a full chain\<close>

lemma dbl_less_trans: "dbl_less a b \<Longrightarrow> dbl_less b c \<Longrightarrow> dbl_less a c"
  by (auto simp add: dbl_less_def)

lemma dbl_less_irrefl: "\<not> dbl_less a a"
  by (simp add: dbl_less_def)

lemma dbl_less_asym: "dbl_less a b \<Longrightarrow> \<not> dbl_less b a"
  by (auto simp add: dbl_less_def)

lemma set_chain_full:
  "chain_full m h1 h2 cs \<Longrightarrow>
     set_chain m h1 h2 v cs te mn = (ChainEnd (min_slot m cs te mn), cs)"
  by (induction cs arbitrary: te mn) (auto simp add: chain_full_def value_at_def)

lemma min_slot_cases:
  "(min_slot m cs te mn = te \<and> (\<forall>c\<in>set cs. \<not> dbl_less (value_at m c) mn)) \<or>
   (\<exists>e\<in>set cs. min_slot m cs te mn = Some e \<and> dbl_less (value_at m e) mn
       \<and> (\<forall>c\<in>set cs. \<not> dbl_less (value_at m c) (value_at m e)))"
proof (induction cs arbitrary: te mn)
  case Nil
  then show ?case by simp
next
  case (Cons c cs)
  show ?case
  proof (cases "dbl_less (value_at m c) mn")
    case True
    from Cons [of "Some c" "value_at m c"] show ?thesis
    proof
      assume "min_slot m cs (Some c) (value_at m c) = Some c
          \<and> (\<forall>c'\<in>set cs. \<not> dbl_less (value_at m c') (value_at m c))"
      then show ?thesis using True by (auto simp add: dbl_less_irrefl)
    next
      assume "\<exists>e\<in>set cs. min_slot m cs (Some c) (value_at m c) = Some e
          \<and> dbl_less (value_at m e) (value_at m c)
          \<and> (\<forall>c'\<in>set cs. \<not> dbl_less (value_at m c') (value_at m e))"
      then obtain e where e: "e \<in> set cs" "min_slot m cs (Some c) (value_at m c) = Some e"
        "dbl_less (value_at m e) (value_at m c)"
        "\<forall>c'\<in>set cs. \<not> dbl_less (value_at m c') (value_at m e)" by blast
      have "dbl_less (value_at m e) mn" using e(3) True by (rule dbl_less_trans)
      moreover have "\<not> dbl_less (value_at m c) (value_at m e)" using e(3) by (rule dbl_less_asym)
      ultimately show ?thesis using True e by auto
    qed
  next
    case False
    from Cons [of te mn] show ?thesis
    proof
      assume "min_slot m cs te mn = te \<and> (\<forall>c'\<in>set cs. \<not> dbl_less (value_at m c') mn)"
      then show ?thesis using False by auto
    next
      assume "\<exists>e\<in>set cs. min_slot m cs te mn = Some e \<and> dbl_less (value_at m e) mn
          \<and> (\<forall>c'\<in>set cs. \<not> dbl_less (value_at m c') (value_at m e))"
      then obtain e where e: "e \<in> set cs" "min_slot m cs te mn = Some e"
        "dbl_less (value_at m e) mn"
        "\<forall>c'\<in>set cs. \<not> dbl_less (value_at m c') (value_at m e)" by blast
      have "\<not> dbl_less (value_at m c) (value_at m e)"
        using False e(3) dbl_less_trans by blast
      then show ?thesis using False e by auto
    qed
  qed
qed

lemma set_chain_result_full:
  "chain_full m h1 h2 cs \<Longrightarrow>
     set_chain_result m h1 h2 v cs = wr_block m (nat (evicted m cs)) (new_block h1 h2 v)"
  by (simp add: set_chain_result_def set_chain_full evicted_def)

lemma evicted_cases:
  assumes "cs \<noteq> []"
  shows "evicted m cs \<in> set cs \<and>
    (if \<exists>c\<in>set cs. dbl_less (value_at m c) G_MAXDOUBLE
     then dbl_less (value_at m (evicted m cs)) G_MAXDOUBLE
          \<and> (\<forall>c\<in>set cs. \<not> dbl_less (value_at m c) (value_at m (evicted m cs)))
     else evicted m cs = hd cs)"
  using min_slot_cases [of m cs None G_MAXDOUBLE] assms
  by (auto simp add: evicted_def expired_def)

lemma chain_sep_distinct_read:
  assumes "chain_sep cs" and "c \<in> set cs" and "e \<in> set cs" and "c \<noteq> e"
  shows "rd_block (wr_block m (nat e) b) (nat c) = rd_block m (nat c)"
proof -
  have "c + 16 \<le> e \<or> e + 16 \<le> c" using assms
    by (induction cs) (auto simp add: sizeof_stat_file_block_def)
  moreover have "40 \<le> c" "40 \<le> e" using assms chain_sep_pos by blast+
  ultimately show ?thesis by (intro rd_block_wr_block_other) linarith
qed

text \<open>
  Claim C3, as the code has it. When every block of the chain of a key is taken by other
  keys, \<open>statfile_pool_set_block_common\<close> overwrites exactly one block of the chain with
  \<open>(h1, h2, v)\<close> and leaves the others as they were. If some value in the chain is below
  \<open>G_MAXDOUBLE\<close>, the block overwritten holds a minimum: its value is below
  \<open>G_MAXDOUBLE\<close> and no value in the chain is less. If none is (each is \<open>G_MAXDOUBLE\<close>,
  an infinity or a NaN), \<open>to_expire\<close> is still \<open>NULL\<close> and the block overwritten is the
  first of the chain, at \<open>slot0\<close>. Afterwards the chain holds the new key, and it no
  longer holds the key overwritten, provided that key was in no other block of the
  chain. The chain is never empty: \<open>slot0 = h1 mod section_length\<close> is below the section
  length, so the case that no block was scanned does not arise.
\<close>

theorem eviction_full_chain:
  assumes ok: "file_ok file" and m: "map_ptr file = Some m"
    and full: "chain_full m h1 h2 (file_chain file h1)"
  shows "statfile_pool_set_block_common file h1 h2 t v from_now =
           Inr ((touch file t from_now)\<lparr>map_ptr := Some
                  (wr_block m (nat (evicted m (file_chain file h1))) (new_block h1 h2 v))\<rparr>)
    \<and> evicted m (file_chain file h1) \<in> set (file_chain file h1)
    \<and> (if \<exists>c\<in>set (file_chain file h1). dbl_less (value_at m c) G_MAXDOUBLE
        then dbl_less (value_at m (evicted m (file_chain file h1))) G_MAXDOUBLE
             \<and> (\<forall>c\<in>set (file_chain file h1).
                   \<not> dbl_less (value_at m c) (value_at m (evicted m (file_chain file h1))))
        else evicted m (file_chain file h1) = chain_start file (chain_blocknum file h1))
    \<and> rd_block (wr_block m (nat (evicted m (file_chain file h1))) (new_block h1 h2 v))
         (nat (evicted m (file_chain file h1))) = new_block h1 h2 v
    \<and> (\<forall>c\<in>set (file_chain file h1). c \<noteq> evicted m (file_chain file h1) \<longrightarrow>
          rd_block (wr_block m (nat (evicted m (file_chain file h1))) (new_block h1 h2 v)) (nat c)
            = rd_block m (nat c))
    \<and> key_in_chain (wr_block m (nat (evicted m (file_chain file h1))) (new_block h1 h2 v))
         (file_chain file h1) h1 h2
    \<and> (key_only_at m (file_chain file h1) (evicted m (file_chain file h1)) \<longrightarrow>
          \<not> key_in_chain (wr_block m (nat (evicted m (file_chain file h1))) (new_block h1 h2 v))
              (file_chain file h1)
              (hash1 (rd_block m (nat (evicted m (file_chain file h1)))))
              (hash2 (rd_block m (nat (evicted m (file_chain file h1))))))"
proof -
  let ?cs = "file_chain file h1"
  let ?e = "evicted m ?cs"
  let ?m' = "wr_block m (nat ?e) (new_block h1 h2 v)"
  have ne: "?cs \<noteq> []" using ok by (rule file_chain_nonempty)
  have sep: "chain_sep ?cs" using ok by (rule file_chain_sep)
  have ev: "?e \<in> set ?cs \<and>
    (if \<exists>c\<in>set ?cs. dbl_less (value_at m c) G_MAXDOUBLE
     then dbl_less (value_at m ?e) G_MAXDOUBLE
          \<and> (\<forall>c\<in>set ?cs. \<not> dbl_less (value_at m c) (value_at m ?e))
     else ?e = hd ?cs)"
    using ne by (rule evicted_cases)
  then have e_in: "?e \<in> set ?cs" by simp
  have p1: "statfile_pool_set_block_common file h1 h2 t v from_now =
           Inr ((touch file t from_now)\<lparr>map_ptr := Some ?m'\<rparr>)"
    using set_block_common_eq [OF ok m, of h1 h2 t v from_now] set_chain_result_full [OF full, of v]
    by simp
  have p3: "if \<exists>c\<in>set ?cs. dbl_less (value_at m c) G_MAXDOUBLE
        then dbl_less (value_at m ?e) G_MAXDOUBLE
             \<and> (\<forall>c\<in>set ?cs. \<not> dbl_less (value_at m c) (value_at m ?e))
        else ?e = chain_start file (chain_blocknum file h1)"
    using ev hd_file_chain [OF ok, of h1] by (simp split: if_splits)
  have p4: "rd_block ?m' (nat ?e) = new_block h1 h2 v"
    by (rule rd_block_wr_block_same)
  have p5: "\<forall>c\<in>set ?cs. c \<noteq> ?e \<longrightarrow> rd_block ?m' (nat c) = rd_block m (nat c)"
    using sep e_in by (auto intro: chain_sep_distinct_read)
  have p6: "key_in_chain ?m' ?cs h1 h2"
  proof -
    have "block_matches (rd_block ?m' (nat ?e)) h1 h2"
      unfolding p4 by (simp add: block_matches_def new_block_def)
    with e_in show ?thesis unfolding key_in_chain_def by blast
  qed
  have old: "\<not> block_matches (new_block h1 h2 v) (hash1 (rd_block m (nat ?e))) (hash2 (rd_block m (nat ?e)))"
    using full e_in by (auto simp add: chain_full_def block_matches_def new_block_def)
  have p7: "key_only_at m ?cs ?e \<longrightarrow>
          \<not> key_in_chain ?m' ?cs (hash1 (rd_block m (nat ?e))) (hash2 (rd_block m (nat ?e)))"
  proof
    assume only: "key_only_at m ?cs ?e"
    show "\<not> key_in_chain ?m' ?cs (hash1 (rd_block m (nat ?e))) (hash2 (rd_block m (nat ?e)))"
      unfolding key_in_chain_def
    proof
      assume "\<exists>c\<in>set ?cs. block_matches (rd_block ?m' (nat c)) (hash1 (rd_block m (nat ?e))) (hash2 (rd_block m (nat ?e)))"
      then obtain c where c: "c \<in> set ?cs"
        "block_matches (rd_block ?m' (nat c)) (hash1 (rd_block m (nat ?e))) (hash2 (rd_block m (nat ?e)))"
        by blast
      show False
      proof (cases "c = ?e")
        case True
        with c(2) p4 old show False by simp
      next
        case False
        with p5 c(1) have "rd_block ?m' (nat c) = rd_block m (nat c)" by simp
        with c only False show False by (simp add: key_only_at_def)
      qed
    qed
  qed
  from p1 e_in p3 p4 p5 p6 p7 show ?thesis by blast
qed

lemma full_file_chain: "file_chain full_file 2 = [304, 320]"
  by (simp add: file_chain_def full_file_def chain_offsets_def chain_blocknum_def chain_off_def
      CHAIN_LENGTH_def sizeofs)

lemma full_map_blocks:
  "rd_block full_map 304 = \<lparr>hash1 = 4, hash2 = 1, bvalue = 0x4008000000000000\<rparr>"
  "rd_block full_map 320 = \<lparr>hash1 = 6, hash2 = 1, bvalue = 0x4000000000000000\<rparr>"
  by (simp_all add: full_map_def rd_block_wr_block_same rd_block_wr_block_other)

theorem eviction_full_chain_witness:
  "file_ok full_file \<and> map_ptr full_file = Some full_map
    \<and> chain_full full_map 2 5 (file_chain full_file 2)
    \<and> evicted full_map (file_chain full_file 2) = 320
    \<and> statfile_pool_set_block_common full_file 2 5 0 0x3FF0000000000000 False =
           Inr (full_file\<lparr>map_ptr := Some (wr_block full_map 320 (new_block 2 5 0x3FF0000000000000))\<rparr>)"
proof -
  have ok: "file_ok full_file"
    by (simp add: file_ok_def full_file_def sizeofs)
  have m: "map_ptr full_file = Some full_map"
    by (simp add: full_file_def)
  have full: "chain_full full_map 2 5 (file_chain full_file 2)"
    by (simp add: chain_full_def full_file_chain full_map_blocks block_matches_def block_free_def)
  have ev: "evicted full_map (file_chain full_file 2) = 320"
    by (simp add: evicted_def expired_def full_file_chain value_at_def full_map_blocks
        dbl_less_def dbl_isnan_def dbl_ord_def dbl_magnitude_def G_MAXDOUBLE_def)
  show ?thesis
    using ok m full ev eviction_full_chain [OF ok m full, of 0 "0x3FF0000000000000" False]
    by (simp add: touch_def)
qed

lemma rd32_zero: "rd32 (\<lambda>x. 0) a = 0"
  by (simp add: rd32_def)

lemma rd64_zero: "rd64 (\<lambda>x. 0) a = 0"
  by (simp add: rd64_def rd32_zero)

lemma rd_block_zero: "rd_block (\<lambda>x. 0) a = \<lparr>hash1 = 0, hash2 = 0, bvalue = 0\<rparr>"
  by (simp add: rd_block_def rd32_zero rd64_zero)

lemma inf_map_blocks:
  "rd_block inf_map 304 = new_block 4 1 dbl_infinity"
  "rd_block inf_map 320 = new_block 6 1 G_MAXDOUBLE"
  by (simp_all add: inf_map_def rd_block_wr_block_same rd_block_wr_block_other rd_block_wr64_other)

lemma inf_file_chain: "file_chain inf_file 2 = [304, 320]"
  by (simp add: file_chain_def inf_file_def empty2_file_def chain_offsets_def chain_blocknum_def chain_off_def
      CHAIN_LENGTH_def sizeofs)

lemma inf_file_ok: "file_ok inf_file"
  by (simp add: file_ok_def inf_file_def empty2_file_def sizeofs)

text \<open>The file is what two insertions into an empty section of two blocks leave.\<close>

lemma inf_file_reached:
  "statfile_pool_set_block_common empty2_file 4 1 0 dbl_infinity False
      = Inr (empty2_file\<lparr>map_ptr := Some (wr64 (wr_block (\<lambda>x. 0) 304 (new_block 4 1 dbl_infinity)) 32 1)\<rparr>)"
  "statfile_pool_set_block_common
      (empty2_file\<lparr>map_ptr := Some (wr64 (wr_block (\<lambda>x. 0) 304 (new_block 4 1 dbl_infinity)) 32 1)\<rparr>)
      6 1 0 G_MAXDOUBLE False
      = Inr inf_file"
proof -
  have ok: "file_ok empty2_file" by (simp add: file_ok_def empty2_file_def sizeofs)
  have m: "map_ptr empty2_file = Some (\<lambda>x. 0)" by (simp add: empty2_file_def)
  have c1: "file_chain empty2_file 4 = [304, 320]"
    by (simp add: file_chain_def empty2_file_def chain_offsets_def chain_blocknum_def chain_off_def
      CHAIN_LENGTH_def sizeofs)
  show "statfile_pool_set_block_common empty2_file 4 1 0 dbl_infinity False
      = Inr (empty2_file\<lparr>map_ptr := Some (wr64 (wr_block (\<lambda>x. 0) 304 (new_block 4 1 dbl_infinity)) 32 1)\<rparr>)"
    using set_block_common_eq [OF ok m, of 4 1 0 dbl_infinity False]
    by (simp add: c1 set_chain_result_def touch_def rd_block_zero block_matches_def block_free_def
        new_block_def off_used_blocks_def rd64_wr_block_other rd64_zero)
  define m1 where "m1 = wr64 (wr_block (\<lambda>x. 0) 304 (new_block 4 1 dbl_infinity)) 32 1"
  have ok1: "file_ok (empty2_file\<lparr>map_ptr := Some m1\<rparr>)"
    by (simp add: file_ok_def empty2_file_def sizeofs)
  have m1': "map_ptr (empty2_file\<lparr>map_ptr := Some m1\<rparr>) = Some m1" by simp
  have c2: "file_chain empty2_file 6 = [304, 320]"
    by (simp add: file_chain_def empty2_file_def chain_offsets_def chain_blocknum_def chain_off_def
      CHAIN_LENGTH_def sizeofs)
  have b0: "rd_block m1 304 = new_block 4 1 dbl_infinity"
    by (simp add: m1_def rd_block_wr64_other rd_block_wr_block_same)
  have b1: "rd_block m1 320 = \<lparr>hash1 = 0, hash2 = 0, bvalue = 0\<rparr>"
    by (simp add: m1_def rd_block_wr64_other rd_block_wr_block_other rd_block_zero)
  have u: "rd64 (wr_block m1 320 \<lparr>hash1 = 6, hash2 = 1, bvalue = G_MAXDOUBLE\<rparr>) 32 = 1"
    by (simp add: m1_def rd64_wr_block_other rd64_wr64_same)
  have "set_chain_result m1 6 1 G_MAXDOUBLE [304, 320]
      = wr64 (wr_block m1 320 \<lparr>hash1 = 6, hash2 = 1, bvalue = G_MAXDOUBLE\<rparr>) 32 2"
    by (simp add: set_chain_result_def b0 b1 u block_matches_def block_free_def new_block_def
        off_used_blocks_def)
  also have "\<dots> = inf_map"
    by (simp add: inf_map_def m1_def new_block_def)
  finally have "statfile_pool_set_block_common (empty2_file\<lparr>map_ptr := Some m1\<rparr>) 6 1 0 G_MAXDOUBLE False
      = Inr inf_file"
    using set_block_common_eq [OF ok1 m1', of 6 1 0 G_MAXDOUBLE False]
    by (simp add: c2 touch_def inf_file_def)
  then show "statfile_pool_set_block_common
      (empty2_file\<lparr>map_ptr := Some (wr64 (wr_block (\<lambda>x. 0) 304 (new_block 4 1 dbl_infinity)) 32 1)\<rparr>)
      6 1 0 G_MAXDOUBLE False
      = Inr inf_file"
    by (simp add: m1_def)
qed

text \<open>
  The claim C3 as it is stated fails where no value in the chain is below
  \<open>G_MAXDOUBLE\<close>. In \<open>inf_file\<close> the chain of \<open>h1 = 2\<close> is the whole section; both blocks
  are taken by other keys, with the values \<open>+infinity\<close> at \<open>slot0\<close> and \<open>G_MAXDOUBLE\<close> behind
  it. The insertion of \<open>(2, 5)\<close> overwrites \<open>slot0\<close>, although the block behind it holds
  the lesser value, and the key with the minimum value is still in the chain.
\<close>

theorem eviction_min_counterexample:
  "file_ok inf_file \<and> map_ptr inf_file = Some inf_map \<and> file_chain inf_file 2 = [304, 320]
   \<and> \<not> block_matches (rd_block inf_map 304) 2 5 \<and> \<not> block_free (rd_block inf_map 304)
   \<and> \<not> block_matches (rd_block inf_map 320) 2 5 \<and> \<not> block_free (rd_block inf_map 320)
   \<and> statfile_pool_set_block_common inf_file 2 5 0 0x3FF0000000000000 False
       = Inr (inf_file\<lparr>map_ptr := Some (wr_block inf_map 304 (new_block 2 5 0x3FF0000000000000))\<rparr>)
   \<and> dbl_less (value_at inf_map 320) (value_at inf_map 304)
   \<and> rd_block (wr_block inf_map 304 (new_block 2 5 0x3FF0000000000000)) 320
       = new_block 6 1 G_MAXDOUBLE"
proof -
  have m: "map_ptr inf_file = Some inf_map" by (simp add: inf_file_def)
  have occ: "\<not> block_matches (rd_block inf_map 304) 2 5 \<and> \<not> block_free (rd_block inf_map 304)
   \<and> \<not> block_matches (rd_block inf_map 320) 2 5 \<and> \<not> block_free (rd_block inf_map 320)"
    by (simp add: inf_map_blocks block_matches_def block_free_def new_block_def)
  have put: "statfile_pool_set_block_common inf_file 2 5 0 0x3FF0000000000000 False
       = Inr (inf_file\<lparr>map_ptr := Some (wr_block inf_map 304 (new_block 2 5 0x3FF0000000000000))\<rparr>)"
    using set_block_common_eq [OF inf_file_ok m, of 2 5 0 "0x3FF0000000000000" False]
    by (simp add: inf_file_chain set_chain_result_def touch_def inf_map_blocks block_matches_def
        block_free_def new_block_def expired_def dbl_less_def dbl_isnan_def dbl_magnitude_def
        dbl_ord_def dbl_infinity_def G_MAXDOUBLE_def)
  have less: "dbl_less (value_at inf_map 320) (value_at inf_map 304)"
    by (simp add: value_at_def inf_map_blocks new_block_def dbl_less_def dbl_isnan_def
        dbl_magnitude_def dbl_ord_def dbl_infinity_def G_MAXDOUBLE_def)
  have still: "rd_block (wr_block inf_map 304 (new_block 2 5 0x3FF0000000000000)) 320
       = new_block 6 1 G_MAXDOUBLE"
    by (simp add: rd_block_wr_block_other inf_map_blocks)
  from inf_file_ok m inf_file_chain occ put less still show ?thesis by blast
qed

subsection \<open>\<open>statfile_get_total_blocks\<close> writes\<close>

text \<open>
  Claim C10. \<open>statfile_get_total_blocks\<close> is not a pure read. For a \<open>NULL\<close> file and for
  a file whose mapping is \<open>NULL\<close> it returns \<open>(guint64) -1\<close>, that is \<open>2^64 - 1\<close>, and
  changes nothing. For a mapped file whose header has \<open>total_blocks = 0\<close> it writes
  \<open>cur_section.length\<close> into that field of the mapping and returns it, so that the mapping
  afterwards differs from the one before whenever the section is not empty.
\<close>

theorem get_total_blocks_writes:
  "statfile_get_total_blocks None = Inr (- 1, None)
   \<and> unat (- 1 :: 64 word) = 2 ^ 64 - 1
   \<and> (map_ptr file = None \<longrightarrow> statfile_get_total_blocks (Some file) = Inr (- 1, Some file))
   \<and> (map_ptr file = Some m \<and> in_map (len file) (int off_total_blocks) 8
        \<and> rd64 m off_total_blocks = 0 \<longrightarrow>
         statfile_get_total_blocks (Some file)
           = Inr (slength (cur_section file),
                  Some (file\<lparr>map_ptr := Some (wr64 m off_total_blocks (slength (cur_section file)))\<rparr>))
         \<and> rd64 (wr64 m off_total_blocks (slength (cur_section file))) off_total_blocks
             = slength (cur_section file)
         \<and> (slength (cur_section file) \<noteq> 0 \<longrightarrow>
               wr64 m off_total_blocks (slength (cur_section file)) \<noteq> m))"
proof -
  have a: "statfile_get_total_blocks None = Inr (- 1, None)"
    by (simp add: statfile_get_total_blocks_def)
  have b: "unat (- 1 :: 64 word) = 2 ^ 64 - 1"
    by (simp add: unsigned_minus_1_eq_mask mask_eq_exp_minus_1)
  have c: "map_ptr file = None \<longrightarrow> statfile_get_total_blocks (Some file) = Inr (- 1, Some file)"
    by (simp add: statfile_get_total_blocks_def)
  have d: "map_ptr file = Some m \<and> in_map (len file) (int off_total_blocks) 8
        \<and> rd64 m off_total_blocks = 0 \<longrightarrow>
         statfile_get_total_blocks (Some file)
           = Inr (slength (cur_section file),
                  Some (file\<lparr>map_ptr := Some (wr64 m off_total_blocks (slength (cur_section file)))\<rparr>))
         \<and> rd64 (wr64 m off_total_blocks (slength (cur_section file))) off_total_blocks
             = slength (cur_section file)
         \<and> (slength (cur_section file) \<noteq> 0 \<longrightarrow>
               wr64 m off_total_blocks (slength (cur_section file)) \<noteq> m)"
  proof (intro impI, elim conjE)
    assume m: "map_ptr file = Some m" and inb: "in_map (len file) (int off_total_blocks) 8"
      and z: "rd64 m off_total_blocks = 0"
    have r: "rd64 (wr64 m off_total_blocks (slength (cur_section file))) off_total_blocks
             = slength (cur_section file)"
      by (rule rd64_wr64_same)
    have "slength (cur_section file) \<noteq> 0 \<longrightarrow>
               wr64 m off_total_blocks (slength (cur_section file)) \<noteq> m"
      using r z by auto
    moreover have "statfile_get_total_blocks (Some file)
           = Inr (slength (cur_section file),
                  Some (file\<lparr>map_ptr := Some (wr64 m off_total_blocks (slength (cur_section file)))\<rparr>))"
      using m inb z by (simp add: statfile_get_total_blocks_def r)
    ultimately show "statfile_get_total_blocks (Some file)
           = Inr (slength (cur_section file),
                  Some (file\<lparr>map_ptr := Some (wr64 m off_total_blocks (slength (cur_section file)))\<rparr>))
         \<and> rd64 (wr64 m off_total_blocks (slength (cur_section file))) off_total_blocks
             = slength (cur_section file)
         \<and> (slength (cur_section file) \<noteq> 0 \<longrightarrow>
               wr64 m off_total_blocks (slength (cur_section file)) \<noteq> m)"
      using r by blast
  qed
  from a b c d show ?thesis by blast
qed

theorem get_total_blocks_writes_witness:
  "map_ptr unmapped_file = None
   \<and> statfile_get_total_blocks (Some unmapped_file) = Inr (18446744073709551615, Some unmapped_file)
   \<and> map_ptr demo_file = Some (\<lambda>x. 0) \<and> in_map (len demo_file) (int off_total_blocks) 8
   \<and> rd64 (\<lambda>x. 0) off_total_blocks = 0 \<and> slength (cur_section demo_file) \<noteq> 0
   \<and> statfile_get_total_blocks (Some demo_file)
        = Inr (4, Some (demo_file\<lparr>map_ptr := Some (wr64 (\<lambda>x. 0) off_total_blocks 4)\<rparr>))
   \<and> wr64 (\<lambda>x. 0) off_total_blocks 4 \<noteq> (\<lambda>x. 0)"
proof -
  have h1: "map_ptr unmapped_file = None"
    by (simp add: unmapped_file_def zero_file_def)
  have h2: "map_ptr demo_file = Some (\<lambda>x. 0) \<and> in_map (len demo_file) (int off_total_blocks) 8
      \<and> rd64 (\<lambda>x. 0) off_total_blocks = 0"
    by (simp add: demo_file_def in_map_def off_total_blocks_def rd64_zero)
  have h3: "slength (cur_section demo_file) \<noteq> 0" "slength (cur_section demo_file) = 4"
    by (simp_all add: demo_file_def)
  show ?thesis
    using h1 h2 h3 get_total_blocks_writes [of unmapped_file "\<lambda>x. 0"]
      get_total_blocks_writes [of demo_file "\<lambda>x. 0"]
    by simp
qed

subsection \<open>Creating and opening\<close>

lemma wr_zero_wr_zero: "wr_zero (wr_zero m a n) (a + n) k = wr_zero m a (n + k)"
  by (rule ext) (auto simp add: wr_zero_def)

lemma wr_zero_0: "wr_zero m a 0 = m"
  by (rule ext) (auto simp add: wr_zero_def)

lemma create_blocks_loop_ok:
  "sys_write_ok env \<Longrightarrow> pos \<le> fsize f \<Longrightarrow>
     create_blocks_loop env f pos n =
       (True, f\<lparr>contents := wr_zero (contents f) pos (sizeof_stat_file_block * unat n),
                fsize := max (fsize f) (pos + sizeof_stat_file_block * unat n)\<rparr>)"
proof (induction env f pos n rule: create_blocks_loop.induct)
  case (1 env f pos n)
  show ?case
  proof (cases "n = 0")
    case True
    then show ?thesis
      using "1.prems" by (subst create_blocks_loop.simps) (simp add: wr_zero_0 max_def)
  next
    case nz: False
    show ?thesis
    proof (cases "256 < n")
      case True
      have u: "unat (n - 256) = unat n - 256" and ge: "256 \<le> unat n"
        using True by unat_arith+
      have "create_blocks_loop env f pos n =
          create_blocks_loop env (file_write_zero f pos (sizeof_stat_file_block * 256))
            (pos + sizeof_stat_file_block * 256) (n - 256)"
        using nz True "1.prems" by (subst create_blocks_loop.simps) simp
      also have "\<dots> = (True, (file_write_zero f pos (sizeof_stat_file_block * 256))
          \<lparr>contents := wr_zero (contents (file_write_zero f pos (sizeof_stat_file_block * 256)))
               (pos + sizeof_stat_file_block * 256) (sizeof_stat_file_block * unat (n - 256)),
           fsize := max (fsize (file_write_zero f pos (sizeof_stat_file_block * 256)))
               (pos + sizeof_stat_file_block * 256 + sizeof_stat_file_block * unat (n - 256))\<rparr>)"
        using nz True "1.prems" by (intro "1.IH"(1)) (simp_all add: file_write_zero_def)
      also have "\<dots> = (True, f\<lparr>contents := wr_zero (contents f) pos (sizeof_stat_file_block * unat n),
                fsize := max (fsize f) (pos + sizeof_stat_file_block * unat n)\<rparr>)"
      proof -
        have "4096 + 16 * unat (n - 256) = 16 * unat n"
          using u ge by simp
        then show ?thesis
          by (simp add: file_write_zero_def wr_zero_wr_zero add.assoc max_def
              sizeof_stat_file_block_def)
      qed
      finally show ?thesis .
    next
      case False
      have u: "unat (n - 1) = unat n - 1" and ge: "1 \<le> unat n"
        using nz by unat_arith+
      have "create_blocks_loop env f pos n =
          create_blocks_loop env (file_write_zero f pos sizeof_stat_file_block)
            (pos + sizeof_stat_file_block) (n - 1)"
        using nz False "1.prems" by (subst create_blocks_loop.simps) simp
      also have "\<dots> = (True, (file_write_zero f pos sizeof_stat_file_block)
          \<lparr>contents := wr_zero (contents (file_write_zero f pos sizeof_stat_file_block))
               (pos + sizeof_stat_file_block) (sizeof_stat_file_block * unat (n - 1)),
           fsize := max (fsize (file_write_zero f pos sizeof_stat_file_block))
               (pos + sizeof_stat_file_block + sizeof_stat_file_block * unat (n - 1))\<rparr>)"
        using nz False "1.prems" by (intro "1.IH"(2)) (simp_all add: file_write_zero_def)
      also have "\<dots> = (True, f\<lparr>contents := wr_zero (contents f) pos (sizeof_stat_file_block * unat n),
                fsize := max (fsize f) (pos + sizeof_stat_file_block * unat n)\<rparr>)"
      proof -
        have "16 + 16 * unat (n - 1) = 16 * unat n"
          using u ge by simp
        then show ?thesis
          by (simp add: file_write_zero_def wr_zero_wr_zero add.assoc max_def
              sizeof_stat_file_block_def)
      qed
      finally show ?thesis .
    qed
  qed
qed

lemma statfile_pool_create_ok:
  assumes "sys_open_ok env" and "sys_write_ok env"
    and "statfile_pool_is_open pool fname = None"
    and "of_nat sizeof_stat_file \<le> sz"
  shows "statfile_pool_create env pool fs fname sz = (0, fs(fname \<mapsto> created_file env sz))"
proof -
  have ge: "\<not> sz < of_nat (sizeof_stat_file_header + sizeof_stat_file_section + sizeof_stat_file_block)"
    using assms(4) by (simp add: sizeof_stat_file_def not_less)
  show ?thesis
    using assms(1,2,3) ge
    by (simp add: statfile_pool_create_def Let_def create_blocks_loop_ok rspamd_fallocate_def
        created_file_def created_header_def created_section_def create_nblocks_def max_def
        sizeofs)
qed

lemma wr_zero_outside: "x < a \<or> a + n \<le> x \<Longrightarrow> wr_zero m a n x = m x"
  by (auto simp add: wr_zero_def)

lemma wr_zero_inside: "a \<le> x \<Longrightarrow> x < a + n \<Longrightarrow> wr_zero m a n x = 0"
  by (simp add: wr_zero_def)

lemma wr_section_outside: "x < a \<or> a + 16 \<le> x \<Longrightarrow> wr_section m a s x = m x"
  by (auto simp add: wr_section_def wr64_outside)

lemma rd_section_wr_section: "rd_section (wr_section m a s) a = s"
proof -
  have "rd64 (wr_section m a s) a = scode s"
  proof -
    have "rd64 (wr_section m a s) a = rd64 (wr64 m a (scode s)) a"
      unfolding wr_section_def by (rule rd64_cong) (simp add: wr64_outside)
    then show ?thesis by (simp add: rd64_wr64_same)
  qed
  moreover have "rd64 (wr_section m a s) (a + 8) = slength s"
    by (simp add: wr_section_def rd64_wr64_same)
  ultimately show ?thesis by (simp add: rd_section_def)
qed

lemma rd_section_cong:
  "(\<And>x. a \<le> x \<Longrightarrow> x < a + 16 \<Longrightarrow> m x = m' x) \<Longrightarrow> rd_section m a = rd_section m' a"
  by (simp add: rd_section_def rd64_def rd32_def)

lemma wr_header_outside:
  "x < a \<or> a + sizeof_stat_file_header \<le> x \<Longrightarrow> wr_header m a h x = m x"
  by (auto simp add: wr_header_def Let_def wr64_outside wr_zero_outside header_offs sizeofs)

lemma wr_header_magic:
  "wr_header m a h a = magic h ! 0" "wr_header m a h (a + 1) = magic h ! 1"
  "wr_header m a h (a + 2) = magic h ! 2" "wr_header m a h (a + 3) = version h ! 0"
  "wr_header m a h (a + 4) = version h ! 1"
  by (simp_all add: wr_header_def Let_def wr64_outside header_offs)

lemma rd64_wr_header:
  "rd64 (wr_header m a h) (a + off_create_time) = create_time h"
  "rd64 (wr_header m a h) (a + off_revision) = revision h"
  "rd64 (wr_header m a h) (a + off_rev_time) = rev_time h"
  "rd64 (wr_header m a h) (a + off_used_blocks) = used_blocks h"
  "rd64 (wr_header m a h) (a + off_total_blocks) = total_blocks h"
  by (simp_all add: wr_header_def Let_def header_offs rd64_wr64_same rd64_wr64_other)

text \<open>The bytes of a created file.\<close>

lemma created_contents_low:
  "x < sizeof_stat_file_header \<Longrightarrow>
     contents (created_file env sz) x = wr_header (\<lambda>x. 0) 0 (created_header env sz) x"
  by (simp add: created_file_def wr_zero_outside wr_section_outside sizeofs)

lemma created_magic:
  "contents (created_file env sz) 0 = 0x72" "contents (created_file env sz) (Suc 0) = 0x73"
  "contents (created_file env sz) 2 = 0x64" "contents (created_file env sz) 3 = 0x31"
  "contents (created_file env sz) 4 = 0x32"
  by (simp_all add: created_contents_low sizeofs created_header_def wr_header_def Let_def
      wr64_outside header_offs)

lemma created_header_fields:
  "rd64 (contents (created_file env sz)) off_create_time = sys_time env"
  "rd64 (contents (created_file env sz)) off_revision = 0"
  "rd64 (contents (created_file env sz)) off_rev_time = 0"
  "rd64 (contents (created_file env sz)) off_used_blocks = 0"
  "rd64 (contents (created_file env sz)) off_total_blocks = ucast (create_nblocks sz)"
proof -
  have eq: "\<And>a. a + 8 \<le> sizeof_stat_file_header \<Longrightarrow>
      rd64 (contents (created_file env sz)) a = rd64 (wr_header (\<lambda>x. 0) 0 (created_header env sz)) a"
    by (rule rd64_cong) (simp add: created_contents_low)
  show "rd64 (contents (created_file env sz)) off_create_time = sys_time env"
    "rd64 (contents (created_file env sz)) off_revision = 0"
    "rd64 (contents (created_file env sz)) off_rev_time = 0"
    "rd64 (contents (created_file env sz)) off_used_blocks = 0"
    "rd64 (contents (created_file env sz)) off_total_blocks = ucast (create_nblocks sz)"
    using rd64_wr_header [of "\<lambda>x. 0" 0 "created_header env sz"]
    by (simp_all add: eq header_offs sizeofs created_header_def)
qed

lemma created_section_read:
  "rd_section (contents (created_file env sz)) sizeof_stat_file_header = created_section sz"
proof -
  have "rd_section (contents (created_file env sz)) sizeof_stat_file_header
      = rd_section (wr_section (wr_header (\<lambda>x. 0) 0 (created_header env sz)) sizeof_stat_file_header
            (created_section sz)) sizeof_stat_file_header"
    by (rule rd_section_cong) (simp add: created_file_def wr_zero_outside sizeofs)
  then show ?thesis by (simp add: rd_section_wr_section)
qed

lemma created_blocks_zero:
  assumes "sizeof_stat_file_header + sizeof_stat_file_section \<le> x"
  shows "contents (created_file env sz) x = 0"
proof (cases "x < sizeof_stat_file_header + sizeof_stat_file_section
                  + sizeof_stat_file_block * unat (create_nblocks sz)")
  case True
  then show ?thesis using assms by (simp add: created_file_def wr_zero_inside)
next
  case False
  then show ?thesis using assms
    by (simp add: created_file_def wr_zero_outside wr_section_outside wr_header_outside sizeofs)
qed

lemma created_block_read:
  "sizeof_stat_file_header + sizeof_stat_file_section \<le> a \<Longrightarrow>
     rd_block (contents (created_file env sz)) a = \<lparr>hash1 = 0, hash2 = 0, bvalue = 0\<rparr>"
proof -
  assume a: "sizeof_stat_file_header + sizeof_stat_file_section \<le> a"
  have "rd_block (contents (created_file env sz)) a = rd_block (\<lambda>x. 0) a"
    using a by (intro rd_block_cong) (simp add: created_blocks_zero)
  then show ?thesis by (simp add: rd_block_zero)
qed

lemma lfind_append:
  "lfind P (xs @ [x]) =
     (case lfind P xs of Some i \<Rightarrow> Some i | None \<Rightarrow> if P x then Some (length xs) else None)"
  by (induction xs) (auto split: option.splits)

lemma check_valid:
  assumes "valid_statfile df"
  shows "rspamd_mmaped_file_check env
           (zero_file\<lparr>fd := sys_fd env, map_ptr := Some (contents df),
                      filename := rspamd_strlcpy PATH_MAX fname, len := of_nat (fsize df)\<rparr>)
         = Inr (0, (opened_handle env fname df)\<lparr>open_time := 0, access_time := 0\<rparr>)"
proof -
  have len: "\<not> (of_nat (fsize df) :: 64 word) < of_nat sizeof_stat_file"
    using assms by (simp add: valid_statfile_def not_less)
  have "(320 :: 64 word) \<le> of_nat (fsize df)"
    using assms by (simp add: valid_statfile_def sizeofs)
  then have "320 \<le> uint (of_nat (fsize df) :: 64 word)"
    by (simp add: word_le_def)
  then have inb: "in_map (of_nat (fsize df)) (int sizeof_stat_file_header) sizeof_stat_file_section"
    by (simp add: in_map_def sizeofs)
  show ?thesis
    using assms len inb
    by (simp add: rspamd_mmaped_file_check_def valid_statfile_def zero_file_def off_version_def
        opened_handle_def Let_def)
qed

lemma take_Suc_update:
  "i < length xs \<Longrightarrow> take (Suc i) (xs[i := x]) = take i xs @ [x]"
  by (simp add: take_Suc_conv_app_nth)

lemma statfile_pool_open_map_valid:
  assumes valid: "valid_statfile df"
    and sys: "sys_open_ok env" "sys_mmap_ok env"
    and closed: "statfile_pool_is_open pool fname = None"
    and room: "0 \<le> opened pool" "nat (opened pool) < length (files pool)"
  shows "statfile_pool_open_map env pool fs fname df =
           Inr (Some (nat (opened pool)), pool_with env pool (opened_handle env fname df), fs)"
proof -
  let ?idx = "nat (opened pool)"
  let ?h = "opened_handle env fname df"
  let ?key = "rspamd_strlcpy PATH_MAX fname"
  have none: "lfind (cmpstatfile ?key) (take ?idx (files pool)) = None"
    using closed by (simp add: statfile_pool_is_open_def)
  have n1: "nat (opened pool + 1) = Suc ?idx" using room(1) by simp
  have "take (nat (opened pool + 1)) ((files pool)[?idx := ?h]) = take ?idx (files pool) @ [?h]"
    unfolding n1 using room(2) by (rule take_Suc_update)
  moreover have "length (take ?idx (files pool)) = ?idx" using room(2) by simp
  ultimately have found: "lfind (cmpstatfile ?key) (take (nat (opened pool + 1)) ((files pool)[?idx := ?h]))
      = Some ?idx"
    using none by (simp add: lfind_append cmpstatfile_def opened_handle_def)
  have h: "(opened_handle env fname df)\<lparr>open_time := sys_time env, access_time := sys_time env\<rparr> = ?h"
    by (simp add: opened_handle_def)
  show ?thesis
    using sys room found
    by (cases pool)
       (auto simp add: statfile_pool_open_map_def Let_def check_valid [OF valid] h pool_with_def
        statfile_pool_is_open_def)
qed

lemma sint_small:
  fixes x :: "64 word"
  assumes "unat x < 2 ^ 63"
  shows "sint x = int (unat x)"
proof -
  have "uint x < 2 ^ 63" using assms
    by (metis of_nat_less_numeral_power_cancel_iff of_nat_unat)
  moreover have "- (2 ^ 63) \<le> uint x" by (rule order_trans [of _ 0]) simp_all
  ultimately have "signed_take_bit 63 (uint x) = uint x"
    by (intro signed_take_bit_int_eq_self) simp_all
  then show ?thesis by (simp add: sint_uint)
qed

lemma unat_of_nat64: "n < 2 ^ 64 \<Longrightarrow> unat (of_nat n :: 64 word) = n"
  by (simp add: unat_of_nat)

lemma unat_create_nblocks:
  assumes "320 \<le> unat sz"
  shows "unat (create_nblocks sz) = ((unat sz - 304) div 16) mod 2 ^ 32"
proof -
  have a: "(304 :: 64 word) \<le> sz" using assms by (simp add: word_le_nat_alt)
  have "sz - 288 - 16 = sz - 304" by simp
  then have "unat (sz - 288 - 16) = unat sz - 304"
    using a by (simp add: unat_sub)
  then have "unat ((sz - 288 - 16) div 16) = (unat sz - 304) div 16"
    by (simp add: unat_div)
  then show ?thesis
    by (simp add: create_nblocks_def sizeofs unsigned_ucast_eq take_bit_eq_mod)
qed

lemma unat_create_nblocks_small:
  assumes "320 \<le> unat sz" and "unat sz < 304 + 16 * 2 ^ 32"
  shows "unat (create_nblocks sz) = (unat sz - 304) div 16"
proof -
  have "(unat sz - 304) div 16 < 2 ^ 32" using assms by simp
  then show ?thesis using unat_create_nblocks [OF assms(1)] by simp
qed

lemma fsize_created:
  "fsize (created_file env sz) = 304 + 16 * unat (create_nblocks sz)"
  by (simp add: created_file_def sizeofs)

lemma unat_create_nblocks_less: "unat (create_nblocks sz) < 2 ^ 32"
  using unsigned_less [of "create_nblocks sz", where ?'a = nat] by simp

lemma unat_fsize_created:
  "unat (of_nat (fsize (created_file env sz)) :: 64 word) = 304 + 16 * unat (create_nblocks sz)"
proof -
  have "304 + 16 * unat (create_nblocks sz) < 2 ^ 64"
    using unat_create_nblocks_less [of sz] by simp
  then show ?thesis unfolding fsize_created by (rule unat_of_nat64)
qed

lemma created_valid:
  assumes "0 < unat (create_nblocks sz)"
  shows "valid_statfile (created_file env sz)"
proof -
  let ?N = "unat (create_nblocks sz)"
  have sz: "unat (of_nat (fsize (created_file env sz)) :: 64 word) = 304 + 16 * ?N"
    by (rule unat_fsize_created)
  have a: "of_nat sizeof_stat_file \<le> (of_nat (fsize (created_file env sz)) :: 64 word)"
    using assms by (simp add: word_le_nat_alt sz sizeofs)
  have "unat (ucast (create_nblocks sz) :: 64 word) = ?N" by (rule unat_ucast_32_64)
  moreover have "?N * 16 < 2 ^ 64" using unat_create_nblocks_less [of sz] by simp
  ultimately have "unat ((ucast (create_nblocks sz) :: 64 word) * 16) = ?N * 16"
    by (simp add: unat_word_ariths)
  then have "\<not> (ucast (create_nblocks sz) :: 64 word) * 16
          > (of_nat (fsize (created_file env sz)) :: 64 word)"
    by (simp add: word_less_nat_alt sz)
  then have b: "\<not> slength (rd_section (contents (created_file env sz)) sizeof_stat_file_header)
          * of_nat sizeof_stat_file_block > (of_nat (fsize (created_file env sz)) :: 64 word)"
    by (simp add: created_section_read created_section_def sizeof_stat_file_block_def)
  show ?thesis
    unfolding valid_statfile_def using a b by (simp add: created_magic)
qed

lemma uint_less_63:
  fixes x :: "64 word"
  assumes "unat x < 2 ^ 63"
  shows "uint x < 9223372036854775808"
proof -
  have "uint x < 2 ^ 63" using assms
    by (metis of_nat_less_numeral_power_cancel_iff of_nat_unat)
  then show ?thesis by simp
qed

lemma sint_diff_small:
  fixes x y :: "64 word"
  assumes "unat x < 2 ^ 63" and "unat y < 2 ^ 63"
  shows "sint (x - y) = uint x - uint y"
proof -
  have ax: "uint x < 9223372036854775808" and ay: "uint y < 9223372036854775808"
    using assms by (simp_all add: uint_less_63)
  have x: "sint x = uint x" and y: "sint y = uint y"
    using assms sint_small [of x] sint_small [of y] by simp_all
  have gx: "0 \<le> uint x" and gy: "0 \<le> uint y" by simp_all
  have "- 9223372036854775808 \<le> uint x - uint y" using ax ay gx gy by linarith
  then have lo: "- (2 ^ 63) \<le> uint x - uint y" by simp
  have "uint x - uint y < 9223372036854775808" using ax ay gx gy by linarith
  then have hi: "uint x - uint y < 2 ^ 63" by simp
  have "sint (x - y) = signed_take_bit 63 (sint x - sint y)"
    by (simp add: sint_word_ariths)
  also have "\<dots> = uint x - uint y"
    unfolding x y using lo hi by (intro signed_take_bit_int_eq_self) simp_all
  finally show ?thesis .
qed

lemma labs_small:
  fixes x y :: "64 word"
  assumes "unat x < 2 ^ 63" and "unat y < 2 ^ 63"
  shows "\<exists>d. labs (x - y) = Inr d \<and> sint d = \<bar>uint x - uint y\<bar>"
proof -
  have s: "sint (x - y) = uint x - uint y"
    using assms by (rule sint_diff_small)
  have s': "sint (y - x) = uint y - uint x"
    using assms(2,1) by (rule sint_diff_small)
  have ax: "uint x < 9223372036854775808" and ay: "uint y < 9223372036854775808"
    using assms by (simp_all add: uint_less_63)
  have ne: "x - y \<noteq> 0x8000000000000000"
  proof
    assume "x - y = 0x8000000000000000"
    then have "sint (x - y) = - 9223372036854775808" by simp
    moreover have "0 \<le> uint x" and "0 \<le> uint y" by simp_all
    ultimately show False using s ax ay by linarith
  qed
  have "- (x - y) = y - x" by simp
  then show ?thesis
    using ne s s' by (simp add: labs_def)
qed

lemma is_open_empty_pool: "statfile_pool_is_open empty_pool fname = None"
  by (simp add: statfile_pool_is_open_def empty_pool_def)


lemma open_with_closed:
  assumes "statfile_pool_is_open pool fname = None" and "opened pool < STATFILES_MAX - 1"
    and "fs fname = Some df"
  shows "statfile_pool_open_with reindex env pool fs fname sz forced =
     (if forced then statfile_pool_open_map env pool fs fname df
      else (case labs (sz - of_nat (fsize df)) of
              Inl e \<Rightarrow> Inl e
            | Inr d \<Rightarrow>
                if sint d > int sizeof_stat_file * 2 \<and> sz > of_nat sizeof_stat_file
                then reindex pool fs fname (of_nat (fsize df)) sz
                else statfile_pool_open_map env pool fs fname df))"
  using assms by (simp add: statfile_pool_open_with_def Let_def split: sum.splits bool.splits)

lemma uint_of_nat_fsize: "n < 2 ^ 63 \<Longrightarrow> uint (of_nat n :: 64 word) = int n"
proof -
  assume "n < 2 ^ 63"
  then have "n < 2 ^ 64" by (rule order_less_trans) simp
  then have "unat (of_nat n :: 64 word) = n" by (rule unat_of_nat64)
  then show ?thesis by (simp add: uint_nat)
qed

text \<open>
  Claim C7, as the code has it. \<open>statfile_pool_open\<close>, not forced, of a file that exists
  and is not open yet, in a pool below its limit (sizes below \<open>2^63\<close>, as an \<open>off_t\<close>
  holds them): it reindexes to the requested size exactly when
  \<open>|size_on_disk - requested_size| > 2 * sizeof (struct stat_file)\<close> and
  \<open>requested_size > sizeof (struct stat_file)\<close>, where \<open>sizeof (struct stat_file)\<close> is the
  header, one section header and one block, 320 bytes; otherwise it goes on to open and
  map the file, and a valid statfile is then mapped whole, at its size on disk.
\<close>

theorem open_reindex_trigger:
  assumes closed: "statfile_pool_is_open pool fname = None"
    and below: "opened pool < STATFILES_MAX - 1"
    and exists: "fs fname = Some df"
    and small: "unat sz < 2 ^ 63" "fsize df < 2 ^ 63"
  shows "statfile_pool_open env pool fs fname sz False =
     (if \<bar>uint sz - int (fsize df)\<bar> > 2 * int sizeof_stat_file \<and> unat sz > sizeof_stat_file
      then rspamd_mmaped_file_reindex env pool fs fname (of_nat (fsize df)) sz
      else statfile_pool_open_map env pool fs fname df)
    \<and> (valid_statfile df \<and> sys_open_ok env \<and> sys_mmap_ok env \<and> 0 \<le> opened pool
          \<and> nat (opened pool) < length (files pool) \<longrightarrow>
        statfile_pool_open_map env pool fs fname df =
          Inr (Some (nat (opened pool)), pool_with env pool (opened_handle env fname df), fs)
        \<and> map_ptr (opened_handle env fname df) = Some (contents df)
        \<and> len (opened_handle env fname df) = of_nat (fsize df))"
proof -
  have u: "unat (of_nat (fsize df) :: 64 word) < 2 ^ 63"
    using small(2) by (simp add: unat_of_nat64 order_less_trans [of _ "2 ^ 63" "2 ^ 64"])
  obtain d where d: "labs (sz - of_nat (fsize df)) = Inr d"
    "sint d = \<bar>uint sz - uint (of_nat (fsize df) :: 64 word)\<bar>"
    using labs_small [OF small(1) u] by blast
  have d': "sint d = \<bar>uint sz - int (fsize df)\<bar>"
    using d(2) small(2) by (simp add: uint_of_nat_fsize)
  have gt: "sz > of_nat sizeof_stat_file \<longleftrightarrow> unat sz > sizeof_stat_file"
    by (simp add: word_less_nat_alt sizeofs)
  have part1: "statfile_pool_open env pool fs fname sz False =
     (if \<bar>uint sz - int (fsize df)\<bar> > 2 * int sizeof_stat_file \<and> unat sz > sizeof_stat_file
      then rspamd_mmaped_file_reindex env pool fs fname (of_nat (fsize df)) sz
      else statfile_pool_open_map env pool fs fname df)"
    unfolding statfile_pool_open_def
    using open_with_closed [of pool fname fs df "rspamd_mmaped_file_reindex env" env sz False,
        OF closed below exists] d(1) d' gt
    by (simp add: mult.commute)
  have part2: "valid_statfile df \<and> sys_open_ok env \<and> sys_mmap_ok env \<and> 0 \<le> opened pool
          \<and> nat (opened pool) < length (files pool) \<longrightarrow>
        statfile_pool_open_map env pool fs fname df =
          Inr (Some (nat (opened pool)), pool_with env pool (opened_handle env fname df), fs)
        \<and> map_ptr (opened_handle env fname df) = Some (contents df)
        \<and> len (opened_handle env fname df) = of_nat (fsize df)"
    using statfile_pool_open_map_valid [of df env pool fname fs] closed
    by (simp add: opened_handle_def)
  from part1 part2 show ?thesis by blast
qed

lemma create_nblocks_992: "create_nblocks 992 = 43"
  by (simp add: create_nblocks_def sizeofs)

lemma fsize_demo: "fsize (created_file good_env 992) = 992"
  by (simp add: fsize_created create_nblocks_992)

lemma valid_demo: "valid_statfile (created_file good_env 992)"
  by (rule created_valid) (simp add: create_nblocks_992)

theorem open_reindex_trigger_witness:
  "statfile_pool_is_open empty_pool ''statfile'' = None
   \<and> opened empty_pool < STATFILES_MAX - 1
   \<and> demo_fs ''statfile'' = Some (created_file good_env 992)
   \<and> valid_statfile (created_file good_env 992)
   \<and> statfile_pool_open good_env empty_pool demo_fs ''statfile'' 992 False
       = Inr (Some 0, pool_with good_env empty_pool
                (opened_handle good_env ''statfile'' (created_file good_env 992)), demo_fs)
   \<and> statfile_pool_open good_env empty_pool demo_fs ''statfile'' 2000 False
       = rspamd_mmaped_file_reindex good_env empty_pool demo_fs ''statfile'' 992 2000"
proof -
  have closed: "statfile_pool_is_open empty_pool ''statfile'' = None"
    by (rule is_open_empty_pool)
  have below: "opened empty_pool < STATFILES_MAX - 1"
    by (simp add: empty_pool_def STATFILES_MAX_def)
  have exists: "demo_fs ''statfile'' = Some (created_file good_env 992)"
    by (simp add: demo_fs_def)
  have s1: "unat (992 :: 64 word) < 2 ^ 63" and s2: "unat (2000 :: 64 word) < 2 ^ 63"
    and s3: "fsize (created_file good_env 992) < 2 ^ 63"
    by (simp_all add: fsize_demo)
  have sys: "sys_open_ok good_env \<and> sys_mmap_ok good_env \<and> 0 \<le> opened empty_pool
      \<and> nat (opened empty_pool) < length (files empty_pool)"
    by (simp add: good_env_def empty_pool_def)
  show ?thesis
    using closed below exists valid_demo sys
      open_reindex_trigger [where pool = empty_pool and fname = "''statfile''" and fs = demo_fs
        and df = "created_file good_env 992" and sz = 992 and env = good_env,
        OF closed below exists s1 s3]
      open_reindex_trigger [where pool = empty_pool and fname = "''statfile''" and fs = demo_fs
        and df = "created_file good_env 992" and sz = 2000 and env = good_env,
        OF closed below exists s2 s3]
    by (simp add: fsize_demo sizeofs empty_pool_def)
qed

text \<open>
  The claim C7 as it is stated, with \<open>sizeof (Header)\<close> for the threshold, fails:
  the file on disk has 992 bytes and 1592 are requested. The difference, 600, is above
  twice the size of the header (288 bytes in the code, 256 in the spec) and the
  requested size is above the size of the header, but the code does not reindex. It
  maps the file as it is: the handle has the 992 bytes of the file on disk, and the
  file system is as before.
\<close>

theorem open_reindex_trigger_counterexample:
  "\<bar>uint (1592 :: 64 word) - int (fsize (created_file good_env 992))\<bar> > 2 * int sizeof_stat_file_header
   \<and> unat (1592 :: 64 word) > sizeof_stat_file_header
   \<and> statfile_pool_open good_env empty_pool demo_fs ''statfile'' 1592 False
       = Inr (Some 0, pool_with good_env empty_pool
                (opened_handle good_env ''statfile'' (created_file good_env 992)), demo_fs)
   \<and> len (opened_handle good_env ''statfile'' (created_file good_env 992)) = 992"
proof -
  have closed: "statfile_pool_is_open empty_pool ''statfile'' = None"
    by (rule is_open_empty_pool)
  have below: "opened empty_pool < STATFILES_MAX - 1"
    by (simp add: empty_pool_def STATFILES_MAX_def)
  have exists: "demo_fs ''statfile'' = Some (created_file good_env 992)"
    by (simp add: demo_fs_def)
  have "statfile_pool_open_with (rspamd_mmaped_file_reindex good_env) good_env empty_pool demo_fs
          ''statfile'' 1592 False
        = statfile_pool_open_map good_env empty_pool demo_fs ''statfile'' (created_file good_env 992)"
    using open_with_closed [of empty_pool "''statfile''" demo_fs "created_file good_env 992"
        "rspamd_mmaped_file_reindex good_env" good_env 1592 False, OF closed below exists]
    by (simp add: fsize_demo labs_def sizeofs)
  moreover have "statfile_pool_open_map good_env empty_pool demo_fs ''statfile'' (created_file good_env 992)
      = Inr (Some 0, pool_with good_env empty_pool
                (opened_handle good_env ''statfile'' (created_file good_env 992)), demo_fs)"
    using statfile_pool_open_map_valid [where df = "created_file good_env 992" and env = good_env
        and pool = empty_pool and fname = "''statfile''" and fs = demo_fs, OF valid_demo _ _ closed]
    by (simp add: good_env_def empty_pool_def)
  ultimately show ?thesis
    by (simp add: statfile_pool_open_def fsize_demo sizeofs opened_handle_def)
qed

subsection \<open>The capacity of a created statfile\<close>

lemma ucast_create_nblocks:
  "(ucast (create_nblocks sz) :: 64 word) = of_nat (unat (create_nblocks sz))"
proof -
  have "unat (ucast (create_nblocks sz) :: 64 word) = unat (create_nblocks sz)"
    by (rule unat_ucast_32_64)
  then show ?thesis by (metis of_nat_unat ucast_id)
qed

lemma get_total_blocks_opened:
  assumes "valid_statfile df" and "rd64 (contents df) off_total_blocks \<noteq> 0"
  shows "statfile_get_total_blocks (Some (opened_handle env fname df))
     = Inr (rd64 (contents df) off_total_blocks, Some (opened_handle env fname df))"
proof -
  have "(320 :: 64 word) \<le> of_nat (fsize df)"
    using assms(1) by (simp add: valid_statfile_def sizeofs)
  then have "320 \<le> uint (of_nat (fsize df) :: 64 word)"
    by (simp add: word_le_def)
  then have inb: "in_map (len (opened_handle env fname df)) (int off_total_blocks) 8"
    by (simp add: in_map_def opened_handle_def off_total_blocks_def)
  have "(opened_handle env fname df)\<lparr>map_ptr := Some (contents df)\<rparr> = opened_handle env fname df"
    by (simp add: opened_handle_def)
  then show ?thesis
    using inb assms(2) by (simp add: statfile_get_total_blocks_def opened_handle_def Let_def)
qed

lemma open_created:
  assumes sys: "sys_open_ok env" "sys_mmap_ok env"
    and closed: "statfile_pool_is_open pool fname = None"
    and room: "0 \<le> opened pool" "opened pool < STATFILES_MAX - 1"
      "nat (opened pool) < length (files pool)"
    and sz: "320 \<le> unat sz" "unat sz < 304 + 16 * 2 ^ 32"
    and fs: "fs fname = Some (created_file env' sz)"
  shows "statfile_pool_open env pool fs fname sz False =
     Inr (Some (nat (opened pool)),
          pool_with env pool (opened_handle env fname (created_file env' sz)), fs)"
proof -
  let ?df = "created_file env' sz"
  let ?N = "unat (create_nblocks sz)"
  have N: "?N = (unat sz - 304) div 16" using sz by (rule unat_create_nblocks_small)
  then have Npos: "0 < ?N" using sz(1) by simp
  have valid: "valid_statfile ?df" using Npos by (rule created_valid)
  have fsz: "fsize ?df = 304 + 16 * ?N" by (rule fsize_created)
  have le: "fsize ?df \<le> unat sz" and near: "unat sz < fsize ?df + 16"
    using sz(1) by (simp_all add: fsz N)
  have small: "unat sz < 2 ^ 63" using sz(2) by simp
  have fsmall: "fsize ?df < 2 ^ 63" using le small by linarith
  have u: "unat (of_nat (fsize ?df) :: 64 word) < 2 ^ 63"
    using fsmall by (simp add: unat_of_nat64 order_less_trans [of _ "2 ^ 63" "2 ^ 64"])
  obtain d where d: "labs (sz - of_nat (fsize ?df)) = Inr d"
    "sint d = \<bar>uint sz - uint (of_nat (fsize ?df) :: 64 word)\<bar>"
    using labs_small [OF small u] by blast
  have us: "uint sz = int (unat sz)" by (rule uint_nat)
  have d': "sint d = \<bar>uint sz - int (fsize ?df)\<bar>"
    using d(2) fsmall by (simp add: uint_of_nat_fsize)
  have "int (fsize ?df) \<le> uint sz" and "uint sz < int (fsize ?df) + 16"
    unfolding us using le near by linarith+
  then have "sint d < 16" unfolding d' by linarith
  then have no: "\<not> (sint d > int sizeof_stat_file * 2 \<and> sz > of_nat sizeof_stat_file)"
    by (simp add: sizeofs)
  have "statfile_pool_open env pool fs fname sz False = statfile_pool_open_map env pool fs fname ?df"
    unfolding statfile_pool_open_def
    using open_with_closed [of pool fname fs ?df "rspamd_mmaped_file_reindex env" env sz False,
        OF closed room(2) fs] d(1) no
    by simp
  then show ?thesis
    using statfile_pool_open_map_valid [OF valid sys closed room(1,3), of fs] by simp
qed

text \<open>
  Claim C4, as the code has it. For every size \<open>S\<close> that \<open>statfile_pool_create\<close> accepts
  (at least \<open>sizeof (struct stat_file)\<close>, 320 bytes), creating a statfile of size \<open>S\<close>
  writes a header whose \<open>total_blocks\<close> is \<open>(S - 288 - 16) / 16\<close>, cut to the 32 bits of
  the \<open>guint nblocks\<close>: the header has 288 bytes, not 256. Where that number fits 32
  bits, opening the file back yields a handle for which \<open>statfile_get_total_blocks\<close>
  returns the same count.
\<close>

theorem create_capacity:
  assumes sys: "sys_open_ok env" "sys_write_ok env"
    and closed: "statfile_pool_is_open pool fname = None"
    and accepted: "sizeof_stat_file \<le> unat sz"
  shows "statfile_pool_create env pool fs fname sz = (0, fs(fname \<mapsto> created_file env sz))
    \<and> rd64 (contents (created_file env sz)) off_total_blocks
        = of_nat (((unat sz - sizeof_stat_file_header - sizeof_stat_file_section)
                     div sizeof_stat_file_block) mod 2 ^ 32)
    \<and> (unat sz < 304 + 16 * 2 ^ 32 \<and> sys_mmap_ok env \<and> 0 \<le> opened pool
          \<and> opened pool < STATFILES_MAX - 1 \<and> nat (opened pool) < length (files pool) \<longrightarrow>
        rd64 (contents (created_file env sz)) off_total_blocks = of_nat ((unat sz - 288 - 16) div 16)
        \<and> statfile_pool_open env pool (fs(fname \<mapsto> created_file env sz)) fname sz False
            = Inr (Some (nat (opened pool)),
                   pool_with env pool (opened_handle env fname (created_file env sz)),
                   fs(fname \<mapsto> created_file env sz))
        \<and> files (pool_with env pool (opened_handle env fname (created_file env sz)))
              ! nat (opened pool) = opened_handle env fname (created_file env sz)
        \<and> statfile_get_total_blocks (Some (opened_handle env fname (created_file env sz)))
            = Inr (of_nat ((unat sz - 288 - 16) div 16),
                   Some (opened_handle env fname (created_file env sz))))"
proof -
  have acc: "320 \<le> unat sz" using accepted by (simp add: sizeofs)
  have "(of_nat sizeof_stat_file :: 64 word) \<le> sz"
    using acc by (simp add: word_le_nat_alt sizeofs)
  then have p1: "statfile_pool_create env pool fs fname sz = (0, fs(fname \<mapsto> created_file env sz))"
    by (rule statfile_pool_create_ok [OF sys closed])
  have tb: "rd64 (contents (created_file env sz)) off_total_blocks
      = of_nat (unat (create_nblocks sz))"
    unfolding created_header_fields by (rule ucast_create_nblocks)
  have p2: "rd64 (contents (created_file env sz)) off_total_blocks
        = of_nat (((unat sz - sizeof_stat_file_header - sizeof_stat_file_section)
                     div sizeof_stat_file_block) mod 2 ^ 32)"
  proof -
    have "(unat sz - sizeof_stat_file_header - sizeof_stat_file_section) div sizeof_stat_file_block
        = (unat sz - 304) div 16"
      by (simp add: sizeofs)
    then show ?thesis
      unfolding tb unat_create_nblocks [OF acc] by (simp only:)
  qed
  have p3: "unat sz < 304 + 16 * 2 ^ 32 \<and> sys_mmap_ok env \<and> 0 \<le> opened pool
          \<and> opened pool < STATFILES_MAX - 1 \<and> nat (opened pool) < length (files pool) \<longrightarrow>
        rd64 (contents (created_file env sz)) off_total_blocks = of_nat ((unat sz - 288 - 16) div 16)
        \<and> statfile_pool_open env pool (fs(fname \<mapsto> created_file env sz)) fname sz False
            = Inr (Some (nat (opened pool)),
                   pool_with env pool (opened_handle env fname (created_file env sz)),
                   fs(fname \<mapsto> created_file env sz))
        \<and> files (pool_with env pool (opened_handle env fname (created_file env sz)))
              ! nat (opened pool) = opened_handle env fname (created_file env sz)
        \<and> statfile_get_total_blocks (Some (opened_handle env fname (created_file env sz)))
            = Inr (of_nat ((unat sz - 288 - 16) div 16),
                   Some (opened_handle env fname (created_file env sz)))"
  proof (intro impI, elim conjE)
    assume lt: "unat sz < 304 + 16 * 2 ^ 32" and mm: "sys_mmap_ok env"
      and room: "0 \<le> opened pool" "opened pool < STATFILES_MAX - 1"
        "nat (opened pool) < length (files pool)"
    have N: "unat (create_nblocks sz) = (unat sz - 304) div 16"
      using acc lt by (rule unat_create_nblocks_small)
    then have Npos: "0 < unat (create_nblocks sz)" using acc by simp
    have "unat sz - 288 - 16 = unat sz - 304" by simp
    then have a: "rd64 (contents (created_file env sz)) off_total_blocks
        = of_nat ((unat sz - 288 - 16) div 16)"
      unfolding tb N by (simp only:)
    have valid: "valid_statfile (created_file env sz)" using Npos by (rule created_valid)
    have nz: "rd64 (contents (created_file env sz)) off_total_blocks \<noteq> 0"
    proof
      assume "rd64 (contents (created_file env sz)) off_total_blocks = 0"
      then have "ucast (create_nblocks sz) = (0 :: 64 word)"
        by (simp add: created_header_fields)
      then have "unat (ucast (create_nblocks sz) :: 64 word) = 0" by simp
      then show False using Npos by (simp add: unat_ucast_32_64)
    qed
    have b: "statfile_pool_open env pool (fs(fname \<mapsto> created_file env sz)) fname sz False
            = Inr (Some (nat (opened pool)),
                   pool_with env pool (opened_handle env fname (created_file env sz)),
                   fs(fname \<mapsto> created_file env sz))"
      using sys(1) mm closed room acc lt by (intro open_created) simp_all
    have c: "files (pool_with env pool (opened_handle env fname (created_file env sz)))
              ! nat (opened pool) = opened_handle env fname (created_file env sz)"
      using room(3) by (simp add: pool_with_def)
    have d: "statfile_get_total_blocks (Some (opened_handle env fname (created_file env sz)))
            = Inr (of_nat ((unat sz - 288 - 16) div 16),
                   Some (opened_handle env fname (created_file env sz)))"
      using get_total_blocks_opened [OF valid nz, of env fname] a by simp
    from a b c d show "rd64 (contents (created_file env sz)) off_total_blocks = of_nat ((unat sz - 288 - 16) div 16)
        \<and> statfile_pool_open env pool (fs(fname \<mapsto> created_file env sz)) fname sz False
            = Inr (Some (nat (opened pool)),
                   pool_with env pool (opened_handle env fname (created_file env sz)),
                   fs(fname \<mapsto> created_file env sz))
        \<and> files (pool_with env pool (opened_handle env fname (created_file env sz)))
              ! nat (opened pool) = opened_handle env fname (created_file env sz)
        \<and> statfile_get_total_blocks (Some (opened_handle env fname (created_file env sz)))
            = Inr (of_nat ((unat sz - 288 - 16) div 16),
                   Some (opened_handle env fname (created_file env sz)))"
      by blast
  qed
  from p1 p2 p3 show ?thesis by blast
qed

theorem create_capacity_witness:
  "sys_open_ok good_env \<and> sys_write_ok good_env \<and> sys_mmap_ok good_env
   \<and> statfile_pool_is_open empty_pool ''statfile'' = None
   \<and> sizeof_stat_file \<le> unat (65536 :: 64 word)
   \<and> statfile_pool_create good_env empty_pool Map.empty ''statfile'' 65536
       = (0, [''statfile'' \<mapsto> created_file good_env 65536])
   \<and> rd64 (contents (created_file good_env 65536)) off_total_blocks = 4077
   \<and> statfile_pool_open good_env empty_pool [''statfile'' \<mapsto> created_file good_env 65536]
         ''statfile'' 65536 False
       = Inr (Some 0,
              pool_with good_env empty_pool
                (opened_handle good_env ''statfile'' (created_file good_env 65536)),
              [''statfile'' \<mapsto> created_file good_env 65536])
   \<and> statfile_get_total_blocks
         (Some (opened_handle good_env ''statfile'' (created_file good_env 65536)))
       = Inr (4077, Some (opened_handle good_env ''statfile'' (created_file good_env 65536)))"
proof -
  have sys: "sys_open_ok good_env" "sys_write_ok good_env" "sys_mmap_ok good_env"
    by (simp_all add: good_env_def)
  have closed: "statfile_pool_is_open empty_pool ''statfile'' = None"
    by (rule is_open_empty_pool)
  have acc: "sizeof_stat_file \<le> unat (65536 :: 64 word)"
    by (simp add: sizeofs)
  have room: "unat (65536 :: 64 word) < 304 + 16 * 2 ^ 32 \<and> 0 \<le> opened empty_pool
      \<and> opened empty_pool < STATFILES_MAX - 1 \<and> nat (opened empty_pool) < length (files empty_pool)"
    by (simp add: empty_pool_def STATFILES_MAX_def)
  show ?thesis
    using sys closed acc room
      create_capacity [where env = good_env and pool = empty_pool and fname = "''statfile''"
        and sz = 65536 and fs = Map.empty, OF sys(1,2) closed acc]
    by (simp add: sizeofs empty_pool_def)
qed

text \<open>
  The claim C4 as it is stated fails at its own example: a statfile created with
  65536 bytes has \<open>total_blocks = 4077\<close> in its header, while \<open>(65536 - 256 - 16) / 16\<close>
  is 4079.
\<close>

theorem create_capacity_counterexample:
  "statfile_pool_create good_env empty_pool Map.empty ''statfile'' 65536
       = (0, [''statfile'' \<mapsto> created_file good_env 65536])
   \<and> rd64 (contents (created_file good_env 65536)) off_total_blocks = 4077
   \<and> (4077 :: 64 word) \<noteq> (65536 - 256 - 16) div 16
   \<and> (65536 - 256 - 16) div 16 = (4079 :: 64 word)"
proof -
  have "(of_nat sizeof_stat_file :: 64 word) \<le> 65536"
    by (simp add: sizeofs)
  then have "statfile_pool_create good_env empty_pool Map.empty ''statfile'' 65536
       = (0, [''statfile'' \<mapsto> created_file good_env 65536])"
    using statfile_pool_create_ok [of good_env empty_pool "''statfile''" 65536 Map.empty]
      is_open_empty_pool [of "''statfile''"]
    by (simp add: good_env_def)
  moreover have "rd64 (contents (created_file good_env 65536)) off_total_blocks = 4077"
    by (simp add: created_header_fields create_nblocks_def sizeofs)
  ultimately show ?thesis by simp
qed

subsection \<open>The limit of the pool\<close>





subsection \<open>The walk over the sections\<close>

lemma two_section_second: "rd_section two_section_map 336 = \<lparr>scode = 2, slength = 1\<rparr>"
  by (simp add: two_section_map_def rd_section_wr_section)

lemma two_section_first: "rd_section two_section_map 288 = \<lparr>scode = 1, slength = 2\<rparr>"
proof -
  have "rd_section two_section_map 288 = rd_section (wr_section
             (wr_header (\<lambda>x. 0) 0
                \<lparr>magic = [0x72, 0x73, 0x64], version = [0x31, 0x32], create_time = 1600000000,
                 revision = 0, rev_time = 0, used_blocks = 1, total_blocks = 2\<rparr>)
             288 \<lparr>scode = 1, slength = 2\<rparr>) 288"
    unfolding two_section_map_def
    by (rule rd_section_cong) (simp add: wr_section_outside wr_block_outside)
  then show ?thesis by (simp add: rd_section_wr_section)
qed

lemma two_section_bytes_290:
  "rd_section two_section_map 290 = \<lparr>scode = 0x0002000000000000, slength = 0x0100000000000000\<rparr>"
proof -
  have b: "\<And>x. 288 \<le> x \<Longrightarrow> x < 320 \<Longrightarrow> two_section_map x =
      wr_block (wr_section (\<lambda>x. 0) 288 \<lparr>scode = 1, slength = 2\<rparr>) 304
        \<lparr>hash1 = 256, hash2 = 1, bvalue = 0x3FF0000000000000\<rparr> x"
    by (simp add: two_section_map_def wr_section_outside wr_block_def wr64_def wr32_def
        wr_section_def wr_header_outside sizeofs)
  have "rd_section two_section_map 290 =
      rd_section (wr_block (wr_section (\<lambda>x. 0) 288 \<lparr>scode = 1, slength = 2\<rparr>) 304
        \<lparr>hash1 = 256, hash2 = 1, bvalue = 0x3FF0000000000000\<rparr>) 290"
    by (rule rd_section_cong) (simp add: b)
  also have "\<dots> = \<lparr>scode = 0x0002000000000000, slength = 0x0100000000000000\<rparr>"
    by (simp add: rd_section_def rd64_def rd32_def wr_block_def wr_section_def wr64_def wr32_def)
  finally show ?thesis .
qed

lemma rd_section_zero: "rd_section (\<lambda>x. 0) a = \<lparr>scode = 0, slength = 0\<rparr>"
  by (simp add: rd_section_def rd64_zero)

lemma created_section_zero:
  "sizeof_stat_file_header + sizeof_stat_file_section \<le> a \<Longrightarrow>
     rd_section (contents (created_file env sz)) a = \<lparr>scode = 0, slength = 0\<rparr>"
proof -
  assume a: "sizeof_stat_file_header + sizeof_stat_file_section \<le> a"
  have "rd_section (contents (created_file env sz)) a = rd_section (\<lambda>x. 0) a"
    using a by (intro rd_section_cong) (simp add: created_blocks_zero)
  then show ?thesis by (simp add: rd_section_zero)
qed

lemma set_section_loop_stuck:
  "set_section_loop n (contents (created_file good_env 992)) 992 2 331 = None"
proof (induction n)
  case 0
  show ?case by simp
next
  case (Suc n)
  have "rd_section (contents (created_file good_env 992)) 331 = \<lparr>scode = 0, slength = 0\<rparr>"
    by (rule created_section_zero) (simp add: sizeofs)
  then show ?case using Suc
    by (simp add: in_map_def sizeofs)
qed

text \<open>
  Claim C8 against the code. In a statfile with the sections \<open>common\<close>, of two blocks,
  and \<open>headers\<close> behind it, the header of the second section lies
  \<open>2 * 16 + 16\<close> bytes behind the first, at the offset 336. \<open>statfile_pool_set_section\<close>
  for the code 2, from the beginning, reads the first section header at 288 and then
  steps by \<open>sec->length = 2\<close> bytes to the offset 290, where it reads a section header
  out of the middle of the first one, steps by the length it finds there and leaves the
  mapping: it returns \<open>FALSE\<close>, whatever fuel it is given, although the section exists.
\<close>

theorem set_section_misses_section:
  "rd_section two_section_map (288 + (2 * 16 + 16)) = \<lparr>scode = 2, slength = 1\<rparr>
   \<and> set_section_loop (Suc (Suc (Suc n))) two_section_map 368 2 288
       = set_section_loop (Suc (Suc n)) two_section_map 368 2 290
   \<and> statfile_pool_set_section (Suc (Suc (Suc n))) two_section_file 2 True
       = Some (Inr (False, two_section_file))"
proof -
  have a: "rd_section two_section_map (288 + (2 * 16 + 16)) = \<lparr>scode = 2, slength = 1\<rparr>"
    using two_section_second by simp
  have b: "set_section_loop (Suc (Suc (Suc n))) two_section_map 368 2 288
       = set_section_loop (Suc (Suc n)) two_section_map 368 2 290"
    by (simp add: in_map_def sizeofs two_section_first)
  have c: "set_section_loop (Suc (Suc n)) two_section_map 368 2 290 = Some (Inr None)"
    by (simp add: in_map_def sizeofs two_section_bytes_290)
  have "statfile_pool_set_section (Suc (Suc (Suc n))) two_section_file 2 True
       = Some (Inr (False, two_section_file))"
    unfolding statfile_pool_set_section_def
    using b c by (simp add: two_section_file_def sizeofs)
  with a b show ?thesis by blast
qed

text \<open>On a statfile as \<open>statfile_pool_create\<close> leaves it, of 43 empty blocks, the search
  for a section that is not there does not report "not found": after the step of
  \<open>sec->length = 43\<close> bytes from the first section header it reads a section header of
  length 0 among the empty blocks, at the offset 331, and stays there. No fuel suffices.\<close>

lemma set_section_never_returns:
  "statfile_pool_set_section n (opened_handle good_env ''statfile'' (created_file good_env 992))
     2 True = None"
proof (cases n)
  case 0
  then show ?thesis
    by (simp add: statfile_pool_set_section_def opened_handle_def)
next
  case (Suc k)
  have "rd_section (contents (created_file good_env 992)) 288 = \<lparr>scode = 1, slength = 43\<rparr>"
    using created_section_read [of good_env 992]
    by (simp add: sizeofs created_section_def create_nblocks_992 STATFILE_SECTION_COMMON_def)
  then have "set_section_loop (Suc k) (contents (created_file good_env 992)) 992 2 288
      = set_section_loop k (contents (created_file good_env 992)) 992 2 331"
    by (simp add: in_map_def sizeofs)
  then show ?thesis
    using Suc set_section_loop_stuck [of k]
    by (simp add: statfile_pool_set_section_def opened_handle_def fsize_demo sizeofs)
qed

subsection \<open>Reindexing\<close>

lemma set_block_common_keeps:
  assumes "statfile_pool_set_block_common file h1 h2 t v from_now = Inr file'"
  shows "len file' = len file \<and> cur_section file' = cur_section file
    \<and> seek_pos file' = seek_pos file \<and> filename file' = filename file
    \<and> (map_ptr file \<noteq> None \<longrightarrow> map_ptr file' \<noteq> None)"
  using assms
  by (auto simp add: statfile_pool_set_block_common_def Let_def
      split: option.splits sum.splits prod.splits set_exit.splits if_splits)

lemma reindex_loop_keeps:
  "reindex_loop bmap old_size pos new = Inr new1 \<Longrightarrow>
     len new1 = len new \<and> cur_section new1 = cur_section new
     \<and> seek_pos new1 = seek_pos new \<and> filename new1 = filename new
     \<and> (map_ptr new \<noteq> None \<longrightarrow> map_ptr new1 \<noteq> None)"
proof (induction bmap old_size pos new rule: reindex_loop.induct)
  case (1 bmap old_size pos new)
  show ?case
  proof (cases "of_nat sizeof_stat_file_block \<le> old_size - of_nat pos")
    case False
    with "1.prems" have "new1 = new"
      by (subst (asm) reindex_loop.simps) simp
    then show ?thesis by simp
  next
    case True
    define step where "step = (if hash1 (rd_block bmap pos) \<noteq> 0 \<and> dbl_neq (bvalue (rd_block bmap pos)) 0
                    then statfile_pool_set_block_common new (hash1 (rd_block bmap pos))
                           (hash2 (rd_block bmap pos)) 0 (bvalue (rd_block bmap pos)) False
                    else Inr new)"
    from "1.prems" True have inb: "in_map old_size (int pos) sizeof_stat_file_block"
      by (subst (asm) reindex_loop.simps) (simp split: if_splits)
    from "1.prems" True inb obtain new' where
      s: "step = Inr new'" and r: "reindex_loop bmap old_size (pos + sizeof_pointer) new' = Inr new1"
      by (subst (asm) reindex_loop.simps) (simp add: Let_def step_def split: sum.splits)
    have k1: "len new' = len new \<and> cur_section new' = cur_section new
      \<and> seek_pos new' = seek_pos new \<and> filename new' = filename new
      \<and> (map_ptr new \<noteq> None \<longrightarrow> map_ptr new' \<noteq> None)"
      using s set_block_common_keeps [of new _ _ 0 _ False new']
      by (auto simp add: step_def split: if_splits)
    have k2: "len new1 = len new' \<and> cur_section new1 = cur_section new'
      \<and> seek_pos new1 = seek_pos new' \<and> filename new1 = filename new'
      \<and> (map_ptr new' \<noteq> None \<longrightarrow> map_ptr new1 \<noteq> None)"
      using "1.IH" [OF True _ refl s [unfolded step_def] r] inb by simp
    from k1 k2 show ?thesis by simp
  qed
qed

lemma backup_neq: "fname @ ''.old'' \<noteq> fname"
  by simp

lemma reindex_run:
  assumes sys: "sys_open_ok env" "sys_write_ok env" "sys_rename_ok env" "sys_mmap_ok env"
    and closed: "statfile_pool_is_open pool fname = None"
    and room: "0 \<le> opened pool" "opened pool < STATFILES_MAX - 1"
      "nat (opened pool) < length (files pool)"
    and old: "fs fname = Some old"
    and sz: "of_nat sizeof_stat_file \<le> sz" "0 < unat (create_nblocks sz)"
  shows "rspamd_mmaped_file_reindex env pool fs fname old_size sz =
     (case reindex_loop (contents old) old_size (sizeof_stat_file - sizeof_stat_file_block)
             (opened_handle env fname (created_file env sz)) of
        Inl e \<Rightarrow> Inl e
      | Inr new1 \<Rightarrow>
          if \<not> in_map old_size (int off_revision) 16 then Inl OutOfBounds
          else
            (case statfile_set_revision (Some new1) (rd64 (contents old) off_revision)
                    (rd64 (contents old) off_rev_time) of
               Inl e \<Rightarrow> Inl e
             | Inr (ok, new2) \<Rightarrow>
                 Inr (Some (nat (opened pool)),
                   (pool_with env pool (opened_handle env fname (created_file env sz)))
                     \<lparr>files := (files (pool_with env pool
                                   (opened_handle env fname (created_file env sz))))
                        [nat (opened pool) := (case new2 of Some f \<Rightarrow> f | None \<Rightarrow> new1)]\<rparr>,
                   (fs(fname := None, fname @ ''.old'' \<mapsto> old,
                       fname \<mapsto> created_file env sz))(fname @ ''.old'' := None))))"
proof -
  let ?backup = "fname @ ''.old''"
  let ?fs1 = "fs(fname := None, ?backup \<mapsto> old)"
  let ?df = "created_file env sz"
  let ?fs2 = "?fs1(fname \<mapsto> ?df)"
  let ?H = "opened_handle env fname ?df"
  have big: "\<not> sz < of_nat (sizeof_stat_file_header + sizeof_stat_file_section + sizeof_pointer)"
  proof -
    have "(of_nat (sizeof_stat_file_header + sizeof_stat_file_section + sizeof_pointer) :: 64 word)
            \<le> of_nat sizeof_stat_file"
      by (simp add: sizeof_stat_file_header_def sizeof_stat_file_section_def sizeof_pointer_def
          sizeof_stat_file_def sizeof_stat_file_block_def round_up_def)
    with sz(1) show ?thesis by simp
  qed
  have cr: "statfile_pool_create env pool ?fs1 fname sz = (0, ?fs2)"
    by (rule statfile_pool_create_ok [OF sys(1) sys(2) closed sz(1)])
  have f2: "?fs2 fname = Some ?df" by simp
  have op: "statfile_pool_open_with no_reindex env pool ?fs2 fname sz True
              = Inr (Some (nat (opened pool)), pool_with env pool ?H, ?fs2)"
    using open_with_closed [of pool fname ?fs2 ?df no_reindex env sz True, OF closed room(2) f2]
      statfile_pool_open_map_valid [of ?df env pool fname ?fs2,
        OF created_valid [OF sz(2)] sys(1) sys(4) closed room(1) room(3)]
    by simp
  have bk: "?fs2 ?backup = Some old"
    by simp
  have nth: "files (pool_with env pool ?H) ! nat (opened pool) = ?H"
    using room(3) by (simp add: pool_with_def)
  show ?thesis
    unfolding rspamd_mmaped_file_reindex_def
    using big sys old
    by (simp only: if_False Let_def if_True option.case cr prod.case op sum.case bk nth
        simp_thms refl)
qed

lemma create_fail:
  assumes "statfile_pool_is_open pool fname = None"
    and "\<not> (sys_open_ok env \<and> sys_write_ok env \<and> of_nat sizeof_stat_file \<le> sz)"
  shows "fst (statfile_pool_create env pool fs fname sz) = - 1"
proof -
  have e: "sizeof_stat_file_header + sizeof_stat_file_section + sizeof_stat_file_block
             = sizeof_stat_file"
    by (simp add: sizeof_stat_file_header_def sizeof_stat_file_section_def
        sizeof_stat_file_def sizeof_stat_file_block_def round_up_def)
  show ?thesis
    using assms unfolding statfile_pool_create_def e
    by (auto simp add: Let_def not_le split: prod.splits)
qed

lemma open_map_created_Some:
  assumes "statfile_pool_open_map env pool fs fname (created_file env' sz)
             = Inr (Some idx, pool', fs')"
  shows "sys_open_ok env \<and> sys_mmap_ok env \<and> 0 \<le> opened pool
    \<and> nat (opened pool) < length (files pool) \<and> 0 < unat (create_nblocks sz)"
proof -
  have room: "0 \<le> opened pool \<and> nat (opened pool) < length (files pool)"
    using assms by (auto simp add: statfile_pool_open_map_def Let_def split: if_splits)
  have o: "sys_open_ok env"
    using assms room by (auto simp add: statfile_pool_open_map_def Let_def split: if_splits)
  have m: "sys_mmap_ok env"
    using assms room o by (auto simp add: statfile_pool_open_map_def Let_def split: if_splits)
  have n: "0 < unat (create_nblocks sz)"
  proof (rule ccontr)
    assume "\<not> 0 < unat (create_nblocks sz)"
    then have z: "unat (create_nblocks sz) = 0" by simp
    have l: "(of_nat (fsize (created_file env' sz)) :: 64 word) < of_nat sizeof_stat_file"
      by (simp add: created_file_def z sizeof_stat_file_header_def sizeof_stat_file_section_def
        sizeof_stat_file_def sizeof_stat_file_block_def round_up_def)
    have "rspamd_mmaped_file_check env
            (zero_file\<lparr>fd := sys_fd env, map_ptr := Some (contents (created_file env' sz)),
               filename := rspamd_strlcpy PATH_MAX fname,
               len := of_nat (fsize (created_file env' sz))\<rparr>)
          = Inr (- 1, zero_file\<lparr>fd := sys_fd env, map_ptr := Some (contents (created_file env' sz)),
               filename := rspamd_strlcpy PATH_MAX fname,
               len := of_nat (fsize (created_file env' sz))\<rparr>)"
      using l by (simp add: rspamd_mmaped_file_check_def)
    with assms room o m show False
      by (simp add: statfile_pool_open_map_def Let_def)
  qed
  from room o m n show ?thesis by simp
qed

lemma reindex_Some:
  assumes res: "rspamd_mmaped_file_reindex env pool fs fname old_size sz
                  = Inr (Some idx, pool', fs')"
    and closed: "statfile_pool_is_open pool fname = None"
  shows "sys_open_ok env \<and> sys_write_ok env \<and> sys_rename_ok env \<and> sys_mmap_ok env
    \<and> 0 \<le> opened pool \<and> opened pool < STATFILES_MAX - 1
    \<and> nat (opened pool) < length (files pool)
    \<and> of_nat sizeof_stat_file \<le> sz \<and> 0 < unat (create_nblocks sz)
    \<and> fs fname \<noteq> None"
proof -
  let ?backup = "fname @ ''.old''"
  have big: "\<not> sz < of_nat (sizeof_stat_file_header + sizeof_stat_file_section + sizeof_pointer)"
    using res by (auto simp add: rspamd_mmaped_file_reindex_def)
  have ren: "sys_rename_ok env"
  proof (rule ccontr)
    assume "\<not> sys_rename_ok env"
    with res big show False by (simp add: rspamd_mmaped_file_reindex_def)
  qed
  obtain old where old: "fs fname = Some old"
  proof (cases "fs fname")
    case None
    with res big ren have False by (simp add: rspamd_mmaped_file_reindex_def)
    then show ?thesis ..
  next
    case (Some a)
    then show ?thesis by (rule that)
  qed
  let ?fs1 = "fs(fname := None, ?backup \<mapsto> old)"
  obtain r fs2 where cr: "statfile_pool_create env pool ?fs1 fname sz = (r, fs2)"
    by (cases "statfile_pool_create env pool ?fs1 fname sz")
  have r0: "r = 0"
  proof (rule ccontr)
    assume "r \<noteq> 0"
    with res big ren old cr show False
      by (simp add: rspamd_mmaped_file_reindex_def Let_def)
  qed
  have crok: "sys_open_ok env \<and> sys_write_ok env \<and> of_nat sizeof_stat_file \<le> sz"
    using create_fail [OF closed, of env sz ?fs1] cr r0 by auto
  then have fs2: "fs2 = ?fs1(fname \<mapsto> created_file env sz)"
    using statfile_pool_create_ok [of env pool fname sz ?fs1] closed cr by simp
  obtain pool1 fs3 where
    op: "statfile_pool_open_with no_reindex env pool fs2 fname sz True = Inr (Some idx, pool1, fs3)"
  proof (cases "statfile_pool_open_with no_reindex env pool fs2 fname sz True")
    case (Inl e)
    with res big ren old cr r0 have False
      by (simp add: rspamd_mmaped_file_reindex_def Let_def)
    then show ?thesis ..
  next
    case (Inr t)
    obtain new pool1 fs3 where t: "t = (new, pool1, fs3)"
      by (cases t)
    have "new = Some idx"
    proof (cases new)
      case None
      with res big ren old cr r0 Inr t have False
        by (simp add: rspamd_mmaped_file_reindex_def Let_def split: option.splits if_splits)
      then show ?thesis ..
    next
      case (Some i)
      with res big ren old cr r0 Inr t show ?thesis
        by (simp add: rspamd_mmaped_file_reindex_def Let_def
            split: option.splits if_splits sum.splits prod.splits)
    qed
    with Inr t show ?thesis by (simp add: that)
  qed
  have cap: "opened pool < STATFILES_MAX - 1"
    using op closed by (auto simp add: statfile_pool_open_with_def split: if_splits)
  have f2: "fs2 fname = Some (created_file env sz)"
    by (simp add: fs2)
  have "statfile_pool_open_map env pool fs2 fname (created_file env sz)
          = Inr (Some idx, pool1, fs3)"
    using open_with_closed [of pool fname fs2 "created_file env sz" no_reindex env sz True,
        OF closed cap f2] op by simp
  from open_map_created_Some [OF this] crok ren cap old show ?thesis
    by simp
qed

lemma opened_created_ok:
  assumes "0 < unat (create_nblocks sz)"
  shows "file_ok (opened_handle env fname (created_file env' sz))"
proof -
  let ?H = "opened_handle env fname (created_file env' sz)"
  have s: "unat (slength (cur_section ?H)) = unat (create_nblocks sz)"
    by (simp add: opened_handle_def created_section_read created_section_def unat_ucast_32_64)
  have p: "sint (seek_pos ?H) = 304"
    by (simp add: opened_handle_def sizeofs)
  have "unat (len ?H) = 304 + 16 * unat (create_nblocks sz)"
    using unat_fsize_created [of env' sz] by (simp add: opened_handle_def)
  then have "int (unat (len ?H)) = int (304 + 16 * unat (create_nblocks sz))"
    by (rule arg_cong)
  then have l: "uint (len ?H) = int (304 + 16 * unat (create_nblocks sz))"
    by simp
  show ?thesis
    unfolding file_ok_def s p l using assms unat_create_nblocks_less [of sz]
    by (simp add: opened_handle_def sizeofs)
qed

lemma reindex_loop_total:
  "file_ok new \<Longrightarrow> pos \<le> unat old_size \<Longrightarrow>
     \<exists>new1. reindex_loop bmap old_size pos new = Inr new1 \<and> file_ok new1"
proof (induction bmap old_size pos new rule: reindex_loop.induct)
  case (1 bmap old_size pos new)
  show ?case
  proof (cases "of_nat sizeof_stat_file_block \<le> old_size - of_nat pos")
    case False
    then have "reindex_loop bmap old_size pos new = Inr new"
      by (subst reindex_loop.simps) simp
    with "1.prems" show ?thesis by simp
  next
    case True
    have lt: "pos < 2 ^ 64"
      using "1.prems"(2) unsigned_less [of old_size, where ?'a = nat] by simp
    have "(of_nat pos :: 64 word) \<le> old_size"
      using "1.prems"(2) lt by (simp add: word_le_nat_alt unat_of_nat64)
    then have "unat (old_size - of_nat pos) = unat old_size - pos"
      using lt by (simp add: unat_sub unat_of_nat64)
    with True have "16 \<le> unat old_size - pos"
      by (simp add: word_le_nat_alt sizeofs)
    with "1.prems"(2) have room: "pos + 16 \<le> unat old_size" by simp
    then have "int pos + 16 \<le> int (unat old_size)"
      by linarith
    then have inb: "in_map old_size (int pos) sizeof_stat_file_block"
      by (simp add: in_map_def sizeofs)
    define step where "step = (if hash1 (rd_block bmap pos) \<noteq> 0 \<and> dbl_neq (bvalue (rd_block bmap pos)) 0
                    then statfile_pool_set_block_common new (hash1 (rd_block bmap pos))
                           (hash2 (rd_block bmap pos)) 0 (bvalue (rd_block bmap pos)) False
                    else Inr new)"
    obtain m where m: "map_ptr new = Some m" using "1.prems"(1) by (auto simp add: file_ok_def)
    have "\<exists>new'. step = Inr new' \<and> file_ok new'"
    proof (cases "hash1 (rd_block bmap pos) \<noteq> 0 \<and> dbl_neq (bvalue (rd_block bmap pos)) 0")
      case True
      have "file_ok ((touch new 0 False)\<lparr>map_ptr := Some (set_chain_result m
               (hash1 (rd_block bmap pos)) (hash2 (rd_block bmap pos)) (bvalue (rd_block bmap pos))
               (file_chain new (hash1 (rd_block bmap pos))))\<rparr>)"
        using "1.prems"(1) m by (simp add: file_ok_def touch_def)
      with True show ?thesis
        using set_block_common_eq [OF "1.prems"(1) m, of "hash1 (rd_block bmap pos)"
            "hash2 (rd_block bmap pos)" 0 "bvalue (rd_block bmap pos)" False]
        by (simp add: step_def)
    next
      case False
      then have "step = Inr new" unfolding step_def by (simp only: if_False)
      with "1.prems"(1) show ?thesis by simp
    qed
    then obtain new' where s: "step = Inr new'" and ok': "file_ok new'"
      by blast
    have pos': "pos + sizeof_pointer \<le> unat old_size"
      using room by (simp add: sizeofs)
    obtain new1 where r: "reindex_loop bmap old_size (pos + sizeof_pointer) new' = Inr new1"
      and ok1: "file_ok new1"
      using "1.IH" [OF True _ refl s [unfolded step_def] ok' pos'] inb by auto
    have "reindex_loop bmap old_size pos new = Inr new1"
      using True inb s r by (subst reindex_loop.simps) (simp add: Let_def step_def)
    with ok1 show ?thesis by simp
  qed
qed

text \<open>
  Claim C6. When \<open>rspamd_mmaped_file_reindex\<close>, called as \<open>statfile_pool_open\<close> calls it (for
  a file that is on disk and not open in the pool), returns a handle, the header in the
  mapping of that handle holds the \<open>revision\<close> and the \<open>rev_time\<close> of the old file, the
  one renamed to the backup.
\<close>

theorem reindex_keeps_revision:
  assumes res: "rspamd_mmaped_file_reindex env pool fs fname old_size sz
                  = Inr (Some idx, pool', fs')"
    and closed: "statfile_pool_is_open pool fname = None"
    and old: "fs fname = Some old"
  shows "\<exists>m'. map_ptr (files pool' ! idx) = Some m'
           \<and> rd64 m' off_revision = rd64 (contents old) off_revision
           \<and> rd64 m' off_rev_time = rd64 (contents old) off_rev_time"
proof -
  let ?H = "opened_handle env fname (created_file env sz)"
  let ?P = "pool_with env pool ?H"
  let ?i = "nat (opened pool)"
  from reindex_Some [OF res closed] have
    sys: "sys_open_ok env" "sys_write_ok env" "sys_rename_ok env" "sys_mmap_ok env"
    and room: "0 \<le> opened pool" "opened pool < STATFILES_MAX - 1"
      "nat (opened pool) < length (files pool)"
    and sz: "of_nat sizeof_stat_file \<le> sz" "0 < unat (create_nblocks sz)"
    by simp_all
  note run = reindex_run [where env = env and pool = pool and fs = fs and fname = fname
      and old = old and sz = sz and old_size = old_size, OF sys closed room old sz]
  obtain new1 where loop: "reindex_loop (contents old) old_size
      (sizeof_stat_file - sizeof_stat_file_block) ?H = Inr new1"
    using res run by (cases "reindex_loop (contents old) old_size
      (sizeof_stat_file - sizeof_stat_file_block) ?H") simp_all
  have inb: "in_map old_size (int off_revision) 16"
    using res run loop by (cases "in_map old_size (int off_revision) 16") simp_all
  from reindex_loop_keeps [OF loop] obtain m1 where
    m1: "map_ptr new1 = Some m1" and l1: "len new1 = len ?H"
    by (auto simp add: opened_handle_def)
  define m' where "m' = wr64 (wr64 m1 off_revision (rd64 (contents old) off_revision))
                          off_rev_time (rd64 (contents old) off_rev_time)"
  have inb1: "in_map (len new1) (int off_revision) 16"
  proof (rule ccontr)
    assume "\<not> in_map (len new1) (int off_revision) 16"
    with res run loop inb m1 show False
      by (simp add: statfile_set_revision_def)
  qed
  have sr: "statfile_set_revision (Some new1) (rd64 (contents old) off_revision)
              (rd64 (contents old) off_rev_time)
            = Inr (True, Some (new1\<lparr>map_ptr := Some m'\<rparr>))"
    using m1 inb1 by (simp add: statfile_set_revision_def m'_def)
  have "idx = ?i \<and> pool' = ?P\<lparr>files := (files ?P)[?i := new1\<lparr>map_ptr := Some m'\<rparr>]\<rparr>"
    using res run loop inb sr by auto
  then have "map_ptr (files pool' ! idx) = Some m'"
    using room(3) by (simp add: pool_with_def)
  moreover have "rd64 m' off_revision = rd64 (contents old) off_revision"
    by (simp add: m'_def rd64_wr64_other rd64_wr64_same header_offs)
  moreover have "rd64 m' off_rev_time = rd64 (contents old) off_rev_time"
    by (simp add: m'_def rd64_wr64_same)
  ultimately show ?thesis by blast
qed

lemma file_ok_header_in_map:
  assumes "file_ok file"
  shows "in_map (len file) (int off_revision) 16"
proof -
  have "0 \<le> int (unat (slength (cur_section file))) * int sizeof_stat_file_block"
    by simp
  with assms have "int sizeof_stat_file_header \<le> uint (len file)"
    unfolding file_ok_def by linarith
  then show ?thesis
    by (simp add: in_map_def sizeofs header_offs)
qed

lemma reindex_returns:
  assumes sys: "sys_open_ok env" "sys_write_ok env" "sys_rename_ok env" "sys_mmap_ok env"
    and closed: "statfile_pool_is_open pool fname = None"
    and room: "0 \<le> opened pool" "opened pool < STATFILES_MAX - 1"
      "nat (opened pool) < length (files pool)"
    and old: "fs fname = Some old"
    and sz: "of_nat sizeof_stat_file \<le> sz" "0 < unat (create_nblocks sz)"
    and old_size: "sizeof_stat_file - sizeof_stat_file_block \<le> unat old_size"
  shows "\<exists>pool' fs'. rspamd_mmaped_file_reindex env pool fs fname old_size sz
           = Inr (Some (nat (opened pool)), pool', fs')"
proof -
  let ?H = "opened_handle env fname (created_file env sz)"
  note run = reindex_run [where env = env and pool = pool and fs = fs and fname = fname
      and old = old and sz = sz and old_size = old_size, OF sys closed room old sz]
  obtain new1 where loop: "reindex_loop (contents old) old_size
      (sizeof_stat_file - sizeof_stat_file_block) ?H = Inr new1" and ok1: "file_ok new1"
    using reindex_loop_total [OF opened_created_ok [OF sz(2)] old_size] by blast
  obtain m1 where m1: "map_ptr new1 = Some m1"
    using ok1 by (auto simp add: file_ok_def)
  have "int 304 \<le> int (unat old_size)"
    using old_size unfolding sizeofs by linarith
  then have inb: "in_map old_size (int off_revision) 16"
    by (simp add: in_map_def header_offs)
  have sr: "statfile_set_revision (Some new1) (rd64 (contents old) off_revision)
              (rd64 (contents old) off_rev_time)
            = Inr (True, Some (new1\<lparr>map_ptr := Some (wr64 (wr64 m1 off_revision
                (rd64 (contents old) off_revision)) off_rev_time (rd64 (contents old) off_rev_time))\<rparr>))"
    using m1 file_ok_header_in_map [OF ok1] by (simp add: statfile_set_revision_def)
  show ?thesis
    using inb by (simp add: run loop sr)
qed

lemma create_nblocks_2000: "create_nblocks 2000 = 106"
  by (simp add: create_nblocks_def sizeofs)

theorem reindex_keeps_revision_witness:
  "\<exists>pool' fs'.
     rspamd_mmaped_file_reindex good_env empty_pool revised_fs ''statfile'' 992 2000
       = Inr (Some 0, pool', fs')
     \<and> statfile_pool_is_open empty_pool ''statfile'' = None
     \<and> revised_fs ''statfile'' = Some revised_file
     \<and> (\<exists>m'. map_ptr (files pool' ! 0) = Some m'
           \<and> rd64 m' off_revision = 7 \<and> rd64 m' off_rev_time = 1600000100)"
proof -
  have closed: "statfile_pool_is_open empty_pool ''statfile'' = None"
    by (rule is_open_empty_pool)
  have old: "revised_fs ''statfile'' = Some revised_file"
    by (simp add: revised_fs_def)
  have r: "rd64 (contents revised_file) off_revision = 7"
    "rd64 (contents revised_file) off_rev_time = 1600000100"
    by (simp_all add: revised_file_def rd64_wr64_same rd64_wr64_other header_offs)
  obtain pool' fs' where
    res: "rspamd_mmaped_file_reindex good_env empty_pool revised_fs ''statfile'' 992 2000
            = Inr (Some 0, pool', fs')"
    using reindex_returns [where env = good_env and pool = empty_pool and fs = revised_fs
        and fname = "''statfile''" and old = revised_file and sz = 2000 and old_size = 992]
      closed old
    by (auto simp add: good_env_def empty_pool_def STATFILES_MAX_def sizeofs create_nblocks_2000)
  from reindex_keeps_revision [OF res closed old] res closed old r show ?thesis
    by simp
qed

subsection \<open>The stride of the copying loop\<close>

lemma wr32_at: "m x = m' x \<Longrightarrow> wr32 m a w x = wr32 m' a w x"
  by (simp add: wr32_def)

lemma wr64_at: "m x = m' x \<Longrightarrow> wr64 m a w x = wr64 m' a w x"
  unfolding wr64_def by (intro wr32_at)

lemma wr_block_at: "m x = m' x \<Longrightarrow> wr_block m a b x = wr_block m' a b x"
  unfolding wr_block_def by (intro wr64_at wr32_at)

lemma packed_bytes:
  assumes "304 \<le> x"
  shows "packed_map x =
      wr_block (wr_block (wr_block (\<lambda>x. 0)
          304 \<lparr>hash1 = 4, hash2 = 0x3FF00000, bvalue = 0x4000000000000000\<rparr>)
          320 \<lparr>hash1 = 5, hash2 = 7, bvalue = 0x3FF0000000000004\<rparr>)
          336 \<lparr>hash1 = 6, hash2 = 1, bvalue = 0x3FF0000000000000\<rparr> x"
proof -
  have z: "contents (created_file good_env 368) x = 0"
    using assms by (simp add: created_blocks_zero sizeofs)
  have o: "\<And>m w. wr64 m 32 w x = m x"
    using assms by (simp add: wr64_outside)
  have 1: "wr64 (wr_block (contents (created_file good_env 368))
                   304 \<lparr>hash1 = 4, hash2 = 0x3FF00000, bvalue = 0x4000000000000000\<rparr>) 32 1 x
      = wr_block (\<lambda>x. 0) 304 \<lparr>hash1 = 4, hash2 = 0x3FF00000, bvalue = 0x4000000000000000\<rparr> x"
    unfolding o by (rule wr_block_at) (simp add: z)
  have 2: "wr64 (wr_block
          (wr64 (wr_block (contents (created_file good_env 368))
                   304 \<lparr>hash1 = 4, hash2 = 0x3FF00000, bvalue = 0x4000000000000000\<rparr>) 32 1)
          320 \<lparr>hash1 = 5, hash2 = 7, bvalue = 0x3FF0000000000004\<rparr>) 32 2 x
      = wr_block (wr_block (\<lambda>x. 0)
          304 \<lparr>hash1 = 4, hash2 = 0x3FF00000, bvalue = 0x4000000000000000\<rparr>)
          320 \<lparr>hash1 = 5, hash2 = 7, bvalue = 0x3FF0000000000004\<rparr> x"
    unfolding o by (rule wr_block_at) (rule 1)
  show ?thesis
    unfolding packed_map_def o by (rule wr_block_at) (rule 2)
qed

lemma packed_header:
  "rd64 packed_map off_revision = 0" "rd64 packed_map off_rev_time = 0"
  "rd64 packed_map off_used_blocks = 3"
  by (simp_all add: packed_map_def rd64_wr64_other rd64_wr64_same rd64_wr_block_other
      created_header_fields [unfolded header_offs] header_offs)

lemma packed_aligned:
  "rd_block packed_map 304 = \<lparr>hash1 = 4, hash2 = 0x3FF00000, bvalue = 0x4000000000000000\<rparr>"
  "rd_block packed_map 320 = \<lparr>hash1 = 5, hash2 = 7, bvalue = 0x3FF0000000000004\<rparr>"
  "rd_block packed_map 336 = \<lparr>hash1 = 6, hash2 = 1, bvalue = 0x3FF0000000000000\<rparr>"
  "rd_block packed_map 352 = \<lparr>hash1 = 0, hash2 = 0, bvalue = 0\<rparr>"
  by (simp_all add: packed_map_def rd_block_wr64_other rd_block_wr_block_other
      rd_block_wr_block_same created_block_read sizeofs)

lemma packed_between_312:
  "rd_block packed_map 312 = \<lparr>hash1 = 0, hash2 = 0x40000000, bvalue = 0x0000000700000005\<rparr>"
proof -
  have "rd_block packed_map 312 = rd_block (wr_block (wr_block (wr_block (\<lambda>x. 0)
          304 \<lparr>hash1 = 4, hash2 = 0x3FF00000, bvalue = 0x4000000000000000\<rparr>)
          320 \<lparr>hash1 = 5, hash2 = 7, bvalue = 0x3FF0000000000004\<rparr>)
          336 \<lparr>hash1 = 6, hash2 = 1, bvalue = 0x3FF0000000000000\<rparr>) 312"
    by (rule rd_block_cong) (simp add: packed_bytes)
  also have "\<dots> = \<lparr>hash1 = 0, hash2 = 0x40000000, bvalue = 0x0000000700000005\<rparr>"
    by (simp add: rd_block_def rd64_def rd32_def wr_block_def wr64_def wr32_def)
  finally show ?thesis .
qed

lemma packed_between_328:
  "rd_block packed_map 328 = \<lparr>hash1 = 4, hash2 = 0x3FF00000, bvalue = 0x0000000100000006\<rparr>"
proof -
  have "rd_block packed_map 328 = rd_block (wr_block (wr_block (wr_block (\<lambda>x. 0)
          304 \<lparr>hash1 = 4, hash2 = 0x3FF00000, bvalue = 0x4000000000000000\<rparr>)
          320 \<lparr>hash1 = 5, hash2 = 7, bvalue = 0x3FF0000000000004\<rparr>)
          336 \<lparr>hash1 = 6, hash2 = 1, bvalue = 0x3FF0000000000000\<rparr>) 328"
    by (rule rd_block_cong) (simp add: packed_bytes)
  also have "\<dots> = \<lparr>hash1 = 4, hash2 = 0x3FF00000, bvalue = 0x0000000100000006\<rparr>"
    by (simp add: rd_block_def rd64_def rd32_def wr_block_def wr64_def wr32_def)
  finally show ?thesis .
qed

lemma packed_between_344:
  "rd_block packed_map 344 = \<lparr>hash1 = 0, hash2 = 0x3FF00000, bvalue = 0\<rparr>"
proof -
  have "rd_block packed_map 344 = rd_block (wr_block (wr_block (wr_block (\<lambda>x. 0)
          304 \<lparr>hash1 = 4, hash2 = 0x3FF00000, bvalue = 0x4000000000000000\<rparr>)
          320 \<lparr>hash1 = 5, hash2 = 7, bvalue = 0x3FF0000000000004\<rparr>)
          336 \<lparr>hash1 = 6, hash2 = 1, bvalue = 0x3FF0000000000000\<rparr>) 344"
    by (rule rd_block_cong) (simp add: packed_bytes)
  also have "\<dots> = \<lparr>hash1 = 0, hash2 = 0x3FF00000, bvalue = 0\<rparr>"
    by (simp add: rd_block_def rd64_def rd32_def wr_block_def wr64_def wr32_def)
  finally show ?thesis .
qed

lemma set_block_head_free:
  assumes ok: "file_ok file" and m: "map_ptr file = Some m"
    and c: "c = nat (chain_start file (chain_blocknum file h1))"
    and free: "block_free (rd_block m c)" and other: "\<not> block_matches (rd_block m c) h1 h2"
  shows "statfile_pool_set_block_common file h1 h2 t v from_now =
     Inr ((touch file t from_now)\<lparr>map_ptr := Some
        (wr64 (wr_block m c \<lparr>hash1 = h1, hash2 = h2, bvalue = v\<rparr>) off_used_blocks
           (rd64 (wr_block m c \<lparr>hash1 = h1, hash2 = h2, bvalue = v\<rparr>) off_used_blocks + 1))\<rparr>)"
proof -
  obtain cs where cs: "file_chain file h1 = chain_start file (chain_blocknum file h1) # cs"
    using file_chain_hd [OF ok] by blast
  show ?thesis
    using free other
    by (simp add: set_block_common_eq [OF ok m] cs set_chain_result_def c [symmetric])
qed

lemma set_block_head_match:
  assumes ok: "file_ok file" and m: "map_ptr file = Some m"
    and c: "c = nat (chain_start file (chain_blocknum file h1))"
    and same: "block_matches (rd_block m c) h1 h2"
  shows "statfile_pool_set_block_common file h1 h2 t v from_now =
     Inr ((touch file t from_now)\<lparr>map_ptr := Some (wr64 m (c + 8) v)\<rparr>)"
proof -
  obtain cs where cs: "file_chain file h1 = chain_start file (chain_blocknum file h1) # cs"
    using file_chain_hd [OF ok] by blast
  show ?thesis
    using same
    by (simp add: set_block_common_eq [OF ok m] cs set_chain_result_def c [symmetric])
qed

lemma get_block_head_match:
  assumes ok: "file_ok file" and m: "map_ptr file = Some m"
    and c: "c = nat (chain_start file (chain_blocknum file h1))"
    and same: "block_matches (rd_block m c) h1 h2"
  shows "statfile_pool_get_block file h1 h2 now =
     Inr (bvalue (rd_block m c), file\<lparr>access_time := now\<rparr>)"
proof -
  obtain cs where cs: "file_chain file h1 = chain_start file (chain_blocknum file h1) # cs"
    using file_chain_hd [OF ok] by blast
  show ?thesis
    using same
    by (simp add: get_block_eq [OF ok m] cs c [symmetric])
qed

lemma sample_handle_ok: "file_ok (sample_handle 4 m)" "file_ok (sample_handle 64 m)"
  by (simp_all add: file_ok_def sample_handle_def sizeofs)

lemma sample_handle_map: "map_ptr (sample_handle n m) = Some m"
  by (simp add: sample_handle_def)

lemma sample_handle_update: "(sample_handle n m)\<lparr>map_ptr := Some m'\<rparr> = sample_handle n m'"
  by (simp add: sample_handle_def)

lemma sample_chain_4:
  "nat (chain_start (sample_handle 4 m) (chain_blocknum (sample_handle 4 m) 4)) = 304"
  "nat (chain_start (sample_handle 4 m) (chain_blocknum (sample_handle 4 m) 5)) = 320"
  "nat (chain_start (sample_handle 4 m) (chain_blocknum (sample_handle 4 m) 6)) = 336"
  by (simp_all add: chain_start_def chain_blocknum_def sample_handle_def sizeofs)

lemma sample_chain_64:
  "nat (chain_start (sample_handle 64 m) (chain_blocknum (sample_handle 64 m) 4)) = 368"
  "nat (chain_start (sample_handle 64 m) (chain_blocknum (sample_handle 64 m) 5)) = 384"
  "nat (chain_start (sample_handle 64 m) (chain_blocknum (sample_handle 64 m) 6)) = 400"
  by (simp_all add: chain_start_def chain_blocknum_def sample_handle_def sizeofs)

lemma create_nblocks_368: "create_nblocks 368 = 4"
  by (simp add: create_nblocks_def sizeofs)

lemma create_nblocks_1328: "create_nblocks 1328 = 64"
  by (simp add: create_nblocks_def sizeofs)

lemma opened_sample:
  "opened_handle good_env ''statfile'' (created_file good_env 368)
     = sample_handle 4 (contents (created_file good_env 368))"
  "opened_handle good_env ''statfile'' (created_file good_env 1328)
     = sample_handle 64 (contents (created_file good_env 1328))"
  by (simp_all add: opened_handle_def sample_handle_def
      created_section_read [unfolded sizeof_stat_file_header_eq] created_section_def
      create_nblocks_368 create_nblocks_1328 fsize_created good_env_def rspamd_strlcpy_def
      PATH_MAX_def sizeofs STATFILE_SECTION_COMMON_def)

lemma packed_reached:
  "statfile_pool_set_block_common (sample_handle 4 (contents (created_file good_env 368)))
      4 0x3FF00000 0 0x4000000000000000 False
    = Inr (sample_handle 4 (wr64 (wr_block (contents (created_file good_env 368))
                   304 \<lparr>hash1 = 4, hash2 = 0x3FF00000, bvalue = 0x4000000000000000\<rparr>) 32 1))"
  "statfile_pool_set_block_common
      (sample_handle 4 (wr64 (wr_block (contents (created_file good_env 368))
                   304 \<lparr>hash1 = 4, hash2 = 0x3FF00000, bvalue = 0x4000000000000000\<rparr>) 32 1))
      5 7 0 0x3FF0000000000004 False
    = Inr (sample_handle 4 (wr64 (wr_block
          (wr64 (wr_block (contents (created_file good_env 368))
                   304 \<lparr>hash1 = 4, hash2 = 0x3FF00000, bvalue = 0x4000000000000000\<rparr>) 32 1)
          320 \<lparr>hash1 = 5, hash2 = 7, bvalue = 0x3FF0000000000004\<rparr>) 32 2))"
  "statfile_pool_set_block_common
      (sample_handle 4 (wr64 (wr_block
          (wr64 (wr_block (contents (created_file good_env 368))
                   304 \<lparr>hash1 = 4, hash2 = 0x3FF00000, bvalue = 0x4000000000000000\<rparr>) 32 1)
          320 \<lparr>hash1 = 5, hash2 = 7, bvalue = 0x3FF0000000000004\<rparr>) 32 2))
      6 1 0 0x3FF0000000000000 False
    = Inr (sample_handle 4 packed_map)"
proof -
  define m0 where "m0 = contents (created_file good_env 368)"
  define m1 where "m1 = wr64 (wr_block m0
                   304 \<lparr>hash1 = 4, hash2 = 0x3FF00000, bvalue = 0x4000000000000000\<rparr>) 32 1"
  define m2 where "m2 = wr64 (wr_block m1
                   320 \<lparr>hash1 = 5, hash2 = 7, bvalue = 0x3FF0000000000004\<rparr>) 32 2"
  have u0: "rd64 m0 32 = 0"
    using created_header_fields(4) [of good_env 368] by (simp add: m0_def header_offs)
  have b0: "rd_block m0 304 = \<lparr>hash1 = 0, hash2 = 0, bvalue = 0\<rparr>"
    by (simp add: m0_def created_block_read sizeofs)
  have b1: "rd_block m1 320 = \<lparr>hash1 = 0, hash2 = 0, bvalue = 0\<rparr>"
    by (simp add: m1_def m0_def rd_block_wr64_other rd_block_wr_block_other created_block_read
        sizeofs)
  have b2: "rd_block m2 336 = \<lparr>hash1 = 0, hash2 = 0, bvalue = 0\<rparr>"
    by (simp add: m2_def m1_def m0_def rd_block_wr64_other rd_block_wr_block_other
        created_block_read sizeofs)
  have u1: "rd64 m1 32 = 1" by (simp add: m1_def rd64_wr64_same)
  have u2: "rd64 m2 32 = 2" by (simp add: m2_def rd64_wr64_same)
  have pm: "packed_map = wr64 (wr_block m2
                   336 \<lparr>hash1 = 6, hash2 = 1, bvalue = 0x3FF0000000000000\<rparr>) 32 3"
    by (simp add: packed_map_def m2_def m1_def m0_def)
  have p1: "statfile_pool_set_block_common (sample_handle 4 m0) 4 0x3FF00000 0 0x4000000000000000 False
      = Inr (sample_handle 4 m1)"
    using set_block_head_free [OF sample_handle_ok(1) sample_handle_map sample_chain_4(1) [symmetric],
        of m0 "0x3FF00000" 0 "0x4000000000000000" False]
    by (simp add: b0 block_free_def block_matches_def touch_def sample_handle_update
        off_used_blocks_def rd64_wr_block_other u0 m1_def)
  have p2: "statfile_pool_set_block_common (sample_handle 4 m1) 5 7 0 0x3FF0000000000004 False
      = Inr (sample_handle 4 m2)"
    using set_block_head_free [OF sample_handle_ok(1) sample_handle_map sample_chain_4(2) [symmetric],
        of m1 7 0 "0x3FF0000000000004" False]
    by (simp add: b1 block_free_def block_matches_def touch_def sample_handle_update
        off_used_blocks_def rd64_wr_block_other u1 m2_def)
  have p3: "statfile_pool_set_block_common (sample_handle 4 m2) 6 1 0 0x3FF0000000000000 False
      = Inr (sample_handle 4 packed_map)"
    using set_block_head_free [OF sample_handle_ok(1) sample_handle_map sample_chain_4(3) [symmetric],
        of m2 1 0 "0x3FF0000000000000" False]
    by (simp add: b2 block_free_def block_matches_def touch_def sample_handle_update
        off_used_blocks_def rd64_wr_block_other u2 pm)
  from p1 show "statfile_pool_set_block_common (sample_handle 4 (contents (created_file good_env 368)))
      4 0x3FF00000 0 0x4000000000000000 False
    = Inr (sample_handle 4 (wr64 (wr_block (contents (created_file good_env 368))
                   304 \<lparr>hash1 = 4, hash2 = 0x3FF00000, bvalue = 0x4000000000000000\<rparr>) 32 1))"
    by (simp add: m0_def m1_def)
  from p2 show "statfile_pool_set_block_common
      (sample_handle 4 (wr64 (wr_block (contents (created_file good_env 368))
                   304 \<lparr>hash1 = 4, hash2 = 0x3FF00000, bvalue = 0x4000000000000000\<rparr>) 32 1))
      5 7 0 0x3FF0000000000004 False
    = Inr (sample_handle 4 (wr64 (wr_block
          (wr64 (wr_block (contents (created_file good_env 368))
                   304 \<lparr>hash1 = 4, hash2 = 0x3FF00000, bvalue = 0x4000000000000000\<rparr>) 32 1)
          320 \<lparr>hash1 = 5, hash2 = 7, bvalue = 0x3FF0000000000004\<rparr>) 32 2))"
    by (simp add: m0_def m1_def m2_def)
  from p3 show "statfile_pool_set_block_common
      (sample_handle 4 (wr64 (wr_block
          (wr64 (wr_block (contents (created_file good_env 368))
                   304 \<lparr>hash1 = 4, hash2 = 0x3FF00000, bvalue = 0x4000000000000000\<rparr>) 32 1)
          320 \<lparr>hash1 = 5, hash2 = 7, bvalue = 0x3FF0000000000004\<rparr>) 32 2))
      6 1 0 0x3FF0000000000000 False
    = Inr (sample_handle 4 packed_map)"
    by (simp add: m0_def m1_def m2_def)
qed

lemma reindex_loop_packed:
  "reindex_loop packed_map 368 (sizeof_stat_file - sizeof_stat_file_block)
      (sample_handle 64 (contents (created_file good_env 1328)))
    = Inr (sample_handle 64 grown_blocks)"
proof -
  define m0 where "m0 = contents (created_file good_env 1328)"
  define m1 where "m1 = wr64 (wr_block m0
                   368 \<lparr>hash1 = 4, hash2 = 0x3FF00000, bvalue = 0x4000000000000000\<rparr>) 32 1"
  define m2 where "m2 = wr64 (wr_block m1
                   384 \<lparr>hash1 = 5, hash2 = 7, bvalue = 0x3FF0000000000004\<rparr>) 32 2"
  define m3 where "m3 = wr64 m2 376 0x0000000100000006"
  define m4 where "m4 = wr64 (wr_block m3
                   400 \<lparr>hash1 = 6, hash2 = 1, bvalue = 0x3FF0000000000000\<rparr>) 32 3"
  have g: "grown_blocks = m4"
    by (simp add: grown_blocks_def m4_def m3_def m2_def m1_def m0_def)
  have u0: "rd64 m0 32 = 0"
    using created_header_fields(4) [of good_env 1328] by (simp add: m0_def header_offs)
  have u1: "rd64 m1 32 = 1" by (simp add: m1_def rd64_wr64_same)
  have u2: "rd64 m2 32 = 2" by (simp add: m2_def rd64_wr64_same)
  have u3: "rd64 m3 32 = 2" by (simp add: m3_def rd64_wr64_other u2)
  have b0: "rd_block m0 368 = \<lparr>hash1 = 0, hash2 = 0, bvalue = 0\<rparr>"
    by (simp add: m0_def created_block_read sizeofs)
  have b1: "rd_block m1 384 = \<lparr>hash1 = 0, hash2 = 0, bvalue = 0\<rparr>"
    by (simp add: m1_def m0_def rd_block_wr64_other rd_block_wr_block_other created_block_read
        sizeofs)
  have b2: "rd_block m2 368 = \<lparr>hash1 = 4, hash2 = 0x3FF00000, bvalue = 0x4000000000000000\<rparr>"
    by (simp add: m2_def m1_def rd_block_wr64_other rd_block_wr_block_other
        rd_block_wr_block_same)
  have b3: "rd_block m3 400 = \<lparr>hash1 = 0, hash2 = 0, bvalue = 0\<rparr>"
    by (simp add: m3_def m2_def m1_def m0_def rd_block_wr64_other rd_block_wr_block_other
        created_block_read sizeofs)
  have p1: "statfile_pool_set_block_common (sample_handle 64 m0) 4 0x3FF00000 0 0x4000000000000000 False
      = Inr (sample_handle 64 m1)"
    using set_block_head_free [OF sample_handle_ok(2) sample_handle_map sample_chain_64(1) [symmetric],
        of m0 "0x3FF00000" 0 "0x4000000000000000" False]
    by (simp add: b0 block_free_def block_matches_def touch_def sample_handle_update
        off_used_blocks_def rd64_wr_block_other u0 m1_def)
  have p2: "statfile_pool_set_block_common (sample_handle 64 m1) 5 7 0 0x3FF0000000000004 False
      = Inr (sample_handle 64 m2)"
    using set_block_head_free [OF sample_handle_ok(2) sample_handle_map sample_chain_64(2) [symmetric],
        of m1 7 0 "0x3FF0000000000004" False]
    by (simp add: b1 block_free_def block_matches_def touch_def sample_handle_update
        off_used_blocks_def rd64_wr_block_other u1 m2_def)
  have p3: "statfile_pool_set_block_common (sample_handle 64 m2) 4 0x3FF00000 0 0x0000000100000006 False
      = Inr (sample_handle 64 m3)"
    using set_block_head_match [OF sample_handle_ok(2) sample_handle_map sample_chain_64(1) [symmetric],
        of m2 "0x3FF00000" 0 "0x0000000100000006" False]
    by (simp add: b2 block_matches_def touch_def sample_handle_update m3_def)
  have p4: "statfile_pool_set_block_common (sample_handle 64 m3) 6 1 0 0x3FF0000000000000 False
      = Inr (sample_handle 64 m4)"
    using set_block_head_free [OF sample_handle_ok(2) sample_handle_map sample_chain_64(3) [symmetric],
        of m3 1 0 "0x3FF0000000000000" False]
    by (simp add: b3 block_free_def block_matches_def touch_def sample_handle_update
        off_used_blocks_def rd64_wr_block_other u3 m4_def)
  have nz: "dbl_neq 0x4000000000000000 0" "dbl_neq 0x3FF0000000000004 0"
    "dbl_neq 0x0000000100000006 0" "dbl_neq 0x3FF0000000000000 0"
    by (simp_all add: dbl_neq_def dbl_isnan_def dbl_ord_def dbl_magnitude_def)
  have s8: "reindex_loop packed_map 368 360 (sample_handle 64 m4) = Inr (sample_handle 64 m4)"
    by (subst reindex_loop.simps) (simp add: sizeofs)
  have s7: "reindex_loop packed_map 368 352 (sample_handle 64 m4) = Inr (sample_handle 64 m4)"
    by (subst reindex_loop.simps) (simp add: sizeofs in_map_def packed_aligned s8)
  have s6: "reindex_loop packed_map 368 344 (sample_handle 64 m4) = Inr (sample_handle 64 m4)"
    by (subst reindex_loop.simps) (simp add: sizeofs in_map_def packed_between_344 s7)
  have s5: "reindex_loop packed_map 368 336 (sample_handle 64 m3) = Inr (sample_handle 64 m4)"
    by (subst reindex_loop.simps) (simp add: sizeofs in_map_def packed_aligned nz p4 s6)
  have s4: "reindex_loop packed_map 368 328 (sample_handle 64 m2) = Inr (sample_handle 64 m4)"
    by (subst reindex_loop.simps) (simp add: sizeofs in_map_def packed_between_328 nz p3 s5)
  have s3: "reindex_loop packed_map 368 320 (sample_handle 64 m1) = Inr (sample_handle 64 m4)"
    by (subst reindex_loop.simps) (simp add: sizeofs in_map_def packed_aligned nz p2 s4)
  have s2: "reindex_loop packed_map 368 312 (sample_handle 64 m1) = Inr (sample_handle 64 m4)"
    by (subst reindex_loop.simps) (simp add: sizeofs in_map_def packed_between_312 s3)
  have s1: "reindex_loop packed_map 368 304 (sample_handle 64 m0) = Inr (sample_handle 64 m4)"
    by (subst reindex_loop.simps) (simp add: sizeofs in_map_def packed_aligned nz p1 s2)
  then show ?thesis
    by (simp add: sizeofs g m0_def)
qed

lemma open_packed_reindexes:
  "statfile_pool_open good_env empty_pool packed_fs ''statfile'' 1328 False
     = rspamd_mmaped_file_reindex good_env empty_pool packed_fs ''statfile'' 368 1328"
proof -
  have closed: "statfile_pool_is_open empty_pool ''statfile'' = None"
    by (rule is_open_empty_pool)
  have below: "opened empty_pool < STATFILES_MAX - 1"
    by (simp add: empty_pool_def STATFILES_MAX_def)
  have exists: "packed_fs ''statfile'' = Some packed_file"
    by (simp add: packed_fs_def)
  obtain d where d: "labs (1328 - 368) = Inr d" "sint d = \<bar>uint (1328 :: 64 word) - uint (368 :: 64 word)\<bar>"
    using labs_small [of 1328 368] by auto
  show ?thesis
    unfolding statfile_pool_open_def
    using open_with_closed [of empty_pool "''statfile''" packed_fs packed_file
        "rspamd_mmaped_file_reindex good_env" good_env 1328 False, OF closed below exists] d
    by (simp add: packed_file_def sizeofs)
qed

lemma reindex_packed:
  "rspamd_mmaped_file_reindex good_env empty_pool packed_fs ''statfile'' 368 1328
     = Inr (Some 0, pool_with good_env empty_pool (sample_handle 64 grown_map),
            packed_fs(''statfile'' \<mapsto> created_file good_env 1328, ''statfile.old'' := None))"
proof -
  have closed: "statfile_pool_is_open empty_pool ''statfile'' = None"
    by (rule is_open_empty_pool)
  have old: "packed_fs ''statfile'' = Some packed_file"
    by (simp add: packed_fs_def)
  have sys: "sys_open_ok good_env" "sys_write_ok good_env" "sys_rename_ok good_env"
    "sys_mmap_ok good_env"
    by (simp_all add: good_env_def)
  have room: "0 \<le> opened empty_pool" "opened empty_pool < STATFILES_MAX - 1"
    "nat (opened empty_pool) < length (files empty_pool)"
    by (simp_all add: empty_pool_def STATFILES_MAX_def)
  have sz: "of_nat sizeof_stat_file \<le> (1328 :: 64 word)" "0 < unat (create_nblocks 1328)"
    by (simp_all add: sizeofs create_nblocks_1328)
  have inb: "in_map 368 (int off_revision) 16"
    by (simp add: in_map_def header_offs)
  have sr: "statfile_set_revision (Some (sample_handle 64 grown_blocks))
              (rd64 packed_map off_revision) (rd64 packed_map off_rev_time)
            = Inr (True, Some (sample_handle 64 grown_map))"
    by (simp add: statfile_set_revision_def packed_header [unfolded header_offs] grown_map_def
        in_map_def sample_handle_def header_offs)
  have pool: "(pool_with good_env empty_pool (sample_handle 64 (contents (created_file good_env 1328))))
      \<lparr>files := (files (pool_with good_env empty_pool
                    (sample_handle 64 (contents (created_file good_env 1328)))))
                  [0 := sample_handle 64 grown_map]\<rparr>
      = pool_with good_env empty_pool (sample_handle 64 grown_map)"
    by (simp add: pool_with_def empty_pool_def)
  have o: "nat (opened empty_pool) = 0"
    by (simp add: empty_pool_def)
  show ?thesis
    using reindex_run [where env = good_env and pool = empty_pool and fs = packed_fs
        and fname = "''statfile''" and old = packed_file and sz = 1328 and old_size = 368,
        OF sys closed room old sz]
    by (simp add: opened_sample packed_file_def reindex_loop_packed inb sr pool o)
qed

lemma grown_block_368:
  "rd_block grown_map 368 = \<lparr>hash1 = 4, hash2 = 0x3FF00000, bvalue = 0x0000000100000006\<rparr>"
proof -
  define m2 where "m2 = wr64 (wr_block
             (wr64 (wr_block (contents (created_file good_env 1328))
                      368 \<lparr>hash1 = 4, hash2 = 0x3FF00000, bvalue = 0x4000000000000000\<rparr>) 32 1)
             384 \<lparr>hash1 = 5, hash2 = 7, bvalue = 0x3FF0000000000004\<rparr>) 32 2"
  have b2: "rd_block m2 368 = \<lparr>hash1 = 4, hash2 = 0x3FF00000, bvalue = 0x4000000000000000\<rparr>"
    by (simp add: m2_def rd_block_wr64_other rd_block_wr_block_other rd_block_wr_block_same)
  have "rd_block grown_map 368 = rd_block (wr64 m2 (368 + 8) 0x0000000100000006) 368"
    by (simp add: grown_map_def grown_blocks_def m2_def rd_block_wr64_other
        rd_block_wr_block_other header_offs)
  also have "\<dots> = (rd_block m2 368)\<lparr>bvalue := 0x0000000100000006\<rparr>"
    by (rule rd_block_wr_value)
  finally show ?thesis by (simp add: b2)
qed

text \<open>
  Claim C5 against the code. The copying loop of \<open>rspamd_mmaped_file_reindex\<close> ends with
  \<open>pos += sizeof (block)\<close>, where \<open>block\<close> is a pointer: it advances by 8 bytes, not by
  the 16 of a block, and so also takes the 16 bytes at every odd multiple of 8 for a
  block, made of the value of one block and the two hashes of the next. In \<open>packed_map\<close>,
  what three insertions into a new statfile of four blocks leave, the key
  \<open>(4, 0x3FF00000)\<close> has the value 2.0. The value of the next block, \<open>0x3FF0000000000004\<close>,
  reads as the hashes \<open>(4, 0x3FF00000)\<close>, and the hashes \<open>(6, 1)\<close> of the block after it
  read as the value \<open>0x0000000100000006\<close>. \<open>statfile_pool_open\<close> with the size 1328
  reindexes the file into one of 64 blocks, of which three are then used, and returns
  its handle; there the key \<open>(4, 0x3FF00000)\<close> has the value \<open>0x0000000100000006\<close>, not
  2.0.
\<close>

theorem reindex_overwrites_value:
  "statfile_pool_get_block (sample_handle 4 packed_map) 4 0x3FF00000 0
      = Inr (0x4000000000000000, (sample_handle 4 packed_map)\<lparr>access_time := 0\<rparr>)
   \<and> statfile_pool_open good_env empty_pool packed_fs ''statfile'' 1328 False
      = Inr (Some 0, pool_with good_env empty_pool (sample_handle 64 grown_map),
             packed_fs(''statfile'' \<mapsto> created_file good_env 1328, ''statfile.old'' := None))
   \<and> rd64 grown_map off_used_blocks = 3
   \<and> statfile_pool_get_block (sample_handle 64 grown_map) 4 0x3FF00000 0
      = Inr (0x0000000100000006, (sample_handle 64 grown_map)\<lparr>access_time := 0\<rparr>)"
proof -
  have before: "statfile_pool_get_block (sample_handle 4 packed_map) 4 0x3FF00000 0
      = Inr (0x4000000000000000, (sample_handle 4 packed_map)\<lparr>access_time := 0\<rparr>)"
    using get_block_head_match [OF sample_handle_ok(1) sample_handle_map
        sample_chain_4(1) [symmetric], of packed_map "0x3FF00000" 0]
    by (simp add: packed_aligned block_matches_def)
  have opened: "statfile_pool_open good_env empty_pool packed_fs ''statfile'' 1328 False
      = Inr (Some 0, pool_with good_env empty_pool (sample_handle 64 grown_map),
             packed_fs(''statfile'' \<mapsto> created_file good_env 1328, ''statfile.old'' := None))"
    unfolding open_packed_reindexes by (rule reindex_packed)
  have used: "rd64 grown_map off_used_blocks = 3"
    by (simp add: grown_map_def grown_blocks_def rd64_wr64_other rd64_wr64_same header_offs)
  have after: "statfile_pool_get_block (sample_handle 64 grown_map) 4 0x3FF00000 0
      = Inr (0x0000000100000006, (sample_handle 64 grown_map)\<lparr>access_time := 0\<rparr>)"
    using get_block_head_match [OF sample_handle_ok(2) sample_handle_map
        sample_chain_64(1) [symmetric], of grown_map "0x3FF00000" 0]
    by (simp add: grown_block_368 block_matches_def)
  from before opened used after show ?thesis by blast
qed

subsection \<open>The chain bound and the \<open>guint\<close> counters\<close>

lemma wide_blocknum: "chain_blocknum (wide_file m) 0xFFFFFFFF = 0xFFFFFFFF"
  by (simp add: chain_blocknum_def wide_file_def)

lemma wide_start: "chain_start (wide_file m) 0xFFFFFFFF = 68719477024"
  by (simp add: chain_start_def wide_file_def sizeofs)

lemma guint_sums:
  "(ucast (of_nat 0 + 0xFFFFFFFF :: 32 word) :: 64 word) = 4294967295"
  "(ucast (of_nat (Suc 0) + 0xFFFFFFFF :: 32 word) :: 64 word) = 0"
  "(ucast (of_nat (Suc (Suc 0)) + 0xFFFFFFFF :: 32 word) :: 64 word) = 1"
  by simp_all




lemma wide_fields:
  "map_ptr (wide_file m) = Some m"
  "slength (cur_section (wide_file m)) = 4294967297"
  "len (wide_file m) = 68719477072"
  "(wide_file m)\<lparr>map_ptr := Some m'\<rparr> = wide_file m'"
  "(wide_file m)\<lparr>access_time := 0\<rparr> = wide_file m"
  by (simp_all add: wide_file_def)





text \<open>The mapping \<open>wide_map\<close> is what two insertions into the empty section leave.\<close>

lemma wide_reached:
  "statfile_pool_set_block_common (wide_file (\<lambda>x. 0)) 0xFFFFFFFF 1 0 0x3FF0000000000000 False
     = Inr (wide_file (wr64 (wr_block (\<lambda>x. 0)
          68719477024 \<lparr>hash1 = 0xFFFFFFFF, hash2 = 1, bvalue = 0x3FF0000000000000\<rparr>) 32 1))"
  "statfile_pool_set_block_common
     (wide_file (wr64 (wr_block (\<lambda>x. 0)
          68719477024 \<lparr>hash1 = 0xFFFFFFFF, hash2 = 1, bvalue = 0x3FF0000000000000\<rparr>) 32 1))
     0xFFFFFFFF 2 0 0x3FF0000000000000 False
     = Inr (wide_file wide_map)"
proof -
  define m1 where "m1 = wr64 (wr_block (\<lambda>x. 0)
          68719477024 \<lparr>hash1 = 0xFFFFFFFF, hash2 = 1, bvalue = 0x3FF0000000000000\<rparr>) 32 1"
  have u0: "rd64 (wr_block (\<lambda>x. 0)
          68719477024 \<lparr>hash1 = 0xFFFFFFFF, hash2 = 1, bvalue = 0x3FF0000000000000\<rparr>) 32 = 0"
    by (simp add: rd64_wr_block_other rd64_zero)
  have l1: "set_block_loop (\<lambda>x. 0) 68719477072 4294967297 0xFFFFFFFF 0xFFFFFFFF 1
      0x3FF0000000000000 68719477024 None G_MAXDOUBLE 0
    = Inr (Returned m1, [68719477024])"
    by (subst set_block_loop.simps)
       (simp add: CHAIN_LENGTH_def guint_sums in_map_def sizeofs rd_block_zero off_used_blocks_def
          u0 m1_def)
  have b: "rd_block m1 68719477024 = \<lparr>hash1 = 0xFFFFFFFF, hash2 = 1, bvalue = 0x3FF0000000000000\<rparr>"
    "rd_block m1 68719477040 = \<lparr>hash1 = 0, hash2 = 0, bvalue = 0\<rparr>"
    by (simp_all add: m1_def rd_block_wr64_other rd_block_wr_block_other rd_block_wr_block_same
        rd_block_zero)
  have u1: "rd64 (wr_block m1
          68719477040 \<lparr>hash1 = 0xFFFFFFFF, hash2 = 2, bvalue = 0x3FF0000000000000\<rparr>) 32 = 1"
    by (simp add: m1_def rd64_wr_block_other rd64_wr64_same)
  have w: "wide_map = wr64 (wr_block m1
          68719477040 \<lparr>hash1 = 0xFFFFFFFF, hash2 = 2, bvalue = 0x3FF0000000000000\<rparr>) 32 2"
    by (simp add: wide_map_def m1_def)
  have l2b: "\<And>te mn. set_block_loop m1 68719477072 4294967297 0xFFFFFFFF 0xFFFFFFFF 2
      0x3FF0000000000000 68719477040 te mn (Suc 0)
    = Inr (Returned wide_map, [68719477040])"
    by (subst set_block_loop.simps)
       (simp add: CHAIN_LENGTH_def guint_sums in_map_def sizeofs b off_used_blocks_def u1 w)
  have l2: "set_block_loop m1 68719477072 4294967297 0xFFFFFFFF 0xFFFFFFFF 2
      0x3FF0000000000000 68719477024 None G_MAXDOUBLE 0
    = Inr (Returned wide_map, [68719477024, 68719477040])"
    by (subst set_block_loop.simps)
       (simp add: CHAIN_LENGTH_def guint_sums in_map_def sizeofs b l2b)
  have p1: "statfile_pool_set_block_common (wide_file (\<lambda>x. 0)) 0xFFFFFFFF 1 0 0x3FF0000000000000 False
     = Inr (wide_file m1)"
    by (simp add: statfile_pool_set_block_common_def Let_def wide_fields wide_blocknum wide_start l1)
  have p2: "statfile_pool_set_block_common (wide_file m1) 0xFFFFFFFF 2 0 0x3FF0000000000000 False
     = Inr (wide_file wide_map)"
    by (simp add: statfile_pool_set_block_common_def Let_def wide_fields wide_blocknum wide_start l2)
  from p1 show "statfile_pool_set_block_common (wide_file (\<lambda>x. 0)) 0xFFFFFFFF 1 0 0x3FF0000000000000 False
     = Inr (wide_file (wr64 (wr_block (\<lambda>x. 0)
          68719477024 \<lparr>hash1 = 0xFFFFFFFF, hash2 = 1, bvalue = 0x3FF0000000000000\<rparr>) 32 1))"
    by (simp add: m1_def)
  from p2 show "statfile_pool_set_block_common
     (wide_file (wr64 (wr_block (\<lambda>x. 0)
          68719477024 \<lparr>hash1 = 0xFFFFFFFF, hash2 = 1, bvalue = 0x3FF0000000000000\<rparr>) 32 1))
     0xFFFFFFFF 2 0 0x3FF0000000000000 False
     = Inr (wide_file wide_map)"
    by (simp add: m1_def)
qed

end
